(* ===== verification/Gurren_Prelude.thy ===== *)
theory Gurren_Prelude
  imports Main "HOL-Library.AList" "HOL-Library.Sublist" "HOL-Library.Multiset"
begin

text \<open>
  The shared base of the development: the result type of fallible operations, the Go map as an
  association list with distinct keys, reachability of a transition system, and the interface
  locales (invariant systems, refinements, terminating systems, codecs) that the component
  theories interpret on their own definitions.
\<close>

section \<open>Collections\<close>

named_theorems go_text \<open>equations of the Go string functions\<close>
named_theorems wire \<open>decoding equations of the JSON messages\<close>

section \<open>Fallible operations\<close>

text \<open>
  A Go function with results \<open>(T, error)\<close> is a HOL function into \<open>'e + 'a\<close>: \<open>Inl\<close> is
  the error return, \<open>Inr\<close> the regular one.
\<close>

type_synonym ('a, 'e) result = "'e + 'a"

definition bind_result :: "('a, 'e) result \<Rightarrow> ('a \<Rightarrow> ('b, 'e) result) \<Rightarrow> ('b, 'e) result" where
  "bind_result r f = (case r of Inl e \<Rightarrow> Inl e | Inr x \<Rightarrow> f x)"

lemma bind_result_simps [simp]:
  "bind_result (Inl e) f = Inl e"
  "bind_result (Inr x) f = f x"
  by (simp_all add: bind_result_def)

lemma bind_result_Inr_iff:
  "bind_result r f = Inr y \<longleftrightarrow> (\<exists>x. r = Inr x \<and> f x = Inr y)"
  by (cases r) auto

lemma ex_conjI: "P x \<Longrightarrow> Q x \<Longrightarrow> \<exists>x. P x \<and> Q x"
  by blast

section \<open>Go maps\<close>

text \<open>
  A Go map is an association list; the language leaves its iteration order open, so every
  function that ranges over a map takes the order as an argument.  The library's \<open>AList\<close>
  operations are the assignment and the \<open>delete\<close> built-in.
\<close>

type_synonym ('k, 'v) gomap = "('k \<times> 'v) list"

definition gomap_wf :: "('k, 'v) gomap \<Rightarrow> bool" where
  "gomap_wf m \<longleftrightarrow> distinct (map fst m)"

lemma gomap_wf_Nil [simp]: "gomap_wf []"
  by (simp add: gomap_wf_def)

lemma gomap_wf_update [simp]: "gomap_wf m \<Longrightarrow> gomap_wf (AList.update k v m)"
  by (simp add: gomap_wf_def distinct_update)

lemma gomap_wf_delete [simp]: "gomap_wf m \<Longrightarrow> gomap_wf (AList.delete k m)"
  by (simp add: gomap_wf_def distinct_delete)

lemma map_of_update_iff [simp]:
  "map_of (AList.update k v m) k' = (if k' = k then Some v else map_of m k')"
  by (simp add: update_conv')

lemma map_of_delete_iff [simp]:
  "map_of (AList.delete k m) k' = (if k' = k then None else map_of m k')"
  by (simp add: delete_conv')

lemma gomap_in_set_iff: "gomap_wf m \<Longrightarrow> (k, v) \<in> set m \<longleftrightarrow> map_of m k = Some v"
  by (simp add: gomap_wf_def)

text \<open>An iteration order visits every entry exactly once.\<close>

definition map_order :: "(('k, 'v) gomap \<Rightarrow> ('k, 'v) gomap) \<Rightarrow> bool" where
  "map_order iter \<longleftrightarrow> (\<forall>m. mset (iter m) = mset m)"

lemma map_order_set [simp]: "map_order iter \<Longrightarrow> set (iter m) = set m"
  by (metis map_order_def set_mset_mset)

lemma map_order_id [simp]: "map_order (\<lambda>m. m)" "map_order rev"
  by (simp_all add: map_order_def)

section \<open>Reachable states\<close>

inductive reach :: "('s \<Rightarrow> bool) \<Rightarrow> ('s \<Rightarrow> 's \<Rightarrow> bool) \<Rightarrow> 's \<Rightarrow> bool"
  for init :: "'s \<Rightarrow> bool" and step :: "'s \<Rightarrow> 's \<Rightarrow> bool" where
  reach_init: "init s \<Longrightarrow> reach init step s"
| reach_step: "reach init step s \<Longrightarrow> step s t \<Longrightarrow> reach init step t"

lemma reach_steps: "reach init step s \<Longrightarrow> step\<^sup>*\<^sup>* s t \<Longrightarrow> reach init step t"
  by (rotate_tac, induction rule: rtranclp_induct) (auto intro: reach_step)

text \<open>The contract of a component whose operations keep an invariant.\<close>

locale invariant_system =
  fixes init :: "'s \<Rightarrow> bool"
    and step :: "'s \<Rightarrow> 's \<Rightarrow> bool"
    and inv :: "'s \<Rightarrow> bool"
  assumes inv_init: "init s \<Longrightarrow> inv s"
    and inv_step: "step s t \<Longrightarrow> inv s \<Longrightarrow> inv t"
begin

lemma reach_inv: "reach init step s \<Longrightarrow> inv s"
  by (induction rule: reach.induct) (auto intro: inv_init inv_step)

lemma steps_inv: "step\<^sup>*\<^sup>* s t \<Longrightarrow> inv s \<Longrightarrow> inv t"
  by (induction rule: rtranclp_induct) (auto intro: inv_step)

end

text \<open>
  The contract of a component that implements an abstract transition system: every concrete
  step is, through the abstraction function, an abstract step or no change at all.
\<close>

locale refinement_system = invariant_system +
  fixes abs :: "'s \<Rightarrow> 'a"
    and ainit :: "'a \<Rightarrow> bool"
    and astep :: "'a \<Rightarrow> 'a \<Rightarrow> bool"
  assumes sim_init: "init s \<Longrightarrow> ainit (abs s)"
    and sim_step: "inv s \<Longrightarrow> step s t \<Longrightarrow> abs t = abs s \<or> astep (abs s) (abs t)"
begin

lemma reach_abs: "reach init step s \<Longrightarrow> reach ainit astep (abs s)"
proof (induction rule: reach.induct)
  case (reach_init s)
  then show ?case by (blast intro: reach.reach_init sim_init)
next
  case (reach_step s t)
  from reach_step.hyps(1) have "inv s" by (rule reach_inv)
  then have "abs t = abs s \<or> astep (abs s) (abs t)"
    using reach_step.hyps(2) by (rule sim_step)
  then show ?case
    using reach_step.IH by (auto intro: reach.reach_step)
qed

lemma steps_abs: "step\<^sup>*\<^sup>* s t \<Longrightarrow> inv s \<Longrightarrow> astep\<^sup>*\<^sup>* (abs s) (abs t)"
proof (induction rule: rtranclp_induct)
  case base
  then show ?case by simp
next
  case (step t u)
  from step.hyps(1) step.prems have "inv t" by (rule steps_inv)
  then have "abs u = abs t \<or> astep (abs t) (abs u)"
    using step.hyps(2) by (rule sim_step)
  then show ?case
    using step.IH[OF step.prems] by (auto intro: rtranclp.rtrancl_into_rtrancl)
qed

end

text \<open>
  The contract of a component that winds down.  Every step of a region stays in it and lowers a
  measure, except as far as it adds to a gain: work that the environment brings in.  In every state
  that is not final some step is possible that brings no new work.  Then a run is never longer than
  the measure and the work it was given, it stops only in a final state, and it can always be
  completed to one.
\<close>

locale terminating_system =
  fixes step :: "'s \<Rightarrow> 's \<Rightarrow> bool"
    and region :: "'s \<Rightarrow> bool"
    and final :: "'s \<Rightarrow> bool"
    and weight :: "'s \<Rightarrow> nat"
    and gain :: "'s \<Rightarrow> nat"
  assumes region_step: "region s \<Longrightarrow> step s t \<Longrightarrow> region t"
    and weight_step: "region s \<Longrightarrow> step s t \<Longrightarrow> weight t + gain s < weight s + gain t"
    and progress: "region s \<Longrightarrow> \<not> final s \<Longrightarrow> \<exists>t. step s t \<and> gain t = gain s"
begin

lemma reaches_final: "region s \<Longrightarrow> \<exists>t. step\<^sup>*\<^sup>* s t \<and> region t \<and> final t"
proof (induction "weight s" arbitrary: s rule: less_induct)
  case less
  show ?case
  proof (cases "final s")
    case True
    with less.prems show ?thesis by blast
  next
    case False
    with less.prems obtain u where u: "step s u" "gain u = gain s" using progress by blast
    with less.prems have "region u" and "weight u < weight s"
      using region_step weight_step[of s u] by auto
    with less.hyps obtain t where "step\<^sup>*\<^sup>* u t" "region t" "final t" by blast
    with u(1) show ?thesis by (blast intro: converse_rtranclp_into_rtranclp)
  qed
qed

lemma run_bounded:
  "region s \<Longrightarrow> (step ^^ n) s t \<Longrightarrow> region t \<and> weight t + n + gain s \<le> weight s + gain t"
proof (induction n arbitrary: t)
  case 0
  then show ?case by simp
next
  case (Suc n)
  from Suc.prems(2) obtain u where u: "(step ^^ n) s u" and ut: "step u t" by auto
  from Suc.IH[OF Suc.prems(1) u] have ru: "region u" and wu: "weight u + n + gain s \<le> weight s + gain u"
    by auto
  from weight_step[OF ru ut] region_step[OF ru ut] wu show ?case by simp
qed

lemma stuck_is_final: "region s \<Longrightarrow> \<not> (\<exists>u. step s u) \<Longrightarrow> final s"
  using progress by blast

end

section \<open>Wire codecs\<close>

text \<open>The contract between the two ends of the socket: what one side encodes the other decodes.\<close>

locale codec =
  fixes enc :: "'a \<Rightarrow> 'w"
    and decode :: "'w \<Rightarrow> ('a, 'e) result"
    and ok :: "'a \<Rightarrow> bool"
  assumes decode_enc: "ok x \<Longrightarrow> decode (enc x) = Inr x"
begin

lemma enc_eq_iff: "ok x \<Longrightarrow> ok y \<Longrightarrow> enc x = enc y \<longleftrightarrow> x = y"
  by (metis decode_enc sum.inject(2))

lemma decode_map_enc: "list_all ok xs \<Longrightarrow> map (decode \<circ> enc) xs = map Inr xs"
  by (induction xs) (auto simp: decode_enc)

end

end
