(* ===== verification/Go_Text.thy ===== *)
theory Go_Text
  imports Gurren_Prelude
begin

text \<open>
  The parts of Go's standard library that the program's text processing rests on, on strings
  as byte sequences (a \<open>char\<close> is one byte): \<^verbatim>\<open>strings.HasPrefix, Contains, Index, LastIndex,
  Cut, ReplaceAll, Join\<close>, the \<^verbatim>\<open>%d\<close> and \<^verbatim>\<open>%q\<close> verbs of \<^verbatim>\<open>fmt\<close>, UTF-8 decoding, and
  \<^verbatim>\<open>filepath.Clean\<close> / \<^verbatim>\<open>filepath.Join\<close> on Unix.
\<close>

section \<open>Package strings\<close>

fun HasPrefix :: "string \<Rightarrow> string \<Rightarrow> bool" where
  "HasPrefix s [] = True"
| "HasPrefix [] (c # p) = False"
| "HasPrefix (d # s) (c # p) = (d = c \<and> HasPrefix s p)"

fun Contains :: "string \<Rightarrow> string \<Rightarrow> bool" where
  "Contains [] sub = (sub = [])"
| "Contains (c # s) sub = (HasPrefix (c # s) sub \<or> Contains s sub)"

text \<open>\<^verbatim>\<open>Index\<close> and \<^verbatim>\<open>LastIndex\<close> return -1 when the substring does not occur.\<close>

fun Index :: "string \<Rightarrow> string \<Rightarrow> int" where
  "Index [] sub = (if sub = [] then 0 else -1)"
| "Index (c # s) sub =
     (if HasPrefix (c # s) sub then 0
      else let i = Index s sub in if i = -1 then -1 else i + 1)"

fun LastIndex :: "string \<Rightarrow> string \<Rightarrow> int" where
  "LastIndex [] sub = (if sub = [] then 0 else -1)"
| "LastIndex (c # s) sub =
     (let i = LastIndex s sub
      in if i \<noteq> -1 then i + 1 else if HasPrefix (c # s) sub then 0 else -1)"

definition Cut :: "string \<Rightarrow> string \<Rightarrow> string \<times> string \<times> bool" where
  "Cut s sep =
     (let i = Index s sep
      in if i \<ge> 0 then (take (nat i) s, drop (nat i + length sep) s, True) else (s, [], False))"

fun JoinWith :: "string \<Rightarrow> string list \<Rightarrow> string" where
  "JoinWith sep [] = []"
| "JoinWith sep [x] = x"
| "JoinWith sep (x # y # ys) = x @ sep @ JoinWith sep (y # ys)"

lemma HasPrefix_iff [go_text]: "HasPrefix s p \<longleftrightarrow> prefix p s"
  by (induction s p rule: HasPrefix.induct) auto

lemma Contains_iff [go_text]: "Contains s sub \<longleftrightarrow> sublist sub s"
  by (induction s sub rule: Contains.induct) (auto simp: HasPrefix_iff sublist_Cons_right)

lemma HasPrefix_append [simp]: "HasPrefix (p @ s) p"
  by (simp add: HasPrefix_iff)

lemma Contains_char_iff [simp]: "Contains s [c] \<longleftrightarrow> c \<in> set s"
  by (induction s) (auto simp: HasPrefix_iff)

lemma Index_char_None [simp]: "c \<notin> set s \<Longrightarrow> Index s [c] = -1"
  by (induction s) (auto simp: HasPrefix_iff)

lemma Index_char_append [simp]: "c \<notin> set u \<Longrightarrow> Index (u @ c # s) [c] = int (length u)"
  by (induction u) (auto simp: Let_def)

lemma Index_char_ge: "Index s [c] = -1 \<and> c \<notin> set s \<or> 0 \<le> Index s [c] \<and> c \<in> set s"
  by (induction s) (auto simp: Let_def)

lemma LastIndex_char_None [simp]: "c \<notin> set s \<Longrightarrow> LastIndex s [c] = -1"
  by (induction s) (auto simp: HasPrefix_iff)

lemma LastIndex_char_append [simp]: "c \<notin> set v \<Longrightarrow> LastIndex (u @ c # v) [c] = int (length u)"
  by (induction u) (auto simp: Let_def)

lemma Cut_char_None [simp]: "c \<notin> set s \<Longrightarrow> Cut s [c] = (s, [], False)"
  by (simp add: Cut_def)

lemma Cut_char_append [simp]: "c \<notin> set u \<Longrightarrow> Cut (u @ c # s) [c] = (u, s, True)"
  by (simp add: Cut_def)

lemma split_char_first: "c \<in> set s \<Longrightarrow> \<exists>u v. s = u @ c # v \<and> c \<notin> set u"
  by (rule split_list_first)

text \<open>
  A byte that the substring does not have separates the places where it can occur: this is what
  lets an error text be read piece by piece around the quotes of \<^verbatim>\<open>%q\<close>.
\<close>

lemma Contains_separator:
  assumes "c \<notin> set sub"
  shows "Contains (xs @ c # ys) sub \<longleftrightarrow> Contains xs sub \<or> Contains ys sub"
proof -
  have "sublist sub (xs @ c # ys) \<longleftrightarrow> sublist sub xs \<or> sublist sub ys"
  proof
    assume "sublist sub (xs @ c # ys)"
    then obtain ps ss where eq: "xs @ c # ys = ps @ sub @ ss" by (auto simp: sublist_def)
    show "sublist sub xs \<or> sublist sub ys"
    proof (cases "length (ps @ sub) \<le> length xs")
      case True
      from eq have "take (length (ps @ sub)) (xs @ c # ys) = ps @ sub" by simp
      with True have "prefix (ps @ sub) xs" by (metis take_append append_Nil2 diff_is_0_eq take_0 take_is_prefix)
      then show ?thesis by (auto simp: sublist_def prefix_def)
    next
      case False
      show ?thesis
      proof (cases "length ps \<le> length xs")
        case True
        from eq have nth: "(ps @ sub @ ss) ! length xs = c" by (metis nth_append_length)
        from True False have "length xs - length ps < length sub" by simp
        moreover from True nth have "(sub @ ss) ! (length xs - length ps) = c" by (simp add: nth_append)
        ultimately have "c \<in> set sub" by (metis nth_append nth_mem)
        with assms show ?thesis by simp
      next
        case False
        then have "Suc (length xs) \<le> length ps" by simp
        moreover from eq have "drop (Suc (length xs)) (ps @ sub @ ss) = ys"
          by (metis append.assoc append_Cons append_Nil append_eq_conv_conj length_append_singleton)
        ultimately have "ys = drop (Suc (length xs)) ps @ sub @ ss" by simp
        then show ?thesis by (auto simp: sublist_def)
      qed
    qed
  next
    assume "sublist sub xs \<or> sublist sub ys"
    then show "sublist sub (xs @ c # ys)"
      by (metis sublist_order.order_trans sublist_append_leftI sublist_append_rightI append_Cons append_Nil append_assoc)
  qed
  then show ?thesis by (simp add: Contains_iff)
qed

section \<open>Decimal numbers: the verb d\<close>

definition digit :: "nat \<Rightarrow> char" where
  "digit d = ''0123456789'' ! d"

fun dec :: "nat \<Rightarrow> string" where
  "dec n = (if n < 10 then [digit n] else dec (n div 10) @ [digit (n mod 10)])"

declare dec.simps [simp del]

text \<open>The inverse, used to show that distinct numbers print differently.\<close>

definition digit_val :: "char \<Rightarrow> nat" where
  "digit_val c = of_char c - 48"

definition undec :: "string \<Rightarrow> nat" where
  "undec s = foldl (\<lambda>a c. 10 * a + digit_val c) 0 s"

lemma less_10_cases: "n < (10::nat) \<Longrightarrow> n \<in> {0, 1, 2, 3, 4, 5, 6, 7, 8, 9}"
  by auto

lemma digit_val_digit [simp]: "d < 10 \<Longrightarrow> digit_val (digit d) = d"
  by (drule less_10_cases) (auto simp: digit_val_def digit_def)

lemma digit_in: "d < 10 \<Longrightarrow> digit d \<in> set ''0123456789''"
  by (drule less_10_cases) (auto simp: digit_def)

lemma undec_dec: "undec (dec n) = n"
proof (induction n rule: dec.induct)
  case (1 n)
  show ?case
  proof (cases "n < 10")
    case True
    then show ?thesis by (simp add: dec.simps[of n] undec_def)
  next
    case False
    with 1 have "undec (dec (n div 10)) = n div 10" by simp
    with False show ?thesis by (simp add: dec.simps[of n] undec_def)
  qed
qed

lemma dec_eq_iff [simp]: "dec m = dec n \<longleftrightarrow> m = n"
  by (metis undec_dec)

lemma set_dec: "set (dec n) \<subseteq> set ''0123456789''"
proof (induction n rule: dec.induct)
  case (1 n)
  then show ?case
    using digit_in[of n] digit_in[of "n mod 10"] by (subst dec.simps) (auto split: if_splits)
qed

lemma dec_nonempty [simp]: "dec n \<noteq> []"
  by (subst dec.simps) simp

section \<open>UTF-8\<close>

text \<open>
  \<^verbatim>\<open>utf8.DecodeRuneInString\<close>: the rune and its width.  An invalid encoding gives the
  replacement character (65533) with width 1, the empty string width 0.
\<close>

definition RuneError :: nat where
  "RuneError = 65533"

definition in_range :: "nat \<Rightarrow> nat \<Rightarrow> char \<Rightarrow> bool" where
  "in_range lo hi c \<longleftrightarrow> lo \<le> of_char c \<and> of_char c \<le> hi"

definition tail_bits :: "char \<Rightarrow> nat" where
  "tail_bits c = of_char c - 128"

definition decode2 :: "nat \<Rightarrow> string \<Rightarrow> nat \<times> nat" where
  "decode2 b0 rest =
     (case rest of
        c1 # _ \<Rightarrow> if in_range 128 191 c1 then ((b0 - 192) * 64 + tail_bits c1, 2) else (RuneError, 1)
      | _ \<Rightarrow> (RuneError, 1))"

definition decode3 :: "nat \<Rightarrow> string \<Rightarrow> nat \<times> nat" where
  "decode3 b0 rest =
     (case rest of
        c1 # c2 # _ \<Rightarrow>
          if in_range (if b0 = 224 then 160 else 128) (if b0 = 237 then 159 else 191) c1
             \<and> in_range 128 191 c2
          then ((b0 - 224) * 4096 + tail_bits c1 * 64 + tail_bits c2, 3) else (RuneError, 1)
      | _ \<Rightarrow> (RuneError, 1))"

definition decode4 :: "nat \<Rightarrow> string \<Rightarrow> nat \<times> nat" where
  "decode4 b0 rest =
     (case rest of
        c1 # c2 # c3 # _ \<Rightarrow>
          if in_range (if b0 = 240 then 144 else 128) (if b0 = 244 then 143 else 191) c1
             \<and> in_range 128 191 c2 \<and> in_range 128 191 c3
          then ((b0 - 240) * 262144 + tail_bits c1 * 4096 + tail_bits c2 * 64 + tail_bits c3, 4)
          else (RuneError, 1)
      | _ \<Rightarrow> (RuneError, 1))"

fun DecodeRune :: "string \<Rightarrow> nat \<times> nat" where
  "DecodeRune [] = (RuneError, 0)"
| "DecodeRune (c0 # rest) =
     (let b0 = of_char c0 in
      if b0 < 128 then (b0, 1)
      else if 194 \<le> b0 \<and> b0 \<le> 223 then decode2 b0 rest
      else if 224 \<le> b0 \<and> b0 \<le> 239 then decode3 b0 rest
      else if 240 \<le> b0 \<and> b0 \<le> 244 then decode4 b0 rest
      else (RuneError, 1))"

text \<open>
  \<^verbatim>\<open>encoding/json\<close> replaces every invalid byte of a string it writes by the encoding of the
  replacement character.
\<close>

definition replacement :: string where
  "replacement = [CHR 0xEF, CHR 0xBF, CHR 0xBD]"

fun coerce_utf8 :: "string \<Rightarrow> string" where
  "coerce_utf8 [] = []"
| "coerce_utf8 (c # s) =
     (let (r, w) = DecodeRune (c # s) in
      if r = RuneError \<and> w = 1 then replacement @ coerce_utf8 s
      else (c # take (w - 1) s) @ coerce_utf8 (drop (w - 1) s))"

definition valid_utf8 :: "string \<Rightarrow> bool" where
  "valid_utf8 s \<longleftrightarrow> coerce_utf8 s = s"

text \<open>A string of 7-bit bytes is valid UTF-8.\<close>

definition ascii :: "string \<Rightarrow> bool" where
  "ascii s \<longleftrightarrow> list_all (\<lambda>c. of_char c < (128::nat)) s"

lemma coerce_utf8_ascii: "ascii s \<Longrightarrow> coerce_utf8 s = s"
  by (induction s) (auto simp: ascii_def Let_def RuneError_def)

lemma valid_utf8_ascii: "ascii s \<Longrightarrow> valid_utf8 s"
  by (simp add: valid_utf8_def coerce_utf8_ascii)

section \<open>Quoted strings: the verb q\<close>

text \<open>
  \<^verbatim>\<open>strconv.Quote\<close>.  Whether a rune beyond ASCII is printable is decided by the Unicode
  tables, which are the argument \<open>isPrint\<close>; for ASCII it is 32 to 126.
\<close>

definition hexdigit :: "nat \<Rightarrow> char" where
  "hexdigit d = ''0123456789abcdef'' ! d"

primrec hex :: "nat \<Rightarrow> nat \<Rightarrow> string" where
  "hex 0 n = []"
| "hex (Suc k) n = hex k (n div 16) @ [hexdigit (n mod 16)]"

definition rune_printable :: "(nat \<Rightarrow> bool) \<Rightarrow> nat \<Rightarrow> bool" where
  "rune_printable isPrint r = (if r < 128 then 32 \<le> r \<and> r < 127 else isPrint r)"

definition escape_rune :: "(nat \<Rightarrow> bool) \<Rightarrow> nat \<Rightarrow> string \<Rightarrow> string" where
  "escape_rune isPrint r bytes =
     (if r = 34 \<or> r = 92 then CHR 0x5C # bytes
      else if rune_printable isPrint r then bytes
      else if r = 7 then [CHR 0x5C, CHR ''a'']
      else if r = 8 then [CHR 0x5C, CHR ''b'']
      else if r = 12 then [CHR 0x5C, CHR ''f'']
      else if r = 10 then [CHR 0x5C, CHR ''n'']
      else if r = 13 then [CHR 0x5C, CHR ''r'']
      else if r = 9 then [CHR 0x5C, CHR ''t'']
      else if r = 11 then [CHR 0x5C, CHR ''v'']
      else if r < 32 \<or> r = 127 then [CHR 0x5C, CHR ''x''] @ hex 2 r
      else if r < 65536 then [CHR 0x5C, CHR ''u''] @ hex 4 r
      else [CHR 0x5C, CHR ''U''] @ hex 8 r)"

fun quote_body :: "(nat \<Rightarrow> bool) \<Rightarrow> string \<Rightarrow> string" where
  "quote_body isPrint [] = []"
| "quote_body isPrint (c # s) =
     (let (r, w) = DecodeRune (c # s) in
      if w = 1 \<and> r = RuneError
      then [CHR 0x5C, CHR ''x''] @ hex 2 (of_char c) @ quote_body isPrint s
      else escape_rune isPrint r (c # take (w - 1) s) @ quote_body isPrint (drop (w - 1) s))"

definition Quote :: "(nat \<Rightarrow> bool) \<Rightarrow> string \<Rightarrow> string" where
  "Quote isPrint s = CHR 0x22 # quote_body isPrint s @ [CHR 0x22]"

text \<open>Plain names: printable ASCII without quotes and backslashes; they print as themselves.\<close>

definition plain_char :: "char \<Rightarrow> bool" where
  "plain_char c \<longleftrightarrow> 32 \<le> (of_char c :: nat) \<and> of_char c < (127::nat) \<and> c \<noteq> CHR 0x22 \<and> c \<noteq> CHR 0x5C"

definition plain :: "string \<Rightarrow> bool" where
  "plain s \<longleftrightarrow> list_all plain_char s"

lemma of_char_quote: "(of_char c :: nat) = 34 \<longleftrightarrow> c = CHR 0x22"
  using of_char_eq_iff[of c "CHR 0x22", where 'a = nat] by simp

lemma of_char_backslash: "(of_char c :: nat) = 92 \<longleftrightarrow> c = CHR 0x5C"
  using of_char_eq_iff[of c "CHR 0x5C", where 'a = nat] by simp

lemma escape_rune_plain: "plain_char c \<Longrightarrow> escape_rune isPrint (of_char c) [c] = [c]"
  by (simp add: escape_rune_def rune_printable_def plain_char_def of_char_quote of_char_backslash)

lemma quote_body_plain: "plain s \<Longrightarrow> quote_body isPrint s = s"
proof (induction s)
  case Nil
  then show ?case by simp
next
  case (Cons c s)
  then have "plain_char c" and "plain s" by (auto simp: plain_def)
  moreover from this(1) have "(of_char c :: nat) < 128" by (simp add: plain_char_def)
  ultimately show ?case
    using Cons.IH by (simp add: RuneError_def escape_rune_plain)
qed

lemma Quote_plain: "plain s \<Longrightarrow> Quote isPrint s = CHR 0x22 # s @ [CHR 0x22]"
  by (simp add: Quote_def quote_body_plain)

text \<open>A substring without quotes occurs in a quoted string only inside the body.\<close>

lemma Contains_Quote:
  assumes "CHR 0x22 \<notin> set sub"
  shows "Contains (xs @ Quote isPrint s @ ys) sub \<longleftrightarrow>
           Contains xs sub \<or> Contains (quote_body isPrint s) sub \<or> Contains ys sub"
  using Contains_separator[OF assms] by (simp add: Quote_def)

section \<open>Package path/filepath\<close>

text \<open>\<^verbatim>\<open>filepath.Clean\<close> on Unix, over the list of slash-separated elements.\<close>

fun split_slash :: "string \<Rightarrow> string list" where
  "split_slash [] = [[]]"
| "split_slash (c # s) =
     (if c = CHR ''/'' then [] # split_slash s
      else (case split_slash s of [] \<Rightarrow> [[c]] | x # xs \<Rightarrow> (c # x) # xs))"

text \<open>The stack holds the elements kept so far, the last one first.\<close>

definition clean_element :: "bool \<Rightarrow> string \<Rightarrow> string list \<Rightarrow> string list" where
  "clean_element rooted e stack =
     (if e = [] \<or> e = ''.'' then stack
      else if e = ''..'' then
        (case stack of
           [] \<Rightarrow> if rooted then [] else [''..'']
         | t # ts \<Rightarrow> if t = ''..'' then ''..'' # stack else ts)
      else e # stack)"

definition clean_elements :: "bool \<Rightarrow> string list \<Rightarrow> string list" where
  "clean_elements rooted es = rev (fold (clean_element rooted) es [])"

definition Clean :: "string \<Rightarrow> string" where
  "Clean p =
     (let rooted = HasPrefix p ''/'';
          out = (if rooted then ''/'' else []) @ JoinWith ''/'' (clean_elements rooted (split_slash p))
      in if out = [] then ''.'' else out)"

definition filepath_Join :: "string list \<Rightarrow> string" where
  "filepath_Join es =
     (let ne = dropWhile (\<lambda>e. e = []) es
      in if ne = [] then [] else Clean (JoinWith ''/'' ne))"

lemma filepath_Join_rooted:
  assumes "HasPrefix d ''/''"
  shows "HasPrefix (filepath_Join (d # es)) ''/''"
proof -
  from assms obtain d' where d: "d = CHR ''/'' # d'" by (cases d) auto
  have "HasPrefix (JoinWith ''/'' (d # es)) ''/''" by (cases es) (auto simp: d)
  then show ?thesis by (simp add: filepath_Join_def d Clean_def Let_def)
qed

lemma split_slash_nonempty [simp]: "split_slash s \<noteq> []"
  by (induction s) (auto split: list.splits)

lemma split_slash_append: "split_slash (a @ CHR ''/'' # b) = split_slash a @ split_slash b"
proof (induction a)
  case Nil
  then show ?case by simp
next
  case (Cons c a)
  then show ?case by (cases "split_slash a") auto
qed

text \<open>A doubled slash makes no difference to \<^verbatim>\<open>Clean\<close>.\<close>

lemma Clean_double_slash:
  assumes "d \<noteq> []"
  shows "Clean (d @ CHR ''/'' # CHR ''/'' # e) = Clean (d @ CHR ''/'' # e)"
proof -
  have "HasPrefix (d @ x) ''/'' = HasPrefix d ''/''" for x using assms by (cases d) auto
  moreover have "clean_elements r (split_slash (d @ CHR ''/'' # CHR ''/'' # e)) =
      clean_elements r (split_slash (d @ CHR ''/'' # e))" for r
    using split_slash_append[of d "CHR ''/'' # e"] split_slash_append[of d e]
    by (simp add: clean_elements_def clean_element_def)
  ultimately show ?thesis by (simp add: Clean_def)
qed

section \<open>Package os\<close>

text \<open>
  \<^verbatim>\<open>os.Getenv\<close> is an argument of the model (the empty string for an unset variable), and
  \<^verbatim>\<open>os.UserHomeDir\<close> on Unix reads \<open>HOME\<close>.
\<close>

type_synonym getenv = "string \<Rightarrow> string"

definition UserHomeDir :: "getenv \<Rightarrow> (string, string) result" where
  "UserHomeDir getenv =
     (if getenv ''HOME'' \<noteq> [] then Inr (getenv ''HOME'') else Inl ''$HOME is not defined'')"

end
