(* ===== verification/Config.thy ===== *)
theory Config
  imports Go_Text
begin

text \<open>
  Package \<^verbatim>\<open>internal/config\<close>: the configuration structs, \<^verbatim>\<open>deriveName\<close>, \<^verbatim>\<open>Load\<close> with its two
  passes over the tunnels (deriving missing names, suffixing duplicates), \<^verbatim>\<open>GetTunnelByName\<close> and
  \<^verbatim>\<open>TunnelNames\<close>.  The viper library is a record of operations, an argument of \<^verbatim>\<open>Load\<close>; so
  are \<^verbatim>\<open>os.Stat\<close> and the environment.
\<close>

section \<open>Data\<close>

record AuthConfig =
  ac_Method :: string
  ac_KeyPath :: string

record TunnelConfig =
  tc_Name :: string
  tc_Host :: string
  tc_Remote :: string
  tc_Local :: string

record Config =
  cfg_Auth :: AuthConfig
  cfg_Tunnels :: "TunnelConfig list"

text \<open>The operations of viper that \<^verbatim>\<open>Load\<close> calls, on a viper instance of type \<open>'v\<close>.\<close>

record 'v viper =
  New :: 'v
  SetDefault :: "string \<Rightarrow> string \<Rightarrow> 'v \<Rightarrow> 'v"
  SetConfigType :: "string \<Rightarrow> 'v \<Rightarrow> 'v"
  SetEnvPrefix :: "string \<Rightarrow> 'v \<Rightarrow> 'v"
  AutomaticEnv :: "'v \<Rightarrow> 'v"
  SetConfigFile :: "string \<Rightarrow> 'v \<Rightarrow> 'v"
  ReadInConfig :: "'v \<Rightarrow> ('v, string) result"
  Unmarshal :: "'v \<Rightarrow> (Config, string) result"

section \<open>Operations\<close>

definition deriveName :: "string \<Rightarrow> string" where
  "deriveName host =
     (let idx = Index host ''@'' in if idx \<noteq> -1 then drop (nat (idx + 1)) host else host)"

text \<open>First pass of \<^verbatim>\<open>Load\<close> over the tunnels: names for those that have none.\<close>

definition derive_name_of :: "TunnelConfig \<Rightarrow> TunnelConfig" where
  "derive_name_of t =
     (if tc_Name t = [] \<and> tc_Host t \<noteq> [] then t\<lparr>tc_Name := deriveName (tc_Host t)\<rparr> else t)"

text \<open>
  Second pass: a name seen before gets a suffix.  The map counts, by the name a tunnel had before
  this pass, how many tunnels had it.
\<close>

fun suffix_duplicates :: "(string, nat) gomap \<Rightarrow> TunnelConfig list \<Rightarrow> TunnelConfig list" where
  "suffix_duplicates nameCounts [] = []"
| "suffix_duplicates nameCounts (t # ts) =
     (case map_of nameCounts (tc_Name t) of
        Some cnt \<Rightarrow>
          t\<lparr>tc_Name := tc_Name t @ ''-'' @ dec (cnt + 1)\<rparr>
          # suffix_duplicates (AList.update (tc_Name t) (cnt + 1) nameCounts) ts
      | None \<Rightarrow> t # suffix_duplicates (AList.update (tc_Name t) 1 nameCounts) ts)"

definition finish_tunnels :: "TunnelConfig list \<Rightarrow> TunnelConfig list" where
  "finish_tunnels ts = suffix_duplicates [] (map derive_name_of ts)"

definition config_paths :: "string \<Rightarrow> string list" where
  "config_paths home =
     [filepath_Join [home, ''.config'', ''gurren'', ''config.toml''],
      filepath_Join [home, ''gurren.toml'']]"

fun find_config_file :: "(string \<Rightarrow> bool) \<Rightarrow> string list \<Rightarrow> string" where
  "find_config_file stat_ok [] = []"
| "find_config_file stat_ok (p # ps) = (if stat_ok p then p else find_config_file stat_ok ps)"

definition viper_setup :: "'v viper \<Rightarrow> 'v" where
  "viper_setup v =
     AutomaticEnv v (SetEnvPrefix v ''GURREN''
       (SetConfigType v ''toml'' (SetDefault v ''auth.method'' ''auto'' (New v))))"

definition unmarshal_config :: "'v viper \<Rightarrow> 'v \<Rightarrow> (Config, string) result" where
  "unmarshal_config v v' =
     (case Unmarshal v v' of
        Inl e \<Rightarrow> Inl (''error parsing config: '' @ e)
      | Inr cfg \<Rightarrow> Inr (cfg\<lparr>cfg_Tunnels := finish_tunnels (cfg_Tunnels cfg)\<rparr>))"

text \<open>The viper instance that \<^verbatim>\<open>Load\<close> decodes: set up, and with the file read if there is one.\<close>

definition loaded_viper :: "'v viper \<Rightarrow> (string \<Rightarrow> bool) \<Rightarrow> getenv \<Rightarrow> ('v, string) result" where
  "loaded_viper v stat_ok getenv =
     (case UserHomeDir getenv of
        Inl e \<Rightarrow> Inl (''unable to get home directory: '' @ e)
      | Inr home \<Rightarrow>
          (let configFile = find_config_file stat_ok (config_paths home)
           in if configFile \<noteq> []
              then (case ReadInConfig v (SetConfigFile v configFile (viper_setup v)) of
                      Inl e \<Rightarrow> Inl (''error reading config: '' @ e)
                    | Inr v' \<Rightarrow> Inr v')
              else Inr (viper_setup v)))"

definition Load :: "'v viper \<Rightarrow> (string \<Rightarrow> bool) \<Rightarrow> getenv \<Rightarrow> (Config, string) result" where
  "Load v stat_ok getenv = bind_result (loaded_viper v stat_ok getenv) (unmarshal_config v)"

fun find_tunnel :: "string \<Rightarrow> TunnelConfig list \<Rightarrow> TunnelConfig option" where
  "find_tunnel name [] = None"
| "find_tunnel name (t # ts) = (if tc_Name t = name then Some t else find_tunnel name ts)"

definition GetTunnelByName :: "Config \<Rightarrow> string \<Rightarrow> TunnelConfig option" where
  "GetTunnelByName c name = find_tunnel name (cfg_Tunnels c)"

definition TunnelNames :: "Config \<Rightarrow> string list" where
  "TunnelNames c = map tc_Name (cfg_Tunnels c)"

section \<open>Derived names\<close>

lemma deriveName_user [simp]: "CHR ''@'' \<notin> set u \<Longrightarrow> deriveName (u @ CHR ''@'' # h) = h"
  by (simp add: deriveName_def nat_add_distrib)

lemma deriveName_plain [simp]: "CHR ''@'' \<notin> set h \<Longrightarrow> deriveName h = h"
  by (simp add: deriveName_def)

section \<open>Suffixed names\<close>

text \<open>
  The reference: the name of the \<open>i\<close>-th tunnel depends only on how often its name occurs before
  position \<open>i\<close>.
\<close>

definition suffixed_name :: "string list \<Rightarrow> nat \<Rightarrow> string" where
  "suffixed_name names i =
     (let n = names ! i; k = count_list (take i names) n
      in if k = 0 then n else n @ ''-'' @ dec (k + 1))"

definition counts_of :: "(string, nat) gomap \<Rightarrow> string list \<Rightarrow> bool" where
  "counts_of nc seen \<longleftrightarrow>
     (\<forall>n. map_of nc n = (if count_list seen n = 0 then None else Some (count_list seen n)))"

lemma counts_of_Nil: "counts_of [] []"
  by (simp add: counts_of_def)

lemma counts_of_snoc:
  "counts_of nc seen \<Longrightarrow> counts_of (AList.update n (count_list seen n + 1) nc) (seen @ [n])"
  by (auto simp: counts_of_def)

lemma suffix_duplicates_length [simp]: "length (suffix_duplicates nc ts) = length ts"
  by (induction nc ts rule: suffix_duplicates.induct) (auto split: option.splits)

lemma suffix_duplicates_names:
  assumes "counts_of nc seen"
  shows "map tc_Name (suffix_duplicates nc ts) =
         map (\<lambda>i. suffixed_name (seen @ map tc_Name ts) (length seen + i)) [0..<length ts]"
  using assms
proof (induction ts arbitrary: nc seen)
  case Nil
  then show ?case by simp
next
  case (Cons t ts)
  let ?n = "tc_Name t" and ?k = "count_list seen (tc_Name t)"
  from Cons.prems have nc: "map_of nc ?n = (if ?k = 0 then None else Some ?k)"
    by (simp add: counts_of_def)
  have step: "map tc_Name (suffix_duplicates nc (t # ts)) =
      (if ?k = 0 then ?n else ?n @ ''-'' @ dec (?k + 1))
      # map tc_Name (suffix_duplicates (AList.update ?n (?k + 1) nc) ts)"
    using nc by simp
  have rest: "map tc_Name (suffix_duplicates (AList.update ?n (?k + 1) nc) ts) =
      map (\<lambda>i. suffixed_name (seen @ map tc_Name (t # ts)) (length seen + i)) [1..<length (t # ts)]"
    using Cons.IH[OF counts_of_snoc[OF Cons.prems, of ?n]]
    by (simp add: map_Suc_upt[symmetric] del: upt_Suc)
  have first: "(if ?k = 0 then ?n else ?n @ ''-'' @ dec (?k + 1)) =
      suffixed_name (seen @ map tc_Name (t # ts)) (length seen + 0)"
    by (simp add: suffixed_name_def Let_def)
  show ?case
    unfolding step rest first by (simp add: upt_rec[of 0] del: upt_Suc)
qed

lemma suffix_duplicates_other_fields:
  "map tc_Host (suffix_duplicates nc ts) = map tc_Host ts"
  "map tc_Remote (suffix_duplicates nc ts) = map tc_Remote ts"
  "map tc_Local (suffix_duplicates nc ts) = map tc_Local ts"
  by (induction nc ts rule: suffix_duplicates.induct) (auto split: option.splits)

lemma derive_name_of_other_fields [simp]:
  "tc_Host (derive_name_of t) = tc_Host t"
  "tc_Remote (derive_name_of t) = tc_Remote t"
  "tc_Local (derive_name_of t) = tc_Local t"
  by (simp_all add: derive_name_of_def)

lemma finish_tunnels_length [simp]: "length (finish_tunnels ts) = length ts"
  by (simp add: finish_tunnels_def)

lemma finish_tunnels_names:
  "map tc_Name (finish_tunnels ts) =
   map (suffixed_name (map (tc_Name \<circ> derive_name_of) ts)) [0..<length ts]"
  using suffix_duplicates_names[OF counts_of_Nil, of "map derive_name_of ts"]
  by (simp add: finish_tunnels_def)

text \<open>Appending \<open>-k\<close> is injective in both the name and the number.\<close>

lemma dash_dec_inject:
  "a @ ''-'' @ dec j = b @ ''-'' @ dec k \<longleftrightarrow> a = b \<and> j = k"
proof
  assume eq: "a @ ''-'' @ dec j = b @ ''-'' @ dec k"
  have nodash: "CHR ''-'' \<notin> set (dec n)" for n using set_dec[of n] by auto
  have "LastIndex (a @ CHR ''-'' # dec j) ''-'' = LastIndex (b @ CHR ''-'' # dec k) ''-''"
    using eq by simp
  then have "length a = length b" by (simp add: nodash)
  with eq show "a = b \<and> j = k" by simp
qed auto

text \<open>
  No name of the list is one that the second pass makes: of a name that occurs \<open>c\<close> times it makes
  those with the suffixes \<open>-2\<close> to \<open>-c\<close>.
\<close>

definition suffix_free :: "string list \<Rightarrow> bool" where
  "suffix_free names \<longleftrightarrow>
     list_all (\<lambda>n. list_all (\<lambda>k. n @ ''-'' @ dec k \<notin> set names) [2..<count_list names n + 1]) names"

lemma count_list_take_less:
  assumes "i < j" "j \<le> length xs"
  shows "count_list (take i xs) (xs ! i) < count_list (take j xs) (xs ! i)"
proof -
  have "take j xs = take i xs @ xs ! i # drop (Suc i) (take j xs)"
    using id_take_nth_drop[of i "take j xs"] assms by simp
  then have "count_list (take j xs) (xs ! i) =
      count_list (take i xs @ xs ! i # drop (Suc i) (take j xs)) (xs ! i)" by simp
  then show ?thesis by simp
qed

lemma occurrence:
  assumes "j < count_list xs n"
  obtains i where "i < length xs" "xs ! i = n" "count_list (take i xs) n = j"
proof -
  from assms have "\<exists>i<length xs. xs ! i = n \<and> count_list (take i xs) n = j"
  proof (induction xs rule: rev_induct)
    case (snoc x xs)
    show ?case
    proof (cases "j < count_list xs n")
      case True
      with snoc.IH obtain i where "i < length xs" "xs ! i = n" "count_list (take i xs) n = j" by blast
      then show ?thesis by (intro exI[of _ i]) (simp add: nth_append)
    next
      case False
      with snoc.prems show ?thesis by (intro exI[of _ "length xs"]) (auto split: if_splits)
    qed
  qed simp
  with that show thesis by blast
qed

lemma suffixed_name_neq:
  assumes sf: "suffix_free names" and ij: "i < j" and j: "j < length names"
  shows "suffixed_name names i \<noteq> suffixed_name names j"
proof -
  let ?n = "\<lambda>i. names ! i" and ?k = "\<lambda>i. count_list (take i names) (names ! i)"
  have free: "?n a \<noteq> ?n b @ ''-'' @ dec (?k b + 1)"
    if "a < length names" "b < length names" "?k b \<noteq> 0" for a b
  proof -
    from count_list_take_less[OF that(2), of names] have "?k b < count_list names (?n b)" by simp
    with that(3) have "?k b + 1 \<in> set [2..<count_list names (?n b) + 1]" by auto
    with sf that(2) have "?n b @ ''-'' @ dec (?k b + 1) \<notin> set names"
      unfolding suffix_free_def list_all_iff using nth_mem by blast
    with that(1) show ?thesis using nth_mem by metis
  qed
  have grow: "?n i = ?n j \<Longrightarrow> ?k i < ?k j"
    using count_list_take_less[OF ij, of names] j by simp
  show ?thesis
    using free[of i j] free[of j i] grow ij j
    by (auto simp: suffixed_name_def Let_def dash_dec_inject[simplified])
qed

lemma suffixed_name_collision:
  assumes "\<not> suffix_free names"
  obtains i j where "i < length names" "j < length names" "i \<noteq> j"
    "suffixed_name names i = suffixed_name names j"
proof -
  from assms obtain n k where k: "2 \<le> k" "k \<le> count_list names n" and mem: "n @ ''-'' @ dec k \<in> set names"
    unfolding suffix_free_def list_all_iff by (metis atLeastLessThan_iff less_Suc_eq_le Suc_eq_plus1 set_upt)
  from mem have "0 < count_list names (n @ ''-'' @ dec k)" by (metis count_list_0_iff neq0_conv)
  then obtain i where i: "i < length names" "names ! i = n @ ''-'' @ dec k"
    "count_list (take i names) (n @ ''-'' @ dec k) = 0" by (rule occurrence)
  from k have "k - 1 < count_list names n" by simp
  then obtain j where j: "j < length names" "names ! j = n" "count_list (take j names) n = k - 1"
    by (rule occurrence)
  have "suffixed_name names i = suffixed_name names j"
    using i j k by (simp add: suffixed_name_def Let_def)
  moreover have "i \<noteq> j" using i(2) j(2) by auto
  ultimately show thesis using that i(1) j(1) by blast
qed

lemma finish_tunnels_distinct:
  "distinct (map tc_Name (finish_tunnels ts)) \<longleftrightarrow> suffix_free (map (tc_Name \<circ> derive_name_of) ts)"
proof -
  let ?names = "map (tc_Name \<circ> derive_name_of) ts"
  have "distinct (map tc_Name (finish_tunnels ts)) \<longleftrightarrow> inj_on (suffixed_name ?names) {0..<length ts}"
    by (simp add: finish_tunnels_names distinct_map)
  also have "\<dots> \<longleftrightarrow> suffix_free ?names"
  proof
    assume "suffix_free ?names"
    from suffixed_name_neq[OF this] show "inj_on (suffixed_name ?names) {0..<length ts}"
      by (auto simp: inj_on_def) (metis nat_neq_iff)
  next
    assume inj: "inj_on (suffixed_name ?names) {0..<length ts}"
    show "suffix_free ?names"
      by (rule ccontr, erule suffixed_name_collision) (use inj in \<open>auto dest: inj_onD\<close>)
  qed
  finally show ?thesis .
qed

lemma Load_InrE:
  assumes "Load v stat_ok getenv = Inr cfg"
  obtains v' cfg0 where "loaded_viper v stat_ok getenv = Inr v'" and "Unmarshal v v' = Inr cfg0"
    and "cfg = cfg0\<lparr>cfg_Tunnels := finish_tunnels (cfg_Tunnels cfg0)\<rparr>"
proof -
  from assms obtain v' where "loaded_viper v stat_ok getenv = Inr v'" "unmarshal_config v v' = Inr cfg"
    by (auto simp: Load_def bind_result_Inr_iff)
  then show thesis
    using that by (auto simp: unmarshal_config_def split: sum.splits)
qed

lemma find_config_file_cong:
  "(\<And>p. p \<in> set ps \<Longrightarrow> stat_ok p = stat_ok' p) \<Longrightarrow>
   find_config_file stat_ok ps = find_config_file stat_ok' ps"
  by (induction ps) auto

lemma find_tunnel_eq_find: "find_tunnel name ts = find (\<lambda>t. tc_Name t = name) ts"
  by (induction ts) auto

section \<open>Properties\<close>

text \<open>
  C33.  What \<^verbatim>\<open>Load\<close> returns is what viper decoded, with the same authentication settings and,
  tunnel by tunnel, the same host, remote and local address; the name of the tunnel at position
  \<open>i\<close> is its own or derived name, with the suffix \<open>-k\<close> exactly when it is the \<open>k\<close>-th tunnel
  of that name.
\<close>

theorem Load_names:
  assumes "Load v stat_ok getenv = Inr cfg"
  shows "\<exists>v' cfg0. loaded_viper v stat_ok getenv = Inr v' \<and> Unmarshal v v' = Inr cfg0 \<and>
     cfg_Auth cfg = cfg_Auth cfg0 \<and>
     TunnelNames cfg = map (suffixed_name (map (tc_Name \<circ> derive_name_of) (cfg_Tunnels cfg0)))
                         [0..<length (cfg_Tunnels cfg0)] \<and>
     map tc_Host (cfg_Tunnels cfg) = map tc_Host (cfg_Tunnels cfg0) \<and>
     map tc_Remote (cfg_Tunnels cfg) = map tc_Remote (cfg_Tunnels cfg0) \<and>
     map tc_Local (cfg_Tunnels cfg) = map tc_Local (cfg_Tunnels cfg0)"
proof -
  from assms obtain v' cfg0 where ld: "loaded_viper v stat_ok getenv = Inr v'" and un: "Unmarshal v v' = Inr cfg0"
    and cfg: "cfg = cfg0\<lparr>cfg_Tunnels := finish_tunnels (cfg_Tunnels cfg0)\<rparr>"
    by (rule Load_InrE)
  show ?thesis
  proof (intro exI conjI)
    show "loaded_viper v stat_ok getenv = Inr v'" by (rule ld)
    show "Unmarshal v v' = Inr cfg0" by (rule un)
    show "TunnelNames cfg = map (suffixed_name (map (tc_Name \<circ> derive_name_of) (cfg_Tunnels cfg0)))
            [0..<length (cfg_Tunnels cfg0)]"
      by (simp add: cfg TunnelNames_def finish_tunnels_names)
  qed (simp_all add: cfg finish_tunnels_def suffix_duplicates_other_fields comp_def)
qed

text \<open>
  A viper whose instances are the path of the configuration file: without a file it decodes two
  tunnels, from \<^verbatim>\<open>/h/gurren.toml\<close> three.
\<close>

definition tunnel_named :: "string \<Rightarrow> string \<Rightarrow> TunnelConfig" where
  "tunnel_named n host = \<lparr>tc_Name = n, tc_Host = host, tc_Remote = ''db:1'', tc_Local = '':1''\<rparr>"

definition sample_decode :: "string \<Rightarrow> Config" where
  "sample_decode f = \<lparr>cfg_Auth = \<lparr>ac_Method = ''auto'', ac_KeyPath = []\<rparr>,
     cfg_Tunnels = (if f = [] then [tunnel_named [] ''me@bastion'', tunnel_named ''bastion'' ''b2'']
       else [tunnel_named ''a'' ''h1'', tunnel_named ''a'' ''h2'', tunnel_named ''a-2'' ''h3''])\<rparr>"

definition sample_viper :: "string viper" where
  "sample_viper = \<lparr>New = [], SetDefault = (\<lambda>_ _ v. v), SetConfigType = (\<lambda>_ v. v),
     SetEnvPrefix = (\<lambda>_ v. v), AutomaticEnv = id, SetConfigFile = (\<lambda>f v. f), ReadInConfig = Inr,
     Unmarshal = (\<lambda>f. Inr (sample_decode f))\<rparr>"

definition sample_home :: getenv where
  "sample_home x = (if x = ''HOME'' then ''/h'' else [])"

lemma sample_decodes: "Unmarshal sample_viper f = Inr (sample_decode f)"
  by (simp add: sample_viper_def)

lemma sample_loaded:
  "loaded_viper sample_viper (\<lambda>_. False) sample_home = Inr []"
  "loaded_viper sample_viper (\<lambda>p. p = ''/h/gurren.toml'') sample_home = Inr ''/h/gurren.toml''"
  by (simp_all add: loaded_viper_def sample_viper_def sample_home_def UserHomeDir_def config_paths_def
      viper_setup_def filepath_Join_def Clean_def clean_elements_def clean_element_def)

lemma sample_load:
  "Load sample_viper (\<lambda>_. False) sample_home =
   Inr \<lparr>cfg_Auth = \<lparr>ac_Method = ''auto'', ac_KeyPath = []\<rparr>,
        cfg_Tunnels = [tunnel_named ''bastion'' ''me@bastion'', tunnel_named ''bastion-2'' ''b2'']\<rparr>"
  "\<exists>cfg. Load sample_viper (\<lambda>p. p = ''/h/gurren.toml'') sample_home = Inr cfg \<and>
     TunnelNames cfg = [''a'', ''a-2'', ''a-2'']"
  by (simp_all add: Load_def sample_loaded unmarshal_config_def sample_decodes)
    (simp_all add: sample_decode_def tunnel_named_def TunnelNames_def finish_tunnels_def
      derive_name_of_def deriveName_def dec.simps digit_def)

theorem Load_names_witness:
  "\<exists>v' cfg0. Unmarshal sample_viper v' = Inr cfg0 \<and>
     [''bastion'', ''bastion-2''] =
       map (suffixed_name (map (tc_Name \<circ> derive_name_of) (cfg_Tunnels cfg0)))
         [0..<length (cfg_Tunnels cfg0)]"
proof -
  have names: "TunnelNames \<lparr>cfg_Auth = a, cfg_Tunnels = [tunnel_named m h, tunnel_named n k]\<rparr> = [m, n]"
    for a m n h k by (simp add: TunnelNames_def tunnel_named_def)
  from Load_names[OF sample_load(1)] show ?thesis unfolding names by (elim exE conjE) (intro exI conjI)
qed

text \<open>
  C32.  When the names after \<^verbatim>\<open>Load\<close> are distinct.  If the viper instance that \<^verbatim>\<open>Load\<close> has set up and
  read decodes to a configuration, \<^verbatim>\<open>Load\<close> succeeds, and the tunnels it returns have different names
  exactly when no configured (or derived) name is one that the second pass makes from another: the
  suffixes \<open>-2\<close> to \<open>-c\<close> of a name that occurs \<open>c\<close> times.
\<close>

theorem Load_distinct:
  assumes "loaded_viper v stat_ok getenv = Inr v'" and "Unmarshal v v' = Inr cfg0"
  shows "\<exists>cfg. Load v stat_ok getenv = Inr cfg \<and>
    (distinct (TunnelNames cfg) \<longleftrightarrow> suffix_free (map (tc_Name \<circ> derive_name_of) (cfg_Tunnels cfg0)))"
  using assms by (simp add: Load_def unmarshal_config_def TunnelNames_def finish_tunnels_distinct)

theorem Load_distinct_witness:
  "suffix_free [''bastion'', ''bastion''] \<and> \<not> suffix_free [''a'', ''a'', ''a-2'']"
proof -
  have "suffix_free [''bastion'', ''bastion'']"
    using Load_distinct[OF sample_loaded(1) sample_decodes] sample_load(1)
    by (auto simp: sample_decode_def tunnel_named_def TunnelNames_def derive_name_of_def deriveName_def)
  moreover have "\<not> suffix_free [''a'', ''a'', ''a-2'']"
    using Load_distinct[OF sample_loaded(2) sample_decodes] sample_load(2)
    by (auto simp: sample_decode_def tunnel_named_def derive_name_of_def)
  ultimately show ?thesis ..
qed

text \<open>
  The second pass does not look at the names it produces: tunnels named \<open>a\<close>, \<open>a\<close> and
  \<open>a-2\<close> come out as \<open>a\<close>, \<open>a-2\<close> and \<open>a-2\<close>, whatever their other fields are.
\<close>

lemma suffix_collision:
  "map tc_Name (finish_tunnels
     [\<lparr>tc_Name = ''a'', tc_Host = h1, tc_Remote = r1, tc_Local = l1\<rparr>,
      \<lparr>tc_Name = ''a'', tc_Host = h2, tc_Remote = r2, tc_Local = l2\<rparr>,
      \<lparr>tc_Name = ''a-2'', tc_Host = h3, tc_Remote = r3, tc_Local = l3\<rparr>]) = [''a'', ''a-2'', ''a-2'']"
  by (simp add: finish_tunnels_def derive_name_of_def dec.simps digit_def)

text \<open>
  \<^verbatim>\<open>Load\<close> looks at exactly two places, both below the home directory: two file systems that
  agree on \<^verbatim>\<open>~/.config/gurren/config.toml\<close> and \<^verbatim>\<open>~/gurren.toml\<close> give the same result, and when
  the first of them exists the second is not consulted.
\<close>

lemma Load_places:
  assumes "stat_ok (filepath_Join [getenv ''HOME'', ''.config'', ''gurren'', ''config.toml'']) =
           stat_ok' (filepath_Join [getenv ''HOME'', ''.config'', ''gurren'', ''config.toml''])"
    and "stat_ok (filepath_Join [getenv ''HOME'', ''.config'', ''gurren'', ''config.toml'']) \<or>
         stat_ok (filepath_Join [getenv ''HOME'', ''gurren.toml'']) =
         stat_ok' (filepath_Join [getenv ''HOME'', ''gurren.toml''])"
  shows "Load v stat_ok getenv = Load v stat_ok' getenv"
proof (cases "UserHomeDir getenv")
  case (Inl e)
  then show ?thesis by (simp add: Load_def loaded_viper_def)
next
  case (Inr home)
  then have "home = getenv ''HOME''" by (simp add: UserHomeDir_def split: if_splits)
  with assms have "find_config_file stat_ok (config_paths home) =
      find_config_file stat_ok' (config_paths home)" by (auto simp: config_paths_def)
  with Inr show ?thesis by (simp add: Load_def loaded_viper_def)
qed

lemma Load_places_example:
  "Load sample_viper (\<lambda>p. p = ''./gurren.toml'') sample_home = Load sample_viper (\<lambda>_. False) sample_home"
  by (rule Load_places)
    (simp_all add: sample_home_def filepath_Join_def Clean_def clean_elements_def clean_element_def)

text \<open>
  \<^verbatim>\<open>GetTunnelByName\<close> returns the first tunnel of that name, and nil exactly for the names
  that \<^verbatim>\<open>TunnelNames\<close> does not list.
\<close>

lemma GetTunnelByName_spec:
  "(GetTunnelByName c name = Some t \<longleftrightarrow>
      (\<exists>us vs. cfg_Tunnels c = us @ t # vs \<and> tc_Name t = name \<and> name \<notin> tc_Name ` set us)) \<and>
   (GetTunnelByName c name = None \<longleftrightarrow> name \<notin> set (TunnelNames c))"
proof
  show "GetTunnelByName c name = None \<longleftrightarrow> name \<notin> set (TunnelNames c)"
    by (auto simp: GetTunnelByName_def TunnelNames_def find_tunnel_eq_find find_None_iff)
  show "GetTunnelByName c name = Some t \<longleftrightarrow>
      (\<exists>us vs. cfg_Tunnels c = us @ t # vs \<and> tc_Name t = name \<and> name \<notin> tc_Name ` set us)"
    unfolding GetTunnelByName_def
  proof (induction "cfg_Tunnels c" arbitrary: c)
    case Nil
    then show ?case by simp
  next
    case (Cons u ts)
    from Cons(1)[of "c\<lparr>cfg_Tunnels := ts\<rparr>"] Cons(2)[symmetric] show ?case
      by (auto simp: Cons_eq_append_conv) (metis image_insert insert_iff list.simps(15))
  qed
qed

end
