(* ===== verification/SSH_Hosts.thy ===== *)
theory SSH_Hosts
  imports Go_Text
begin

text \<open>
  How a host string becomes a connection target: package \<^verbatim>\<open>internal/sshconfig\<close> (\<^verbatim>\<open>Resolve\<close>,
  \<^verbatim>\<open>IsFromConfig\<close>, \<^verbatim>\<open>Address\<close>, \<^verbatim>\<open>expandPath\<close>), \<^verbatim>\<open>parseHost\<close> of the daemon's handlers and
  \<^verbatim>\<open>parseHost\<close> of the TUI's details panel.  The library that reads \<^verbatim>\<open>~/.ssh/config\<close> is an argument:
  what \<^verbatim>\<open>GetStrict\<close> and \<^verbatim>\<open>GetAll\<close> return for an alias and a keyword.
\<close>

section \<open>Definitions\<close>

record ResolvedHost =
  rh_Hostname :: string
  rh_User :: string
  rh_Port :: string
  rh_IdentityFiles :: "string list"

text \<open>The callers discard the error of \<^verbatim>\<open>GetStrict\<close>, so only its value is modelled.\<close>

record ssh_config =
  GetStrict :: "string \<Rightarrow> string \<Rightarrow> string"
  GetAll :: "string \<Rightarrow> string \<Rightarrow> string list"

definition ssh_expandPath :: "getenv \<Rightarrow> string \<Rightarrow> string" where
  "ssh_expandPath getenv path =
     (if HasPrefix path ''~/'' then
        (case UserHomeDir getenv of
           Inl e \<Rightarrow> path
         | Inr home \<Rightarrow> filepath_Join [home, drop 2 path])
      else path)"

definition Resolve :: "ssh_config \<Rightarrow> getenv \<Rightarrow> string \<Rightarrow> ResolvedHost" where
  "Resolve lib getenv alias =
     (let hostname = GetStrict lib alias ''HostName'';
          hostname = (if hostname = [] then alias else hostname);
          user = GetStrict lib alias ''User'';
          port = GetStrict lib alias ''Port'';
          port = (if port = [] then ''22'' else port);
          identityFiles = GetAll lib alias ''IdentityFile''
      in \<lparr>rh_Hostname = hostname, rh_User = user, rh_Port = port,
          rh_IdentityFiles = map (ssh_expandPath getenv) identityFiles\<rparr>)"

definition IsFromConfig :: "ResolvedHost \<Rightarrow> string \<Rightarrow> bool" where
  "IsFromConfig r alias =
     (if rh_Hostname r \<noteq> alias then True
      else if length (rh_IdentityFiles r) > 0 \<or> rh_User r \<noteq> [] then True
      else if rh_Port r \<noteq> ''22'' then True
      else False)"

definition Address :: "ResolvedHost \<Rightarrow> string" where
  "Address r = rh_Hostname r @ '':'' @ rh_Port r"

text \<open>\<^verbatim>\<open>parseHost\<close> of \<^verbatim>\<open>daemon/handlers.go\<close>: address, user, identity files.\<close>

definition parseHost :: "ssh_config \<Rightarrow> getenv \<Rightarrow> string \<Rightarrow> string \<times> string \<times> string list" where
  "parseHost lib getenv host =
     (if Contains host ''@'' \<or> Contains host '':'' then
        (let (user, addr) = (case Cut host ''@'' of
                               (u, a, ok) \<Rightarrow> if ok then (u, a) else ([], host));
             addr = (if \<not> Contains addr '':'' then addr @ '':22'' else addr)
         in (addr, user, []))
      else
        (let resolved = Resolve lib getenv host
         in (Address resolved, rh_User resolved, rh_IdentityFiles resolved)))"

text \<open>\<^verbatim>\<open>parseHost\<close> of \<^verbatim>\<open>tui/details.go\<close>: user, hostname, port.\<close>

definition tui_parseHost :: "string \<Rightarrow> string \<times> string \<times> string" where
  "tui_parseHost host =
     (let port = ''22'';
          (user, host) = (let idx = Index host ''@''
                          in if idx \<noteq> -1 then (take (nat idx) host, drop (nat (idx + 1)) host)
                             else ([], host));
          (hostname, port) = (let idx = LastIndex host '':''
                              in if idx \<noteq> -1 then (take (nat idx) host, drop (nat (idx + 1)) host)
                                 else (host, port))
      in (user, hostname, port))"

section \<open>Lemmas\<close>

lemma drop_Suc_append [simp]: "drop (Suc (length u)) (u @ c # v) = v"
  by simp

lemma parseHost_alias:
  "CHR ''@'' \<notin> set host \<Longrightarrow> CHR '':'' \<notin> set host \<Longrightarrow>
   parseHost lib getenv host =
     (Address (Resolve lib getenv host), rh_User (Resolve lib getenv host),
      rh_IdentityFiles (Resolve lib getenv host))"
  by (simp add: parseHost_def Let_def)

lemma parseHost_user:
  "CHR ''@'' \<notin> set u \<Longrightarrow>
   parseHost lib getenv (u @ CHR ''@'' # h) = (if CHR '':'' \<in> set h then h else h @ '':22'', u, [])"
  by (simp add: parseHost_def)

lemma parseHost_colon:
  "CHR ''@'' \<notin> set host \<Longrightarrow> CHR '':'' \<in> set host \<Longrightarrow> parseHost lib getenv host = (host, [], [])"
  by (simp add: parseHost_def)

lemma colon_in_Address: "CHR '':'' \<in> set (Address r)"
  by (simp add: Address_def)

text \<open>Splitting at the last colon and joining again gives the address back.\<close>

lemma split_last_colon:
  "(let idx = LastIndex h '':''
    in if idx \<noteq> -1 then (take (nat idx) h, drop (nat (idx + 1)) h) else (h, ''22'')) =
   (if CHR '':'' \<in> set h
    then (let i = nat (LastIndex h '':'') in (take i h, drop (Suc i) h)) else (h, ''22''))"
proof (cases "CHR '':'' \<in> set h")
  case True
  then obtain u v where "h = u @ CHR '':'' # v" "CHR '':'' \<notin> set v" by (metis split_list_last)
  then show ?thesis by (simp add: nat_add_distrib)
next
  case False
  then show ?thesis by simp
qed

lemma join_last_colon:
  assumes "CHR '':'' \<in> set h"
  shows "take (nat (LastIndex h '':'')) h @ '':'' @ drop (Suc (nat (LastIndex h '':''))) h = h"
proof -
  from assms obtain u v where "h = u @ CHR '':'' # v" "CHR '':'' \<notin> set v" by (metis split_list_last)
  then show ?thesis by simp
qed

lemma tui_parseHost_no_user:
  assumes "CHR ''@'' \<notin> set h"
  shows "tui_parseHost h =
    (if CHR '':'' \<in> set h
     then ([], take (nat (LastIndex h '':'')) h, drop (Suc (nat (LastIndex h '':''))) h)
     else ([], h, ''22''))"
  using assms split_last_colon[of h] by (simp add: tui_parseHost_def Let_def)

lemma tui_parseHost_at:
  assumes "CHR ''@'' \<notin> set u"
  shows "tui_parseHost (u @ CHR ''@'' # h) =
    (if CHR '':'' \<in> set h
     then (u, take (nat (LastIndex h '':'')) h, drop (Suc (nat (LastIndex h '':''))) h)
     else (u, h, ''22''))"
  using assms split_last_colon[of h] by (simp add: tui_parseHost_def Let_def nat_add_distrib)

section \<open>Properties\<close>

text \<open>
  Whatever the SSH configuration holds, the address the daemon dials carries a port: the
  one given, the one configured for the alias, or 22.
\<close>

lemma parseHost_has_port: "CHR '':'' \<in> set (fst (parseHost lib getenv host))"
  by (simp add: parseHost_def colon_in_Address Let_def split: prod.splits)



text \<open>
  An alias that the SSH configuration knows nothing about resolves to itself on port 22
  without user and identity files, and \<^verbatim>\<open>IsFromConfig\<close> recognises exactly this case.
\<close>

lemma Resolve_unknown:
  assumes "CHR ''@'' \<notin> set alias" and "CHR '':'' \<notin> set alias"
  shows "IsFromConfig (Resolve lib getenv alias) alias = False \<longleftrightarrow>
     parseHost lib getenv alias = (alias @ '':22'', [], []) \<and>
     Resolve lib getenv alias =
       \<lparr>rh_Hostname = alias, rh_User = [], rh_Port = ''22'', rh_IdentityFiles = []\<rparr>"
  using assms by (auto simp: parseHost_alias IsFromConfig_def Resolve_def Let_def Address_def)

lemma Resolve_unknown_example:
  "IsFromConfig (Resolve \<lparr>GetStrict = \<lambda>_ _. [], GetAll = \<lambda>_ _. []\<rparr> (\<lambda>_. []) ''db'') ''db'' = False"
  using Resolve_unknown[of "''db''" "\<lparr>GetStrict = \<lambda>_ _. [], GetAll = \<lambda>_ _. []\<rparr>" "\<lambda>_. []"]
  by (simp add: parseHost_def Resolve_def Address_def)

end
