(* ===== verification/Auth.thy ===== *)
theory Auth
  imports SSH_Hosts
begin

text \<open>
  Package \<^verbatim>\<open>internal/auth\<close>: the three authenticators behind the Go interface
  \<^verbatim>\<open>Authenticator\<close>, and the selection of SSH authentication methods.  The agent socket, the file
  system and the key parser of \<^verbatim>\<open>golang.org/x/crypto/ssh\<close> are fields of an environment record;
  the terminal is a state that prompts write to and passphrases are read from.
\<close>

section \<open>Definitions\<close>

text \<open>\<^verbatim>\<open>ssh.ParsePrivateKey\<close> fails with a \<^verbatim>\<open>PassphraseMissingError\<close> or with some other error.\<close>

datatype key_error = PassphraseMissing | KeyError string

record auth_env =
  ae_getenv :: getenv
  ae_isPrint :: "nat \<Rightarrow> bool"
  ae_dialUnix :: "string \<Rightarrow> (unit, string) result"
  ae_stat :: "string \<Rightarrow> bool"
  ae_ReadFile :: "string \<Rightarrow> (string, string) result"
  ae_ParsePrivateKey :: "string \<Rightarrow> (string, key_error) result"
  ae_ParsePrivateKeyWithPassphrase :: "string \<Rightarrow> string \<Rightarrow> (string, string) result"

text \<open>The terminal: what the user will answer to each \<^verbatim>\<open>term.ReadPassword\<close>, and what was printed.\<close>

record tty =
  tty_input :: "(string, string) result list"
  tty_output :: "string list"

datatype AuthMethod =
    PublicKeysCallback
  | PublicKeys string
  | Password string
  | PasswordCallback

datatype Authenticator =
    AgentAuthenticator
  | PublicKeyAuthenticator string
  | PasswordAuthenticator string

definition tty_print :: "string \<Rightarrow> tty \<Rightarrow> tty" where
  "tty_print s t = t\<lparr>tty_output := tty_output t @ [s]\<rparr>"

definition ReadPassword :: "tty \<Rightarrow> (string, string) result \<times> tty" where
  "ReadPassword t =
     (case tty_input t of
        [] \<Rightarrow> (Inl ''EOF'', t)
      | r # rs \<Rightarrow> (r, t\<lparr>tty_input := rs\<rparr>))"

definition auth_expandPath :: "getenv \<Rightarrow> string \<Rightarrow> string" where
  "auth_expandPath getenv path =
     (if length path > 0 \<and> path ! 0 = CHR ''~'' then
        (case UserHomeDir getenv of
           Inl e \<Rightarrow> path
         | Inr home \<Rightarrow> filepath_Join [home, drop 1 path])
      else path)"

definition defaultKeyPaths :: "string list" where
  "defaultKeyPaths = [''~/.ssh/id_ed25519'', ''~/.ssh/id_ecdsa'', ''~/.ssh/id_rsa'']"

fun Name :: "Authenticator \<Rightarrow> string" where
  "Name AgentAuthenticator = ''agent''"
| "Name (PublicKeyAuthenticator keyPath) = ''publickey''"
| "Name (PasswordAuthenticator pw) = ''password''"

fun Priority :: "Authenticator \<Rightarrow> nat" where
  "Priority AgentAuthenticator = 1"
| "Priority (PublicKeyAuthenticator keyPath) = 2"
| "Priority (PasswordAuthenticator pw) = 3"

definition getSocketConn :: "auth_env \<Rightarrow> (unit, string) result" where
  "getSocketConn env = ae_dialUnix env (ae_getenv env ''SSH_AUTH_SOCK'')"

definition expanded_exists :: "auth_env \<Rightarrow> string \<Rightarrow> bool" where
  "expanded_exists env kp = ae_stat env (auth_expandPath (ae_getenv env) kp)"

definition agent_IsAvailable :: "auth_env \<Rightarrow> bool" where
  [simp]: "agent_IsAvailable env = (case getSocketConn env of Inl e \<Rightarrow> False | Inr conn \<Rightarrow> True)"

definition publickey_IsAvailable :: "auth_env \<Rightarrow> string \<Rightarrow> bool" where
  [simp]: "publickey_IsAvailable env keyPath =
     (if keyPath \<noteq> [] then expanded_exists env keyPath
      else list_ex (expanded_exists env) defaultKeyPaths)"

fun IsAvailable :: "auth_env \<Rightarrow> Authenticator \<Rightarrow> bool" where
  "IsAvailable env AgentAuthenticator = agent_IsAvailable env"
| "IsAvailable env (PublicKeyAuthenticator keyPath) = publickey_IsAvailable env keyPath"
| "IsAvailable env (PasswordAuthenticator pw) = True"

definition parseEncryptedKey :: "auth_env \<Rightarrow> string \<Rightarrow> string \<Rightarrow> tty \<Rightarrow> (string, string) result \<times> tty" where
  "parseEncryptedKey env key keyPath t =
     (let t = tty_print (''Enter passphrase for key '' @ [CHR 0x27] @ keyPath @ [CHR 0x27] @ '': '') t;
          (answer, t) = ReadPassword t;
          t = tty_print [CHR 0x0A] t
      in (case answer of
            Inl e \<Rightarrow> (Inl (''failed to read passphrase: '' @ e), t)
          | Inr passphrase \<Rightarrow>
              (case ae_ParsePrivateKeyWithPassphrase env key passphrase of
                 Inl e \<Rightarrow> (Inl (''unable to parse encrypted private key: '' @ e), t)
               | Inr signer \<Rightarrow> (Inr signer, t))))"

text \<open>The key file \<^verbatim>\<open>GetAuthMethod\<close> reads: the given one, or the first default one that exists.\<close>

definition select_key :: "auth_env \<Rightarrow> string \<Rightarrow> string" where
  "select_key env keyPath =
     (if keyPath = [] then
        (case find (expanded_exists env) defaultKeyPaths of
           None \<Rightarrow> []
         | Some kp \<Rightarrow> auth_expandPath (ae_getenv env) kp)
      else auth_expandPath (ae_getenv env) keyPath)"

definition publickey_GetAuthMethod :: "auth_env \<Rightarrow> string \<Rightarrow> tty \<Rightarrow> (AuthMethod, string) result \<times> tty" where
  "publickey_GetAuthMethod env configured t =
     (let keyPath = select_key env configured in
      if keyPath = [] then (Inl ''no private key found'', t)
      else
        (case ae_ReadFile env keyPath of
           Inl e \<Rightarrow> (Inl (''unable to read private key '' @ keyPath @ '': '' @ e), t)
         | Inr key \<Rightarrow>
             (case ae_ParsePrivateKey env key of
                Inr signer \<Rightarrow> (Inr (PublicKeys signer), t)
              | Inl PassphraseMissing \<Rightarrow>
                  (case parseEncryptedKey env key keyPath t of
                     (Inl e, t') \<Rightarrow> (Inl e, t')
                   | (Inr signer, t') \<Rightarrow> (Inr (PublicKeys signer), t'))
              | Inl (KeyError e) \<Rightarrow> (Inl (''unable to parse private key: '' @ e), t))))"

definition agent_GetAuthMethod :: "auth_env \<Rightarrow> tty \<Rightarrow> (AuthMethod, string) result \<times> tty" where
  [simp]: "agent_GetAuthMethod env t =
     (case getSocketConn env of Inl e \<Rightarrow> (Inl e, t) | Inr conn \<Rightarrow> (Inr PublicKeysCallback, t))"

text \<open>Without a configured password the method asks for one whenever the SSH client calls it back.\<close>

definition password_GetAuthMethod :: "string \<Rightarrow> tty \<Rightarrow> (AuthMethod, string) result \<times> tty" where
  [simp]: "password_GetAuthMethod pw t = (if pw \<noteq> [] then (Inr (Password pw), t) else (Inr PasswordCallback, t))"

definition password_callback :: "tty \<Rightarrow> (string, string) result \<times> tty" where
  "password_callback t =
     (let t = tty_print ''Enter SSH password: '' t;
          (answer, t) = ReadPassword t;
          t = tty_print [CHR 0x0A] t
      in (case answer of
            Inl e \<Rightarrow> (Inl (''failed to read password: '' @ e), t)
          | Inr password \<Rightarrow> (Inr password, t)))"

fun GetAuthMethod :: "auth_env \<Rightarrow> Authenticator \<Rightarrow> tty \<Rightarrow> (AuthMethod, string) result \<times> tty" where
  "GetAuthMethod env AgentAuthenticator t = agent_GetAuthMethod env t"
| "GetAuthMethod env (PublicKeyAuthenticator keyPath) t = publickey_GetAuthMethod env keyPath t"
| "GetAuthMethod env (PasswordAuthenticator pw) t = password_GetAuthMethod pw t"

definition GetAllAuthenticators :: "Authenticator list" where
  "GetAllAuthenticators = [AgentAuthenticator, PublicKeyAuthenticator [], PasswordAuthenticator []]"

definition GetAvailableAuthenticators :: "auth_env \<Rightarrow> Authenticator list" where
  "GetAvailableAuthenticators env = filter (IsAvailable env) GetAllAuthenticators"

text \<open>The loop that collects methods and skips the authenticators that fail.\<close>

fun collect_methods :: "auth_env \<Rightarrow> Authenticator list \<Rightarrow> tty \<Rightarrow> AuthMethod list \<times> tty" where
  "collect_methods env [] t = ([], t)"
| "collect_methods env (a # as) t =
     (case GetAuthMethod env a t of
        (Inl e, t') \<Rightarrow> collect_methods env as t'
      | (Inr m, t') \<Rightarrow> (case collect_methods env as t' of (ms, t'') \<Rightarrow> (m # ms, t'')))"

definition GetAvailableAuthMethods :: "auth_env \<Rightarrow> tty \<Rightarrow> (AuthMethod list, string) result \<times> tty" where
  "GetAvailableAuthMethods env t =
     (let authenticators = GetAvailableAuthenticators env in
      if length authenticators = 0 then (Inl ''no authentication methods available'', t)
      else
        (let authenticators = sort_key Priority authenticators;
             (methods, t) = collect_methods env authenticators t
         in if length methods = 0 then (Inl ''no authentication methods could be initialized'', t)
            else (Inr methods, t)))"

fun find_method :: "auth_env \<Rightarrow> string \<Rightarrow> Authenticator list \<Rightarrow> tty \<Rightarrow> (AuthMethod list, string) result \<times> tty" where
  "find_method env method [] t =
     (Inl (''unknown authentication method: '' @ Quote (ae_isPrint env) method), t)"
| "find_method env method (a # as) t =
     (if Name a = method then
        (if \<not> IsAvailable env a
         then (Inl (''authentication method '' @ Quote (ae_isPrint env) method @ '' is not available''), t)
         else (case GetAuthMethod env a t of
                 (Inl e, t') \<Rightarrow>
                   (Inl (''failed to initialize '' @ Quote (ae_isPrint env) method @ '' auth: '' @ e), t')
               | (Inr m, t') \<Rightarrow> (Inr [m], t')))
      else find_method env method as t)"

definition getAuthMethodByName :: "auth_env \<Rightarrow> string \<Rightarrow> tty \<Rightarrow> (AuthMethod list, string) result \<times> tty" where
  "getAuthMethodByName env method t = find_method env method GetAllAuthenticators t"

definition GetAuthMethodsByName :: "auth_env \<Rightarrow> string \<Rightarrow> tty \<Rightarrow> (AuthMethod list, string) result \<times> tty" where
  "GetAuthMethodsByName env method t =
     (case GetAvailableAuthMethods env t of
        (Inl e, t') \<Rightarrow> (Inl e, t')
      | (Inr methods, t') \<Rightarrow>
          if method = [] \<or> method = ''auto'' then (Inr methods, t')
          else getAuthMethodByName env method t')"

text \<open>An authenticator that is asked only when it is available, and whose failure is ignored.\<close>

definition try_method :: "auth_env \<Rightarrow> Authenticator \<Rightarrow> tty \<Rightarrow> AuthMethod list \<times> tty" where
  "try_method env a t =
     (if IsAvailable env a then
        (case GetAuthMethod env a t of (Inl e, t') \<Rightarrow> ([], t') | (Inr m, t') \<Rightarrow> ([m], t'))
      else ([], t))"

fun try_identities :: "auth_env \<Rightarrow> string list \<Rightarrow> tty \<Rightarrow> AuthMethod list \<times> tty" where
  "try_identities env [] t = ([], t)"
| "try_identities env (keyPath # ks) t =
     (case try_method env (PublicKeyAuthenticator keyPath) t of
        (ms, t') \<Rightarrow> (case try_identities env ks t' of (ms', t'') \<Rightarrow> (ms @ ms', t'')))"

definition GetAuthMethodsWithIdentity ::
  "auth_env \<Rightarrow> string \<Rightarrow> string list \<Rightarrow> tty \<Rightarrow> (AuthMethod list, string) result \<times> tty" where
  "GetAuthMethodsWithIdentity env method identityFiles t =
     (if length identityFiles = 0 then GetAuthMethodsByName env method t
      else
        (case try_method env AgentAuthenticator t of
           (agentMethods, t1) \<Rightarrow>
             (case try_identities env identityFiles t1 of
                (keyMethods, t2) \<Rightarrow>
                  (let methods = agentMethods @ keyMethods in
                   if length methods > 0 then (Inr methods, t2)
                   else GetAuthMethodsByName env method t2))))"

section \<open>The interface Authenticator\<close>

text \<open>
  What the selection code relies on: a fixed list of authenticators with different names, in
  strictly increasing priority, the last of which is always available and always succeeds.
\<close>

locale authenticator_family =
  fixes name_of :: "'a \<Rightarrow> string"
    and prio :: "'a \<Rightarrow> nat"
    and avail :: "'a \<Rightarrow> bool"
    and family :: "'a list"
    and fallback :: 'a
  assumes distinct_names: "distinct (map name_of family)"
    and increasing: "sorted_wrt (<) (map prio family)"
    and ends_with: "\<exists>as. family = as @ [fallback]"
    and fallback_available: "avail fallback"
begin

lemma available_ends: "\<exists>as. filter avail family = as @ [fallback]"
  using ends_with fallback_available by auto

lemma available_increasing: "sorted_wrt (<) (map prio (filter avail family))"
  using increasing by (simp add: sorted_wrt_map sorted_wrt_filter)

lemma available_sorted: "sorted (map prio (filter avail family))"
  by (rule strict_sorted_imp_sorted[OF available_increasing])

lemma sort_available: "sort_key prio (filter avail family) = filter avail family"
  by (rule sort_key_id_if_sorted[OF available_sorted])

text \<open>Any arrangement in priority order is this one, so an unstable sort gives it too.\<close>

lemma any_sort_available:
  assumes perm: "mset ys = mset (filter avail family)" and srt: "sorted (map prio ys)"
  shows "ys = filter avail family"
proof -
  have "inj_on prio (set (filter avail family))"
    using available_increasing strict_sorted_iff distinct_map by blast
  moreover have "set ys = set (filter avail family)" using perm by (metis set_mset_mset)
  moreover have "map prio ys = map prio (filter avail family)"
  proof -
    have "mset (map prio ys) = mset (map prio (filter avail family))" using perm by simp
    then show ?thesis using srt available_sorted by (metis properties_for_sort)
  qed
  ultimately show ?thesis by (metis inj_on_map_eq_map Un_absorb)
qed

end

interpretation family: authenticator_family Name Priority "IsAvailable env" GetAllAuthenticators
  "PasswordAuthenticator []"
  by unfold_locales (auto simp: GetAllAuthenticators_def)

section \<open>Lemmas\<close>

lemma collect_methods_eq:
  "collect_methods env (filter (IsAvailable env) (a # as)) t =
   (case try_method env a t of
      (ms, t') \<Rightarrow> (case collect_methods env (filter (IsAvailable env) as) t' of
                     (ms', t'') \<Rightarrow> (ms @ ms', t'')))"
  by (auto simp: try_method_def split: prod.splits sum.splits)

lemma try_method_agent:
  "try_method env AgentAuthenticator t =
   (case getSocketConn env of Inl e \<Rightarrow> ([], t) | Inr conn \<Rightarrow> ([PublicKeysCallback], t))"
  by (simp add: try_method_def split: sum.splits)

lemma try_method_password [simp]:
  "try_method env (PasswordAuthenticator []) t = ([PasswordCallback], t)"
  by (simp add: try_method_def)

lemma collect_available:
  "collect_methods env (GetAvailableAuthenticators env) t =
   (case try_method env (PublicKeyAuthenticator []) t of
      (keyMethods, t') \<Rightarrow>
        (fst (try_method env AgentAuthenticator t) @ keyMethods @ [PasswordCallback], t'))"
proof -
  have last: "collect_methods env (filter (IsAvailable env) [PasswordAuthenticator []]) t' =
      ([PasswordCallback], t')" for t'
    by simp
  show ?thesis
    unfolding GetAvailableAuthenticators_def GetAllAuthenticators_def collect_methods_eq last
    by (simp add: try_method_agent split: sum.splits prod.splits)
qed

lemma sort_available_authenticators:
  "sort_key Priority (GetAvailableAuthenticators env) = GetAvailableAuthenticators env"
  by (simp add: GetAvailableAuthenticators_def family.sort_available)

lemma GetAvailableAuthenticators_nonempty [simp]: "GetAvailableAuthenticators env \<noteq> []"
  using family.available_ends[of env] by (auto simp: GetAvailableAuthenticators_def)

lemma GetAvailableAuthMethods_eq:
  "GetAvailableAuthMethods env t =
   (case try_method env (PublicKeyAuthenticator []) t of
      (keyMethods, t') \<Rightarrow>
        (Inr (fst (try_method env AgentAuthenticator t) @ keyMethods @ [PasswordCallback]), t'))"
  by (simp add: GetAvailableAuthMethods_def sort_available_authenticators collect_available Let_def
      split: prod.splits)

lemma getAuthMethodByName_nonempty:
  "getAuthMethodByName env method t = (Inr ms, t') \<Longrightarrow> ms \<noteq> []"
  unfolding getAuthMethodByName_def
  by (induction env "method" GetAllAuthenticators t rule: find_method.induct)
    (auto simp: GetAllAuthenticators_def split: if_splits prod.splits sum.splits)

lemma GetAuthMethodsByName_nonempty:
  "GetAuthMethodsByName env method t = (Inr ms, t') \<Longrightarrow> ms \<noteq> []"
  by (auto simp: GetAuthMethodsByName_def GetAvailableAuthMethods_eq
      split: prod.splits if_splits dest: getAuthMethodByName_nonempty)

lemma select_key_available:
  "select_key env [] \<noteq> [] \<Longrightarrow> IsAvailable env (PublicKeyAuthenticator [])"
  by (auto simp: select_key_def find_Some_iff list_ex_iff split: option.splits)

definition passphrase_prompt :: "string \<Rightarrow> string list" where
  "passphrase_prompt keyPath =
     [''Enter passphrase for key '' @ [CHR 0x27] @ keyPath @ [CHR 0x27] @ '': '', [CHR 0x0A]]"

lemma parseEncryptedKey_prompts:
  "tty_output (snd (parseEncryptedKey env key keyPath t)) = tty_output t @ passphrase_prompt keyPath"
  by (simp add: parseEncryptedKey_def ReadPassword_def tty_print_def passphrase_prompt_def Let_def
      split: list.splits sum.splits)

text \<open>The selected default key is encrypted.\<close>

definition encrypted_default :: "auth_env \<Rightarrow> bool" where
  "encrypted_default env \<longleftrightarrow>
     select_key env [] \<noteq> [] \<and>
     (case ae_ReadFile env (select_key env []) of
        Inl e \<Rightarrow> False
      | Inr key \<Rightarrow> ae_ParsePrivateKey env key = Inl PassphraseMissing)"

lemma encrypted_default_prompts:
  assumes "encrypted_default env"
  shows "tty_output (snd (publickey_GetAuthMethod env [] t)) =
         tty_output t @ passphrase_prompt (select_key env [])"
proof -
  from assms obtain key where ne: "select_key env [] \<noteq> []"
    and rf: "ae_ReadFile env (select_key env []) = Inr key"
    and pk: "ae_ParsePrivateKey env key = Inl PassphraseMissing"
    by (auto simp: encrypted_default_def split: sum.splits)
  have "snd (publickey_GetAuthMethod env [] t) = snd (parseEncryptedKey env key (select_key env []) t)"
    using ne rf pk by (simp add: publickey_GetAuthMethod_def split: prod.splits sum.splits)
  then show ?thesis by (simp add: parseEncryptedKey_prompts)
qed

lemma try_method_snd:
  "IsAvailable env a \<Longrightarrow> snd (try_method env a t) = snd (GetAuthMethod env a t)"
  by (simp add: try_method_def split: prod.splits sum.splits)

lemma GetAvailableAuthMethods_prompts:
  assumes "encrypted_default env"
  shows "tty_output (snd (GetAvailableAuthMethods env t)) =
         tty_output t @ passphrase_prompt (select_key env [])"
proof -
  from assms have "IsAvailable env (PublicKeyAuthenticator [])"
    by (auto simp: encrypted_default_def select_key_available simp del: IsAvailable.simps)
  then have "snd (GetAvailableAuthMethods env t) = snd (publickey_GetAuthMethod env [] t)"
    using try_method_snd[of env "PublicKeyAuthenticator []" t]
    by (cases "try_method env (PublicKeyAuthenticator []) t") (simp add: GetAvailableAuthMethods_eq)
  with assms show ?thesis by (simp add: encrypted_default_prompts)
qed

section \<open>Properties\<close>

text \<open>
  In automatic mode there is always an authentication method: \<^verbatim>\<open>GetAvailableAuthMethods\<close>
  never returns an error.  The methods are, in priority order, the agent if its socket answers,
  the first default key if it loads, and the password prompt last.
\<close>

lemma GetAvailableAuthMethods_order:
  "\<exists>keyMethods t'. GetAvailableAuthMethods env t =
     (Inr ((case getSocketConn env of Inl e \<Rightarrow> [] | Inr conn \<Rightarrow> [PublicKeysCallback])
           @ keyMethods @ [PasswordCallback]), t') \<and>
     (keyMethods, t') = try_method env (PublicKeyAuthenticator []) t \<and> length keyMethods \<le> 1"
  by (cases "try_method env (PublicKeyAuthenticator []) t")
    (auto simp: GetAvailableAuthMethods_eq try_method_agent try_method_def
      split: sum.splits prod.splits if_splits)

text \<open>
  \<^verbatim>\<open>sort.Slice\<close> does not promise stability, but the result is determined all the same: every
  arrangement of the available authenticators in priority order is the list the selection uses.
\<close>

lemma available_sort_unique:
  assumes "mset ys = mset (GetAvailableAuthenticators env)" and "sorted (map Priority ys)"
  shows "ys = sort_key Priority (GetAvailableAuthenticators env) \<and> last ys = PasswordAuthenticator []"
proof -
  have ys: "ys = GetAvailableAuthenticators env"
    using assms family.any_sort_available by (simp add: GetAvailableAuthenticators_def)
  moreover have "last (GetAvailableAuthenticators env) = PasswordAuthenticator []"
    using family.available_ends[of env] by (auto simp: GetAvailableAuthenticators_def)
  ultimately show ?thesis by (simp add: sort_available_authenticators)
qed

definition sample_env :: auth_env where
  "sample_env = \<lparr>ae_getenv = (\<lambda>x. if x = ''HOME'' then ''/h'' else []), ae_isPrint = (\<lambda>_. True),
     ae_dialUnix = (\<lambda>_. Inl ''no agent''), ae_stat = (\<lambda>p. p = ''/h/.ssh/id_rsa''),
     ae_ReadFile = (\<lambda>p. Inr ''KEY''), ae_ParsePrivateKey = (\<lambda>k. Inl PassphraseMissing),
     ae_ParsePrivateKeyWithPassphrase = (\<lambda>k p. if p = ''pw'' then Inr ''signer'' else Inl ''bad'')\<rparr>"

lemma available_sort_unique_example:
  "[PublicKeyAuthenticator [], PasswordAuthenticator []] =
   sort_key Priority (GetAvailableAuthenticators sample_env)"
proof -
  have "GetAvailableAuthenticators sample_env = [PublicKeyAuthenticator [], PasswordAuthenticator []]"
    by code_simp
  then show ?thesis
    using available_sort_unique[of "[PublicKeyAuthenticator [], PasswordAuthenticator []]" sample_env]
    by simp
qed

text \<open>
  The reference for the identity files, said by position and without the code that walks over them.
  An identity stands for the first of its paths that exists, or for nothing when that cannot be
  read; an identity is locked when its key needs a passphrase.  The identity at position \<open>i\<close> gets
  the answer whose number is the number of locked ones before it.
\<close>

definition identity_key :: "auth_env \<Rightarrow> string \<Rightarrow> (string \<times> string) option" where
  "identity_key env kp =
     (case filter (ae_stat env) (map (auth_expandPath (ae_getenv env)) (if kp = [] then defaultKeyPaths else [kp])) of
        [] \<Rightarrow> None
      | p # ps \<Rightarrow> (case ae_ReadFile env p of Inl e \<Rightarrow> None | Inr key \<Rightarrow> Some (p, key)))"

definition locked :: "auth_env \<Rightarrow> string \<Rightarrow> bool" where
  "locked env kp \<longleftrightarrow> (case identity_key env kp of None \<Rightarrow> False
     | Some (p, key) \<Rightarrow> ae_ParsePrivateKey env key = Inl PassphraseMissing)"

definition identity_signer :: "auth_env \<Rightarrow> (string, string) result option \<Rightarrow> string \<Rightarrow> string option" where
  "identity_signer env answer kp =
     (case identity_key env kp of None \<Rightarrow> None
      | Some (p, key) \<Rightarrow>
          (case ae_ParsePrivateKey env key of
             Inr signer \<Rightarrow> Some signer
           | Inl (KeyError e) \<Rightarrow> None
           | Inl PassphraseMissing \<Rightarrow>
               (case answer of
                  Some (Inr pw) \<Rightarrow>
                    (case ae_ParsePrivateKeyWithPassphrase env key pw of Inl e \<Rightarrow> None | Inr signer \<Rightarrow> Some signer)
                | _ \<Rightarrow> None)))"

definition answer_at :: "auth_env \<Rightarrow> tty \<Rightarrow> string list \<Rightarrow> nat \<Rightarrow> (string, string) result option" where
  "answer_at env t ks i =
     (let k = length (filter (locked env) (take i ks))
      in if k < length (tty_input t) then Some (tty_input t ! k) else None)"

definition identity_signers :: "auth_env \<Rightarrow> tty \<Rightarrow> string list \<Rightarrow> string list" where
  "identity_signers env t ks =
     List.map_filter (\<lambda>i. identity_signer env (answer_at env t ks i) (ks ! i)) [0..<length ks]"

definition identity_methods :: "auth_env \<Rightarrow> tty \<Rightarrow> string list \<Rightarrow> AuthMethod list" where
  "identity_methods env t ks =
     (case ae_dialUnix env (ae_getenv env ''SSH_AUTH_SOCK'') of Inl e \<Rightarrow> [] | Inr conn \<Rightarrow> [PublicKeysCallback]) @
     map PublicKeys (identity_signers env t ks)"

definition after_identities :: "auth_env \<Rightarrow> tty \<Rightarrow> string list \<Rightarrow> tty" where
  "after_identities env t ks =
     t\<lparr>tty_input := drop (length (filter (locked env) ks)) (tty_input t),
       tty_output := tty_output t @
         concat (map (\<lambda>kp. passphrase_prompt (fst (the (identity_key env kp)))) (filter (locked env) ks))\<rparr>"

lemma auth_expandPath_nonempty: "kp \<noteq> [] \<Longrightarrow> auth_expandPath getenv kp \<noteq> []"
  by (auto simp: auth_expandPath_def UserHomeDir_def filepath_Join_def Clean_def Let_def split: sum.splits if_splits)

lemma find_map_filter: "(case filter P (map f xs) of [] \<Rightarrow> a | y # ys \<Rightarrow> g y) =
    (case find (P \<circ> f) xs of None \<Rightarrow> a | Some x \<Rightarrow> g (f x))"
  by (induction xs) auto

text \<open>The file of an identity is the one that the authenticator selects, when it is available.\<close>

lemma identity_key_select:
  "IsAvailable env (PublicKeyAuthenticator kp) \<Longrightarrow> select_key env kp \<noteq> [] \<and> identity_key env kp =
     (case ae_ReadFile env (select_key env kp) of Inl e \<Rightarrow> None | Inr key \<Rightarrow> Some (select_key env kp, key))"
  "\<not> IsAvailable env (PublicKeyAuthenticator kp) \<Longrightarrow> identity_key env kp = None"
proof -
  have exists: "ae_stat env \<circ> auth_expandPath (ae_getenv env) = expanded_exists env"
    by (simp add: fun_eq_iff expanded_exists_def)
  have key: "identity_key env kp = (case find (expanded_exists env) (if kp = [] then defaultKeyPaths else [kp]) of
      None \<Rightarrow> None | Some q \<Rightarrow> (case ae_ReadFile env (auth_expandPath (ae_getenv env) q) of
        Inl e \<Rightarrow> None | Inr k \<Rightarrow> Some (auth_expandPath (ae_getenv env) q, k)))"
    unfolding identity_key_def find_map_filter exists ..
  have default: "q \<noteq> []" if "find P defaultKeyPaths = Some q" for P q
    using that by (auto simp: defaultKeyPaths_def split: if_splits)
  show "select_key env kp \<noteq> [] \<and> identity_key env kp =
     (case ae_ReadFile env (select_key env kp) of Inl e \<Rightarrow> None | Inr key \<Rightarrow> Some (select_key env kp, key))"
    if "IsAvailable env (PublicKeyAuthenticator kp)"
  proof (cases "kp = []")
    case True
    with that have "find (expanded_exists env) defaultKeyPaths \<noteq> None"
      by (simp add: list_ex_iff find_None_iff) blast
    then obtain q where "find (expanded_exists env) defaultKeyPaths = Some q" by blast
    with default show ?thesis unfolding True by (simp add: key[unfolded True] select_key_def auth_expandPath_nonempty split: sum.split)
  next
    case False
    with that show ?thesis by (simp add: key select_key_def auth_expandPath_nonempty split: sum.split)
  qed
  show "identity_key env kp = None" if "\<not> IsAvailable env (PublicKeyAuthenticator kp)"
    using that by (auto simp: key list_ex_iff find_Some_iff split: option.splits)
qed

lemma parseEncryptedKey_answer:
  "parseEncryptedKey env key p t =
     ((case tty_input t of [] \<Rightarrow> Inl ''failed to read passphrase: EOF''
       | Inl e # as \<Rightarrow> Inl (''failed to read passphrase: '' @ e)
       | Inr pw # as \<Rightarrow> (case ae_ParsePrivateKeyWithPassphrase env key pw of
           Inl e \<Rightarrow> Inl (''unable to parse encrypted private key: '' @ e) | Inr signer \<Rightarrow> Inr signer)),
      t\<lparr>tty_input := drop 1 (tty_input t), tty_output := tty_output t @ passphrase_prompt p\<rparr>)"
  by (simp add: parseEncryptedKey_def ReadPassword_def tty_print_def passphrase_prompt_def Let_def
      split: list.splits sum.splits)

lemma try_identity:
  "try_method env (PublicKeyAuthenticator kp) t =
     ((case identity_signer env (answer_at env t [] 0) kp of None \<Rightarrow> [] | Some s \<Rightarrow> [PublicKeys s]),
      after_identities env t [kp])"
proof (cases "IsAvailable env (PublicKeyAuthenticator kp)")
  case True
  note key = identity_key_select(1)[OF True]
  from True show ?thesis
    using key
    by (auto simp: try_method_def publickey_GetAuthMethod_def identity_signer_def after_identities_def
        locked_def answer_at_def parseEncryptedKey_answer simp del: IsAvailable.simps
        split: sum.splits key_error.splits list.splits)
next
  case False
  from identity_key_select(2)[OF False] False show ?thesis
    by (simp add: try_method_def identity_signer_def after_identities_def locked_def del: IsAvailable.simps)
qed

lemma answer_at_Suc:
  "answer_at env t (k # ks) (Suc i) = answer_at env (after_identities env t [k]) ks i"
  by (auto simp: answer_at_def after_identities_def Let_def)

lemma identity_signers_Cons:
  "identity_signers env t (k # ks) =
     (case identity_signer env (answer_at env t [] 0) k of None \<Rightarrow> [] | Some s \<Rightarrow> [s]) @
     identity_signers env (after_identities env t [k]) ks"
proof -
  have "[0..<length (k # ks)] = 0 # map Suc [0..<length ks]"
    by (simp add: map_Suc_upt upt_conv_Cons del: upt_Suc)
  then have "identity_signers env t (k # ks) = List.map_filter
      (\<lambda>i. identity_signer env (answer_at env t (k # ks) i) ((k # ks) ! i)) (0 # map Suc [0..<length ks])"
    unfolding identity_signers_def by (rule arg_cong)
  moreover have "answer_at env t (k # ks) 0 = answer_at env t [] 0" by (simp add: answer_at_def)
  ultimately show ?thesis
    by (simp add: identity_signers_def map_filter_simps answer_at_Suc List.map_filter_def comp_def
        filter_map split: option.split)
qed

lemma after_identities_Cons:
  "after_identities env t (k # ks) = after_identities env (after_identities env t [k]) ks"
  by (simp add: after_identities_def)

lemma try_identities_eq:
  "try_identities env ks t = (map PublicKeys (identity_signers env t ks), after_identities env t ks)"
proof (induction ks arbitrary: t)
  case Nil
  show ?case by (simp add: identity_signers_def after_identities_def map_filter_simps)
next
  case (Cons k ks)
  show ?case
    by (simp add: try_identity Cons.IH identity_signers_Cons after_identities_Cons[of env t k ks]
        split: option.split)
qed

text \<open>
  C34.  What identity files lead to.  The methods are the agent, exactly when its socket answers, and
  then the signer of each identity file that exists, can be read and parses, in the order of the SSH
  configuration; a key that needs a passphrase gets the next answer of the user and is skipped when that
  is not the right one.  The user has been asked once for each locked key and for no other.  Only when
  there is no method at all does the configured one count, and it goes on from there.
\<close>

theorem GetAuthMethodsWithIdentity_spec:
  assumes "identityFiles \<noteq> []"
  shows "GetAuthMethodsWithIdentity env configured identityFiles t =
    (if identity_methods env t identityFiles \<noteq> []
     then (Inr (identity_methods env t identityFiles), after_identities env t identityFiles)
     else GetAuthMethodsByName env configured (after_identities env t identityFiles))"
  using assms
  by (simp add: GetAuthMethodsWithIdentity_def identity_methods_def try_method_agent try_identities_eq
      getSocketConn_def split: sum.split)

text \<open>Three identities: one that does not exist, and two locked ones, the first of which gets a wrong passphrase.\<close>

definition key_env :: auth_env where
  "key_env = sample_env\<lparr>ae_stat := (\<lambda>p. p \<in> {''/k1'', ''/k2''}), ae_ReadFile := Inr,
     ae_ParsePrivateKeyWithPassphrase := (\<lambda>k p. if p = ''pw'' then Inr k else Inl ''bad'')\<rparr>"

theorem GetAuthMethodsWithIdentity_spec_witness:
  "GetAuthMethodsWithIdentity key_env ''password'' [''/k0'', ''/k1'', ''/k2'']
     \<lparr>tty_input = [Inr ''no'', Inr ''pw'', Inr ''x''], tty_output = []\<rparr> =
   (Inr [PublicKeys ''/k2''],
    \<lparr>tty_input = [Inr ''x''], tty_output = passphrase_prompt ''/k1'' @ passphrase_prompt ''/k2''\<rparr>)"
proof -
  let ?t = "\<lparr>tty_input = [Inr ''no'', Inr ''pw'', Inr ''x''], tty_output = []\<rparr> :: tty"
  have "identity_methods key_env ?t [''/k0'', ''/k1'', ''/k2''] = [PublicKeys ''/k2'']" by code_simp
  moreover have "after_identities key_env ?t [''/k0'', ''/k1'', ''/k2''] =
      \<lparr>tty_input = [Inr ''x''], tty_output = passphrase_prompt ''/k1'' @ passphrase_prompt ''/k2''\<rparr>"
    by code_simp
  ultimately show ?thesis
    using GetAuthMethodsWithIdentity_spec[of "[''/k0'', ''/k1'', ''/k2'']" key_env "''password''" ?t] by simp
qed

text \<open>
  Every successful selection offers at least one method, and the selection fails only for a
  method other than the empty one, \<^verbatim>\<open>auto\<close> and \<^verbatim>\<open>password\<close>.
\<close>

lemma GetAuthMethodsWithIdentity_result:
  "case fst (GetAuthMethodsWithIdentity env method identityFiles t) of
     Inr ms \<Rightarrow> ms \<noteq> []
   | Inl e \<Rightarrow> method \<notin> {[], ''auto'', ''password''}"
proof -
  have byname: "case fst (GetAuthMethodsByName env method t) of
     Inr ms \<Rightarrow> ms \<noteq> [] | Inl e \<Rightarrow> method \<notin> {[], ''auto'', ''password''}" for t
  proof (cases "GetAuthMethodsByName env method t")
    case (Pair r t')
    then show ?thesis
    proof (cases r)
      case (Inl e)
      with Pair show ?thesis
        by (auto simp: GetAuthMethodsByName_def GetAvailableAuthMethods_eq getAuthMethodByName_def
            GetAllAuthenticators_def split: prod.splits)
    next
      case (Inr ms)
      with Pair show ?thesis by (simp add: GetAuthMethodsByName_nonempty)
    qed
  qed
  then show ?thesis by (simp add: GetAuthMethodsWithIdentity_def Let_def split: prod.splits)
qed

text \<open>
  C35.  Selecting one method by name initialises all of them first: with an encrypted default key
  the user is asked for its passphrase even when only the password method is requested, and asked
  twice when the method is \<^verbatim>\<open>publickey\<close>.
\<close>

theorem by_name_prompts:
  assumes "encrypted_default env"
  shows "tty_output (snd (GetAuthMethodsByName env ''password'' t)) =
           tty_output t @ passphrase_prompt (select_key env []) \<and>
         tty_output (snd (GetAuthMethodsByName env ''publickey'' t)) =
           tty_output t @ passphrase_prompt (select_key env []) @ passphrase_prompt (select_key env [])"
proof -
  obtain ms t1 where av: "GetAvailableAuthMethods env t = (Inr ms, t1)"
    by (cases "try_method env (PublicKeyAuthenticator []) t") (auto simp: GetAvailableAuthMethods_eq)
  then have out: "tty_output t1 = tty_output t @ passphrase_prompt (select_key env [])"
    using GetAvailableAuthMethods_prompts[OF assms, of t] by simp
  have "IsAvailable env (PublicKeyAuthenticator [])"
    using assms by (auto simp: encrypted_default_def select_key_available simp del: IsAvailable.simps)
  then have "snd (getAuthMethodByName env ''publickey'' t1) = snd (publickey_GetAuthMethod env [] t1)"
    by (simp add: getAuthMethodByName_def GetAllAuthenticators_def del: IsAvailable.simps
        split: prod.splits sum.splits)
  then show ?thesis
    using av out encrypted_default_prompts[OF assms, of t1]
    by (simp add: GetAuthMethodsByName_def getAuthMethodByName_def GetAllAuthenticators_def)
qed

theorem by_name_prompts_witness:
  "tty_output (snd (GetAuthMethodsByName sample_env ''publickey''
     \<lparr>tty_input = [Inr ''pw'', Inr ''pw''], tty_output = []\<rparr>)) =
   passphrase_prompt ''/h/.ssh/id_rsa'' @ passphrase_prompt ''/h/.ssh/id_rsa''"
proof -
  have "encrypted_default sample_env" and "select_key sample_env [] = ''/h/.ssh/id_rsa''"
    by code_simp+
  with by_name_prompts[of sample_env "\<lparr>tty_input = [Inr ''pw'', Inr ''pw''], tty_output = []\<rparr>"]
  show ?thesis by simp
qed

text \<open>
  The two \<^verbatim>\<open>expandPath\<close> functions agree on every path below the home directory, and with an
  absolute home directory a path that the SSH configuration code expanded is left alone when the
  authenticator expands it again.
\<close>

lemma expandPath_agree:
  assumes "HasPrefix path ''~/''" and "HasPrefix (getenv ''HOME'') ''/''"
  shows "auth_expandPath getenv path = ssh_expandPath getenv path \<and>
         auth_expandPath getenv (ssh_expandPath getenv path) = ssh_expandPath getenv path"
proof -
  from assms(1) obtain e where p: "path = CHR ''~'' # CHR ''/'' # e"
    by (auto simp: HasPrefix_iff prefix_def)
  from assms(2) obtain d where d: "getenv ''HOME'' = CHR ''/'' # d"
    by (auto simp: HasPrefix_iff prefix_def)
  have ssh: "ssh_expandPath getenv path = filepath_Join [getenv ''HOME'', e]"
    by (simp add: ssh_expandPath_def p UserHomeDir_def d)
  have auth: "auth_expandPath getenv path = filepath_Join [getenv ''HOME'', CHR ''/'' # e]"
    by (simp add: auth_expandPath_def p UserHomeDir_def d)
  have "filepath_Join [getenv ''HOME'', CHR ''/'' # e] = filepath_Join [getenv ''HOME'', e]"
    using Clean_double_slash[of "getenv ''HOME''" e] by (simp add: filepath_Join_def d)
  moreover have "HasPrefix (ssh_expandPath getenv path) ''/''"
    unfolding ssh using assms(2) by (rule filepath_Join_rooted)
  then have "auth_expandPath getenv (ssh_expandPath getenv path) = ssh_expandPath getenv path"
    by (auto simp: auth_expandPath_def HasPrefix_iff prefix_def)
  ultimately show ?thesis by (simp add: ssh auth)
qed

lemma expandPath_agree_example:
  "auth_expandPath (ae_getenv sample_env) ''~/.ssh/key'' = ''/h/.ssh/key''"
proof -
  have "ssh_expandPath (ae_getenv sample_env) ''~/.ssh/key'' = ''/h/.ssh/key''" by code_simp
  moreover have "HasPrefix (ae_getenv sample_env ''HOME'') ''/''" by code_simp
  ultimately show ?thesis using expandPath_agree[of "''~/.ssh/key''" "ae_getenv sample_env"] by simp
qed

end
