(* ===== verification/Tunnel.thy ===== *)
theory Tunnel
  imports Go_Text
begin

text \<open>
  Package \<^verbatim>\<open>internal/tunnel\<close>, files \<^verbatim>\<open>state.go\<close> and \<^verbatim>\<open>tunnel.go\<close>: the tunnel states, and the
  life of one SSH tunnel as a transition system.  \<^verbatim>\<open>Start\<close> runs against the network (dialling,
  listening, accepting), its caller (cancelling the context) and one goroutine per accepted
  connection (\<^verbatim>\<open>handleConnection\<close> with its two copying goroutines); every rule is one atomic
  action of one of them.
\<close>

section \<open>Tunnel states\<close>

text \<open>\<^verbatim>\<open>State\<close> is a Go string type with four constants.\<close>

type_synonym State = string

definition StateDisconnected :: State where "StateDisconnected = ''disconnected''"
definition StateConnecting :: State where "StateConnecting = ''connecting''"
definition StateConnected :: State where "StateConnected = ''connected''"
definition StateError :: State where "StateError = ''error''"

lemmas State_defs = StateDisconnected_def StateConnecting_def StateConnected_def StateError_def

definition IsActive :: "State \<Rightarrow> bool" where
  "IsActive s \<longleftrightarrow> s = StateConnecting \<or> s = StateConnected"

definition known_state :: "State \<Rightarrow> bool" where
  "known_state s \<longleftrightarrow> s \<in> {StateDisconnected, StateConnecting, StateConnected, StateError}"

lemma State_distinct [simp]:
  "StateDisconnected \<noteq> StateConnecting" "StateConnecting \<noteq> StateDisconnected"
  "StateDisconnected \<noteq> StateConnected" "StateConnected \<noteq> StateDisconnected"
  "StateDisconnected \<noteq> StateError" "StateError \<noteq> StateDisconnected"
  "StateConnecting \<noteq> StateConnected" "StateConnected \<noteq> StateConnecting"
  "StateConnecting \<noteq> StateError" "StateError \<noteq> StateConnecting"
  "StateConnected \<noteq> StateError" "StateError \<noteq> StateConnected"
  by (simp_all add: State_defs)

lemma IsActive_simps [simp]:
  "IsActive StateConnecting" "IsActive StateConnected"
  "\<not> IsActive StateDisconnected" "\<not> IsActive StateError" "\<not> IsActive []"
  by (simp_all add: IsActive_def) (simp add: State_defs)

lemma known_state_simps [simp]:
  "known_state StateDisconnected" "known_state StateConnecting"
  "known_state StateConnected" "known_state StateError"
  by (simp_all add: known_state_def)

section \<open>Data of a tunnel run\<close>

record Tunnel =
  tun_SSHHost :: string
  tun_SSHUser :: string
  tun_RemoteAddr :: string
  tun_LocalAddr :: string

text \<open>What \<^verbatim>\<open>Start\<close> returns; the inner text is the network error.\<close>

datatype start_error =
    ErrTunnelClosed
  | ErrConnect string string
  | ErrListen string string

fun start_error_text :: "start_error \<Rightarrow> string" where
  "start_error_text ErrTunnelClosed = ''tunnel closed''"
| "start_error_text (ErrConnect host e) = ''unable to connect to SSH server '' @ host @ '': '' @ e"
| "start_error_text (ErrListen addr e) = ''unable to listen on '' @ addr @ '': '' @ e"

datatype copier = NotStarted | Copying | Copied

datatype conn_pc = ConnDial | ConnHung | ConnSelect | ConnForced | ConnReturned

record conn =
  cn_pc :: conn_pc
  cn_local_open :: bool
  cn_remote_open :: bool
  cn_up :: copier
  cn_down :: copier
  cn_done :: nat

definition new_conn :: conn where
  "new_conn = \<lparr>cn_pc = ConnDial, cn_local_open = True, cn_remote_open = False,
     cn_up = NotStarted, cn_down = NotStarted, cn_done = 0\<rparr>"

datatype start_pc = StartDial | StartHung | StartListen | StartAccept | StartWait | StartReturned start_error

record run =
  r_pc :: start_pc
  r_ssh :: bool
  r_listener :: bool
  r_watcher :: bool
  r_cancelled :: bool
  r_conns :: "conn list"

definition initial_run :: run where
  "initial_run = \<lparr>r_pc = StartDial, r_ssh = False, r_listener = False, r_watcher = False,
     r_cancelled = False, r_conns = []\<rparr>"

section \<open>Transitions\<close>

text \<open>
  One connection.  The dial through the SSH client takes no context: it may succeed, fail or never
  return, and then neither the context nor anything else in this program moves its goroutine on.
  The channel \<^verbatim>\<open>done\<close> has capacity 2; a copying goroutine ends by sending to it.  On return the
  deferred calls close both sockets.
\<close>

inductive conn_step :: "bool \<Rightarrow> conn \<Rightarrow> conn \<Rightarrow> bool" for cancelled :: bool where
  conn_dial_err: "cn_pc c = ConnDial \<Longrightarrow>
     conn_step cancelled c (c\<lparr>cn_pc := ConnReturned, cn_local_open := False\<rparr>)"
| conn_dial_hang: "cn_pc c = ConnDial \<Longrightarrow> conn_step cancelled c (c\<lparr>cn_pc := ConnHung\<rparr>)"
| conn_dial_ok: "cn_pc c = ConnDial \<Longrightarrow>
     conn_step cancelled c
       (c\<lparr>cn_pc := ConnSelect, cn_remote_open := True, cn_up := Copying, cn_down := Copying\<rparr>)"
| conn_copy_up: "cn_up c = Copying \<Longrightarrow> cn_done c < 2 \<Longrightarrow>
     conn_step cancelled c (c\<lparr>cn_up := Copied, cn_done := cn_done c + 1\<rparr>)"
| conn_copy_down: "cn_down c = Copying \<Longrightarrow> cn_done c < 2 \<Longrightarrow>
     conn_step cancelled c (c\<lparr>cn_down := Copied, cn_done := cn_done c + 1\<rparr>)"
| conn_select_done: "cn_pc c = ConnSelect \<Longrightarrow> 0 < cn_done c \<Longrightarrow>
     conn_step cancelled c
       (c\<lparr>cn_pc := ConnReturned, cn_done := cn_done c - 1,
          cn_local_open := False, cn_remote_open := False\<rparr>)"
| conn_select_ctx: "cn_pc c = ConnSelect \<Longrightarrow> cancelled \<Longrightarrow>
     conn_step cancelled c
       (c\<lparr>cn_pc := ConnForced, cn_local_open := False, cn_remote_open := False\<rparr>)"
| conn_forced_done: "cn_pc c = ConnForced \<Longrightarrow> 0 < cn_done c \<Longrightarrow>
     conn_step cancelled c (c\<lparr>cn_pc := ConnReturned, cn_done := cn_done c - 1\<rparr>)"

text \<open>The counter of the wait group: connections whose goroutine has not returned.\<close>

definition wg_count :: "run \<Rightarrow> nat" where
  "wg_count r = length (filter (\<lambda>c. cn_pc c \<noteq> ConnReturned) (r_conns r))"

text \<open>
  \<^verbatim>\<open>Start\<close>.  Its own dial takes no context either and may never return.  An accept error with a live context is logged and the loop goes on; with a cancelled
  context it leads to the wait for the open connections.  The goroutine that waits for the context
  closes the listener.
\<close>

inductive run_step :: "Tunnel \<Rightarrow> run \<Rightarrow> run \<Rightarrow> bool" for t :: Tunnel where
  run_cancel: "\<not> r_cancelled r \<Longrightarrow> run_step t r (r\<lparr>r_cancelled := True\<rparr>)"
| run_dial_err: "r_pc r = StartDial \<Longrightarrow>
     run_step t r (r\<lparr>r_pc := StartReturned (ErrConnect (tun_SSHHost t) e)\<rparr>)"
| run_dial_hang: "r_pc r = StartDial \<Longrightarrow> run_step t r (r\<lparr>r_pc := StartHung\<rparr>)"
| run_dial_ok: "r_pc r = StartDial \<Longrightarrow> run_step t r (r\<lparr>r_pc := StartListen, r_ssh := True\<rparr>)"
| run_listen_err: "r_pc r = StartListen \<Longrightarrow>
     run_step t r (r\<lparr>r_pc := StartReturned (ErrListen (tun_LocalAddr t) e), r_ssh := False\<rparr>)"
| run_listen_ok: "r_pc r = StartListen \<Longrightarrow>
     run_step t r (r\<lparr>r_pc := StartAccept, r_listener := True, r_watcher := True\<rparr>)"
| run_watch: "r_watcher r \<Longrightarrow> r_cancelled r \<Longrightarrow>
     run_step t r (r\<lparr>r_listener := False, r_watcher := False\<rparr>)"
| run_accept: "r_pc r = StartAccept \<Longrightarrow> r_listener r \<Longrightarrow>
     run_step t r (r\<lparr>r_conns := r_conns r @ [new_conn]\<rparr>)"
| run_accept_retry: "r_pc r = StartAccept \<Longrightarrow> \<not> r_cancelled r \<Longrightarrow> run_step t r r"
| run_accept_stop: "r_pc r = StartAccept \<Longrightarrow> r_cancelled r \<Longrightarrow>
     run_step t r (r\<lparr>r_pc := StartWait\<rparr>)"
| run_wait_done: "r_pc r = StartWait \<Longrightarrow> wg_count r = 0 \<Longrightarrow>
     run_step t r (r\<lparr>r_pc := StartReturned ErrTunnelClosed, r_listener := False, r_ssh := False\<rparr>)"
| run_conn: "i < length (r_conns r) \<Longrightarrow> conn_step (r_cancelled r) (r_conns r ! i) c' \<Longrightarrow>
     run_step t r (r\<lparr>r_conns := (r_conns r)[i := c']\<rparr>)"

inductive_cases conn_stepE: "conn_step cancelled c c'"
inductive_cases run_stepE: "run_step t r r'"

section \<open>Invariants\<close>

definition copied :: "conn \<Rightarrow> nat" where
  "copied c = (if cn_up c = Copied then 1 else 0) + (if cn_down c = Copied then 1 else 0)"

definition started :: "conn \<Rightarrow> bool" where
  "started c \<longleftrightarrow> cn_up c \<noteq> NotStarted \<and> cn_down c \<noteq> NotStarted"

fun conn_ok_at :: "conn_pc \<Rightarrow> conn \<Rightarrow> bool" where
  "conn_ok_at ConnDial c \<longleftrightarrow> cn_local_open c \<and> \<not> cn_remote_open c \<and>
     cn_up c = NotStarted \<and> cn_down c = NotStarted \<and> cn_done c = 0"
| "conn_ok_at ConnHung c \<longleftrightarrow> cn_local_open c \<and> \<not> cn_remote_open c \<and>
     cn_up c = NotStarted \<and> cn_down c = NotStarted \<and> cn_done c = 0"
| "conn_ok_at ConnSelect c \<longleftrightarrow> cn_local_open c \<and> cn_remote_open c \<and> started c \<and> cn_done c = copied c"
| "conn_ok_at ConnForced c \<longleftrightarrow>
     \<not> cn_local_open c \<and> \<not> cn_remote_open c \<and> started c \<and> cn_done c = copied c"
| "conn_ok_at ConnReturned c \<longleftrightarrow> \<not> cn_local_open c \<and> \<not> cn_remote_open c \<and>
     (cn_up c = NotStarted \<and> cn_down c = NotStarted \<and> cn_done c = 0 \<or>
      started c \<and> cn_done c + 1 = copied c)"

definition conn_ok :: "conn \<Rightarrow> bool" where
  "conn_ok c \<longleftrightarrow> conn_ok_at (cn_pc c) c"

lemma conn_ok_new [simp]: "conn_ok new_conn"
  by (simp add: conn_ok_def new_conn_def)

lemma conn_step_ok: "conn_step cancelled c c' \<Longrightarrow> conn_ok c \<Longrightarrow> conn_ok c'"
  by (erule conn_stepE; cases "cn_pc c") (auto simp: conn_ok_def copied_def started_def split: if_splits)

text \<open>What \<^verbatim>\<open>Start\<close> may return for a tunnel, given whether its context is cancelled.\<close>

fun tunnel_outcome :: "Tunnel \<Rightarrow> bool \<Rightarrow> start_error \<Rightarrow> bool" where
  "tunnel_outcome t cancelled ErrTunnelClosed \<longleftrightarrow> cancelled"
| "tunnel_outcome t cancelled (ErrConnect host e) \<longleftrightarrow> host = tun_SSHHost t"
| "tunnel_outcome t cancelled (ErrListen addr e) \<longleftrightarrow> addr = tun_LocalAddr t"

fun pc_ok :: "Tunnel \<Rightarrow> start_pc \<Rightarrow> run \<Rightarrow> bool" where
  "pc_ok t StartDial r \<longleftrightarrow> \<not> r_ssh r \<and> \<not> r_listener r \<and> \<not> r_watcher r \<and> r_conns r = []"
| "pc_ok t StartHung r \<longleftrightarrow> \<not> r_ssh r \<and> \<not> r_listener r \<and> \<not> r_watcher r \<and> r_conns r = []"
| "pc_ok t StartListen r \<longleftrightarrow> r_ssh r \<and> \<not> r_listener r \<and> \<not> r_watcher r \<and> r_conns r = []"
| "pc_ok t StartAccept r \<longleftrightarrow> r_ssh r \<and> (r_listener r \<longleftrightarrow> r_watcher r) \<and> (r_watcher r \<or> r_cancelled r)"
| "pc_ok t StartWait r \<longleftrightarrow> r_ssh r \<and> r_cancelled r \<and> (r_listener r \<longleftrightarrow> r_watcher r)"
| "pc_ok t (StartReturned e) r \<longleftrightarrow> \<not> r_ssh r \<and> \<not> r_listener r \<and> wg_count r = 0 \<and>
     tunnel_outcome t (r_cancelled r) e \<and>
     (e \<noteq> ErrTunnelClosed \<longrightarrow> r_conns r = [] \<and> \<not> r_watcher r)"

definition run_inv :: "Tunnel \<Rightarrow> run \<Rightarrow> bool" where
  "run_inv t r \<longleftrightarrow> pc_ok t (r_pc r) r \<and> list_all conn_ok (r_conns r)"

lemma run_inv_initial: "run_inv t initial_run"
  by (simp add: run_inv_def initial_run_def)

lemma tunnel_outcome_cancel: "tunnel_outcome t c e \<Longrightarrow> tunnel_outcome t True e"
  by (cases e) auto

lemma wg_count_0_iff: "wg_count r = 0 \<longleftrightarrow> (\<forall>c\<in>set (r_conns r). cn_pc c = ConnReturned)"
  by (auto simp: wg_count_def filter_empty_conv)

lemma conn_step_returned: "conn_step cancelled c c' \<Longrightarrow> cn_pc c = ConnReturned \<Longrightarrow> cn_pc c' = ConnReturned"
  by (erule conn_stepE) auto

lemma wg_count_conn_step:
  assumes "wg_count r = 0" and "i < length (r_conns r)"
    and "conn_step cancelled (r_conns r ! i) c'"
  shows "wg_count (r\<lparr>r_conns := (r_conns r)[i := c']\<rparr>) = 0"
  using assms conn_step_returned[of cancelled "r_conns r ! i" c'] set_update_subset_insert[of "r_conns r" i c']
  by (auto simp: wg_count_0_iff)

lemma run_inv_conn:
  assumes inv: "run_inv t r" and i: "i < length (r_conns r)"
    and st: "conn_step (r_cancelled r) (r_conns r ! i) c'"
  shows "run_inv t (r\<lparr>r_conns := (r_conns r)[i := c']\<rparr>)"
proof -
  let ?r' = "r\<lparr>r_conns := (r_conns r)[i := c']\<rparr>"
  from inv have oks: "list_all conn_ok (r_conns r)" by (simp add: run_inv_def)
  with i have "conn_ok (r_conns r ! i)" by (simp add: list_all_length)
  with st have "conn_ok c'" by (rule conn_step_ok)
  with oks have "list_all conn_ok (r_conns ?r')"
    using set_update_subset_insert[of "r_conns r" i c'] by (auto simp: list_all_iff)
  moreover have "pc_ok t (r_pc r) ?r'"
    using inv i wg_count_conn_step[OF _ i st] by (cases "r_pc r") (auto simp: run_inv_def)
  ultimately show ?thesis by (simp add: run_inv_def)
qed

lemma run_step_inv:
  assumes "run_step t r r'" and "run_inv t r"
  shows "run_inv t r'"
  using assms(1)
proof cases
  case run_cancel
  with assms(2) show ?thesis
    by (cases "r_pc r") (auto simp: run_inv_def wg_count_def intro: tunnel_outcome_cancel)
next
  case (run_conn i c')
  with assms(2) show ?thesis by (simp add: run_inv_conn)
next
  case run_watch
  with assms(2) show ?thesis by (cases "r_pc r") (auto simp: run_inv_def wg_count_def)
qed (use assms(2) in \<open>auto simp: run_inv_def wg_count_def\<close>)

interpretation tunnel_run: invariant_system "\<lambda>r. r = initial_run" "run_step t" "run_inv t"
  by unfold_locales (auto intro: run_inv_initial run_step_inv)

section \<open>Winding down\<close>

text \<open>
  Once the context is cancelled, every action of \<^verbatim>\<open>Start\<close>, of a connection and of a copying
  goroutine brings the run closer to its end, except the accepting of a new connection, which is
  possible until the listener is closed and brings the work of that connection.
\<close>

definition winding_down :: "Tunnel \<Rightarrow> run \<Rightarrow> bool" where
  "winding_down t r \<longleftrightarrow> run_inv t r \<and> r_cancelled r \<and>
     r_pc r \<in> {StartAccept, StartWait, StartReturned ErrTunnelClosed}"

definition copier_weight :: "copier \<Rightarrow> nat" where
  "copier_weight k = (if k = Copying then 1 else 0)"

definition conn_weight :: "conn \<Rightarrow> nat" where
  "conn_weight c = copier_weight (cn_up c) + copier_weight (cn_down c) +
     (case cn_pc c of ConnDial \<Rightarrow> 5 | ConnHung \<Rightarrow> 0 | ConnSelect \<Rightarrow> 2 | ConnForced \<Rightarrow> 1 | ConnReturned \<Rightarrow> 0)"

definition run_weight :: "run \<Rightarrow> nat" where
  "run_weight r = sum_list (map conn_weight (r_conns r)) + (if r_watcher r then 1 else 0) +
     (case r_pc r of StartAccept \<Rightarrow> 2 | StartWait \<Rightarrow> 1 | _ \<Rightarrow> 0)"

definition conn_gain :: "run \<Rightarrow> nat" where
  "conn_gain r = 6 * length (r_conns r)"

text \<open>A connection whose dial never returns.\<close>

definition hung :: "run \<Rightarrow> bool" where
  "hung r \<longleftrightarrow> list_ex (\<lambda>c. cn_pc c = ConnHung) (r_conns r)"

lemma conn_step_weight: "conn_step cancelled c c' \<Longrightarrow> conn_ok c \<Longrightarrow> conn_weight c' < conn_weight c"
  by (erule conn_stepE) (auto simp: conn_weight_def copier_weight_def conn_ok_def)

lemma sum_list_update_less:
  fixes f :: "'a \<Rightarrow> nat"
  assumes "i < length xs" "f y < f (xs ! i)"
  shows "sum_list (map f (xs[i := y])) < sum_list (map f xs)"
proof -
  have "f (xs ! i) \<le> sum_list (map f xs)" using assms(1) by (simp add: member_le_sum_list)
  then show ?thesis using assms by (simp add: map_update sum_list_update)
qed

lemma winding_down_step:
  assumes "winding_down t r" and "run_step t r r'"
  shows "winding_down t r' \<and> run_weight r' + conn_gain r < run_weight r + conn_gain r'"
proof -
  from assms have inv: "run_inv t r'" by (auto simp: winding_down_def intro: run_step_inv)
  from assms(2) show ?thesis
  proof cases
    case (run_conn i c')
    with assms(1) have "conn_ok (r_conns r ! i)"
      by (simp add: winding_down_def run_inv_def list_all_length)
    with run_conn have "conn_weight c' < conn_weight (r_conns r ! i)" by (simp add: conn_step_weight)
    with run_conn have "run_weight r' < run_weight r"
      by (simp add: run_weight_def sum_list_update_less)
    with run_conn inv assms(1) show ?thesis by (simp add: winding_down_def conn_gain_def)
  next
    case run_accept
    moreover have "conn_weight new_conn = 5" by (simp add: conn_weight_def copier_weight_def new_conn_def)
    ultimately show ?thesis
      using inv assms(1) by (auto simp: winding_down_def run_weight_def conn_gain_def)
  qed (use assms(1) inv in \<open>auto simp: winding_down_def run_weight_def conn_gain_def\<close>)
qed

text \<open>A connection that neither has returned nor hangs can go on, and need not hang.\<close>

lemma conn_progress:
  assumes "conn_ok c" and "cn_pc c \<noteq> ConnReturned" "cn_pc c \<noteq> ConnHung"
  shows "\<exists>c'. conn_step True c c' \<and> cn_pc c' \<noteq> ConnHung"
proof (cases "cn_pc c")
  case ConnDial
  from conn_dial_err[OF this, of True] show ?thesis by (auto intro!: exI)
next
  case ConnSelect
  from conn_select_ctx[OF this, of True] show ?thesis by (auto intro!: exI)
next
  case ConnForced
  show ?thesis
  proof (cases "cn_done c = 0")
    case True
    with ConnForced assms(1) have "cn_up c = Copying"
      by (cases "cn_up c") (auto simp: conn_ok_def copied_def started_def split: if_splits)
    with True have "conn_step True c (c\<lparr>cn_up := Copied, cn_done := cn_done c + 1\<rparr>)"
      by (intro conn_copy_up) simp_all
    with ConnForced show ?thesis by (auto intro!: exI)
  next
    case False
    then have "0 < cn_done c" by simp
    from conn_forced_done[OF ConnForced this, of True] show ?thesis by (auto intro!: exI)
  qed
qed (use assms in simp_all)

text \<open>
  \<^verbatim>\<open>Start\<close> itself can go on as long as the listener is open, the loop not left, or a connection
  left that can go on.
\<close>

lemma winding_down_progress:
  assumes wd: "winding_down t r" and "r_pc r \<noteq> StartReturned ErrTunnelClosed"
    and "\<not> (r_pc r = StartWait \<and> \<not> r_listener r \<and> hung r)"
  shows "\<exists>r'. run_step t r r' \<and> conn_gain r' = conn_gain r \<and> (hung r' \<longrightarrow> hung r)"
proof (cases "r_listener r")
  case True
  with assms have "r_watcher r" by (auto simp: winding_down_def run_inv_def)
  with wd have "run_step t r (r\<lparr>r_listener := False, r_watcher := False\<rparr>)"
    by (simp add: winding_down_def run_watch)
  then show ?thesis by (rule ex_conjI) (simp add: conn_gain_def hung_def)
next
  case closed: False
  show ?thesis
  proof (cases "r_pc r = StartAccept")
    case True
    with wd have "run_step t r (r\<lparr>r_pc := StartWait\<rparr>)" by (simp add: winding_down_def run_accept_stop)
    then show ?thesis by (rule ex_conjI) (simp add: conn_gain_def hung_def)
  next
    case False
    with assms closed have wait: "r_pc r = StartWait" and "\<not> hung r" by (auto simp: winding_down_def)
    show ?thesis
    proof (cases "wg_count r = 0")
      case True
      from run_wait_done[OF wait True] show ?thesis by (rule ex_conjI) (simp add: conn_gain_def hung_def)
    next
      case False
      then obtain i where i: "i < length (r_conns r)" "cn_pc (r_conns r ! i) \<noteq> ConnReturned"
        by (auto simp: wg_count_0_iff in_set_conv_nth)
      moreover have "cn_pc (r_conns r ! i) \<noteq> ConnHung"
        using \<open>\<not> hung r\<close> i(1) by (auto simp: hung_def list_ex_iff)
      moreover have "conn_ok (r_conns r ! i)" using wd i(1)
        by (simp add: winding_down_def run_inv_def list_all_length)
      ultimately obtain c' where c': "conn_step True (r_conns r ! i) c'" "cn_pc c' \<noteq> ConnHung"
        using conn_progress by blast
      with wd have "conn_step (r_cancelled r) (r_conns r ! i) c'" by (simp add: winding_down_def)
      from run_conn[OF i(1) this] show ?thesis
        by (rule ex_conjI) (use \<open>\<not> hung r\<close> c'(2) set_update_subset_insert[of "r_conns r" i c'] in
            \<open>auto simp: conn_gain_def hung_def list_ex_iff\<close>)
    qed
  qed
qed

text \<open>
  Two readings of the contract: any run ends returned or waiting for a connection that hangs; and as
  long as no dial hangs, it ends returned.
\<close>

interpretation wind: terminating_system "run_step t" "winding_down t"
  "\<lambda>r. r_pc r = StartReturned ErrTunnelClosed \<or> r_pc r = StartWait \<and> \<not> r_listener r \<and> hung r"
  run_weight conn_gain
  by unfold_locales (use winding_down_step winding_down_progress in blast)+

interpretation unhung: terminating_system "\<lambda>r r'. run_step t r r' \<and> \<not> hung r'"
  "\<lambda>r. winding_down t r \<and> \<not> hung r" "\<lambda>r. r_pc r = StartReturned ErrTunnelClosed" run_weight conn_gain
  by unfold_locales (use winding_down_step winding_down_progress in blast)+

text \<open>A hanging connection keeps \<^verbatim>\<open>Start\<close> from returning for good.\<close>

lemma hung_step: "run_step t r r' \<Longrightarrow> hung r \<Longrightarrow> hung r'"
proof (erule run_stepE, goal_cases)
  case (12 i c')
  have "cn_pc (r_conns r ! i) = ConnHung \<longrightarrow> cn_pc c' = ConnHung"
    using 12(4) by (auto elim: conn_stepE)
  with 12 show ?case by (auto simp: hung_def list_ex_length nth_list_update)
qed (auto simp: hung_def)

lemma hung_wg_count: "hung r \<Longrightarrow> wg_count r \<noteq> 0"
  unfolding wg_count_0_iff hung_def list_ex_iff by force

lemma hung_steps: "(run_step t ^^ n) r r' \<Longrightarrow> hung r \<Longrightarrow> hung r'"
  by (induction n arbitrary: r') (auto intro: hung_step)

lemma closed_step:
  "run_step t r r' \<Longrightarrow> winding_down t r \<Longrightarrow> \<not> r_listener r \<Longrightarrow>
     \<not> r_listener r' \<and> length (r_conns r') = length (r_conns r)"
  by (erule run_stepE) (auto simp: winding_down_def)

lemma closed_steps:
  assumes "(run_step t ^^ n) r r'" "winding_down t r" "\<not> r_listener r"
  shows "\<not> r_listener r' \<and> length (r_conns r') = length (r_conns r)"
  using assms
proof (induction n arbitrary: r')
  case (Suc n)
  then obtain u where u: "(run_step t ^^ n) r u" "run_step t u r'" by auto
  from wind.run_bounded[OF Suc.prems(2) u(1)] have "winding_down t u" ..
  with Suc.IH[OF u(1)] Suc.prems u(2) closed_step show ?case by metis
qed simp

section \<open>Properties\<close>

text \<open>
  C7.  When \<^verbatim>\<open>Start\<close> has returned, nothing it opened is left open: the SSH client and the listener
  are closed, every connection goroutine has returned with both its sockets closed.  It returns
  \<^verbatim>\<open>ErrTunnelClosed\<close> only after its context was cancelled, and an error only before it accepted any
  connection; the error names this tunnel's SSH host or local address.
\<close>

theorem Start_returned_clean:
  assumes "reach (\<lambda>r. r = initial_run) (run_step t) r" and "r_pc r = StartReturned e"
  shows "\<not> r_ssh r \<and> \<not> r_listener r \<and>
    list_all (\<lambda>c. cn_pc c = ConnReturned \<and> \<not> cn_local_open c \<and> \<not> cn_remote_open c) (r_conns r) \<and>
    tunnel_outcome t (r_cancelled r) e \<and> (e \<noteq> ErrTunnelClosed \<longrightarrow> r_conns r = [])"
proof -
  from assms(1) have inv: "run_inv t r" by (rule tunnel_run.reach_inv)
  with assms(2) have "\<forall>c\<in>set (r_conns r). cn_pc c = ConnReturned"
    by (simp add: run_inv_def wg_count_0_iff)
  with inv assms(2) show ?thesis by (auto simp: run_inv_def list_all_iff conn_ok_def)
qed

lemma reach_dial_error:
  "reach (\<lambda>r. r = initial_run) (run_step t)
     (initial_run\<lparr>r_pc := StartReturned (ErrConnect (tun_SSHHost t) e)\<rparr>)"
  by (rule reach_step[OF reach_init], simp, rule run_dial_err) (simp add: initial_run_def)

theorem Start_returned_clean_witness:
  "tunnel_outcome \<lparr>tun_SSHHost = ''h:22'', tun_SSHUser = ''u'', tun_RemoteAddr = ''r:1'', tun_LocalAddr = '':1''\<rparr>
     False (ErrConnect ''h:22'' ''refused'')"
  using Start_returned_clean[OF reach_dial_error, of
      "\<lparr>tun_SSHHost = ''h:22'', tun_SSHUser = ''u'', tun_RemoteAddr = ''r:1'', tun_LocalAddr = '':1''\<rparr>"
      "''refused''"]
  by (simp add: initial_run_def)

text \<open>Runs with one connection, before and after the context is cancelled.\<close>

definition conn_run :: "conn \<Rightarrow> bool \<Rightarrow> run" where
  "conn_run c cancelled = \<lparr>r_pc = StartAccept, r_ssh = True, r_listener = True, r_watcher = True,
     r_cancelled = cancelled, r_conns = [c]\<rparr>"

definition open_conn :: conn where
  "open_conn = \<lparr>cn_pc = ConnSelect, cn_local_open = True, cn_remote_open = True,
     cn_up = Copying, cn_down = Copying, cn_done = 0\<rparr>"

abbreviation sample_run :: "bool \<Rightarrow> run" where
  "sample_run \<equiv> conn_run open_conn"

abbreviation hung_run :: "bool \<Rightarrow> run" where
  "hung_run \<equiv> conn_run (new_conn\<lparr>cn_pc := ConnHung\<rparr>)"

lemmas sample_run_def = conn_run_def open_conn_def

lemma reach_accepted: "reach (\<lambda>r. r = initial_run) (run_step t) (conn_run new_conn False)"
proof -
  let ?R = "reach (\<lambda>r. r = initial_run) (run_step t)"
  let ?r1 = "initial_run\<lparr>r_pc := StartListen, r_ssh := True\<rparr>"
  let ?r2 = "?r1\<lparr>r_pc := StartAccept, r_listener := True, r_watcher := True\<rparr>"
  have "?R initial_run" by (simp add: reach_init)
  then have "?R ?r1" by (rule reach_step) (rule run_dial_ok, simp add: initial_run_def)
  then have "?R ?r2" by (rule reach_step) (rule run_listen_ok, simp)
  then have "?R (?r2\<lparr>r_conns := r_conns ?r2 @ [new_conn]\<rparr>)" by (rule reach_step) (rule run_accept; simp)
  then show ?thesis by (simp add: conn_run_def initial_run_def)
qed

lemma reach_conn:
  assumes "conn_step False new_conn c"
  shows "reach (\<lambda>r. r = initial_run) (run_step t) (conn_run c False)"
    "reach (\<lambda>r. r = initial_run) (run_step t) (conn_run c True)"
proof -
  have "run_step t (conn_run new_conn False) (conn_run c False)"
    using run_conn[of 0 "conn_run new_conn False" c t] assms by (simp add: conn_run_def)
  with reach_accepted show *: "reach (\<lambda>r. r = initial_run) (run_step t) (conn_run c False)"
    by (rule reach_step)
  have "run_step t (conn_run c False) (conn_run c True)"
    using run_cancel[of "conn_run c False" t] by (simp add: conn_run_def)
  with * show "reach (\<lambda>r. r = initial_run) (run_step t) (conn_run c True)"
    by (rule reach_step)
qed

lemma open_conn_step: "conn_step False new_conn open_conn"
  using conn_dial_ok[of new_conn False] by (simp add: new_conn_def open_conn_def)

lemma hung_conn_step: "conn_step False new_conn (new_conn\<lparr>cn_pc := ConnHung\<rparr>)"
  by (rule conn_dial_hang) (simp add: new_conn_def)

lemmas reach_sample_run = reach_conn(1)[OF open_conn_step]
lemmas reach_sample_run_cancelled = reach_conn(2)[OF open_conn_step]
lemmas reach_hung_run_cancelled = reach_conn(2)[OF hung_conn_step]

text \<open>
  A copying goroutine never blocks on the channel \<^verbatim>\<open>done\<close>, not even after
  \<^verbatim>\<open>handleConnection\<close> has returned: as long as it is copying there is room in the channel.
\<close>

lemma done_never_blocks:
  assumes "reach (\<lambda>r. r = initial_run) (run_step t) r" and "c \<in> set (r_conns r)"
    and "cn_up c = Copying \<or> cn_down c = Copying"
  shows "cn_done c < 2"
proof -
  from assms(1) have "run_inv t r" by (rule tunnel_run.reach_inv)
  with assms(2) have "conn_ok c" by (simp add: run_inv_def list_all_iff)
  with assms(3) show ?thesis
    by (cases "cn_pc c") (auto simp: conn_ok_def copied_def started_def split: if_splits)
qed

lemma done_never_blocks_example: "cn_done (hd (r_conns (sample_run False))) < 2"
  using done_never_blocks[OF reach_sample_run, of "hd (r_conns (sample_run False))"]
  by (simp add: sample_run_def)

text \<open>
  C6.  How a cancelled tunnel ends.  Take any reachable state in which the context is cancelled and
  \<^verbatim>\<open>Start\<close> is in its accept loop or past it in the final wait, and any run from there.  The run has at most
  \<open>run_weight\<close> steps and six more for each connection it still accepts, and it accepts none once the
  listener is closed.  Where the run can go no further, \<^verbatim>\<open>Start\<close> has returned
  \<^verbatim>\<open>ErrTunnelClosed\<close> or waits for a connection whose dial never returns.  While no dial hangs, the
  return can always still be reached; once one hangs, \<^verbatim>\<open>Start\<close> never returns, since that dial has no context.
\<close>

theorem Start_terminates:
  assumes "reach (\<lambda>r. r = initial_run) (run_step t) r" and "r_cancelled r"
    and "r_pc r \<in> {StartAccept, StartWait}" and "(run_step t ^^ n) r r'"
  shows "n \<le> run_weight r + 6 * (length (r_conns r') - length (r_conns r)) \<and>
    (\<not> r_listener r \<longrightarrow> length (r_conns r') = length (r_conns r)) \<and>
    (\<not> (\<exists>r''. run_step t r' r'') \<longrightarrow>
      r_pc r' = StartReturned ErrTunnelClosed \<or> r_pc r' = StartWait \<and> \<not> r_listener r' \<and> hung r') \<and>
    (\<not> hung r' \<longrightarrow> (\<exists>r''. (run_step t)\<^sup>*\<^sup>* r' r'' \<and> r_pc r'' = StartReturned ErrTunnelClosed)) \<and>
    (hung r \<longrightarrow> hung r' \<and> (\<forall>e. r_pc r' \<noteq> StartReturned e))"
proof -
  from assms(1) have "run_inv t r" by (rule tunnel_run.reach_inv)
  with assms(2,3) have wd: "winding_down t r" by (auto simp: winding_down_def)
  from wind.run_bounded[OF wd assms(4)] have wd': "winding_down t r'"
    and bound: "run_weight r' + n + conn_gain r \<le> run_weight r + conn_gain r'" by auto
  have "n \<le> run_weight r + 6 * (length (r_conns r') - length (r_conns r))"
    using bound by (simp add: conn_gain_def)
  moreover have "\<not> r_listener r \<longrightarrow> length (r_conns r') = length (r_conns r)"
    using closed_steps[OF assms(4) wd] by simp
  moreover have "\<not> (\<exists>r''. run_step t r' r'') \<longrightarrow>
      r_pc r' = StartReturned ErrTunnelClosed \<or> r_pc r' = StartWait \<and> \<not> r_listener r' \<and> hung r'"
    using wind.stuck_is_final[OF wd'] by simp
  moreover have "\<exists>r''. (run_step t)\<^sup>*\<^sup>* r' r'' \<and> r_pc r'' = StartReturned ErrTunnelClosed" if "\<not> hung r'"
    using unhung.reaches_final[of t r'] wd' that
      rtranclp_mono[of "\<lambda>r r'. run_step t r r' \<and> \<not> hung r'" "run_step t"] by blast
  moreover have "hung r' \<and> (\<forall>e. r_pc r' \<noteq> StartReturned e)" if "hung r"
  proof -
    from hung_steps[OF assms(4) that] have "hung r'" .
    moreover from this have "wg_count r' \<noteq> 0" by (rule hung_wg_count)
    ultimately show ?thesis using wd' by (auto simp: winding_down_def run_inv_def)
  qed
  ultimately show ?thesis by blast
qed

abbreviation blank_tunnel :: Tunnel where
  "blank_tunnel \<equiv> \<lparr>tun_SSHHost = [], tun_SSHUser = [], tun_RemoteAddr = [], tun_LocalAddr = []\<rparr>"

theorem Start_terminates_witness:
  "(\<exists>r'. (run_step blank_tunnel)\<^sup>*\<^sup>* (sample_run True) r' \<and> r_pc r' = StartReturned ErrTunnelClosed) \<and>
   (\<nexists>r' e. (run_step blank_tunnel)\<^sup>*\<^sup>* (hung_run True) r' \<and> r_pc r' = StartReturned e)"
proof -
  note sample = Start_terminates[OF reach_sample_run_cancelled[of blank_tunnel], of 0 "sample_run True"]
  note stuck = Start_terminates[OF reach_hung_run_cancelled[of blank_tunnel]]
  have "\<not> hung (sample_run True)" "hung (hung_run True)"
    by (simp_all add: hung_def sample_run_def new_conn_def)
  moreover have "r_cancelled (sample_run True)" "r_pc (sample_run True) \<in> {StartAccept, StartWait}"
    "r_cancelled (hung_run True)" "r_pc (hung_run True) \<in> {StartAccept, StartWait}"
    by (simp_all add: conn_run_def)
  ultimately show ?thesis
    using sample stuck by (auto simp: rtranclp_is_Sup_relpowp)
qed

end
