(* ===== verification/Manager.thy ===== *)
theory Manager
  imports Config Tunnel
begin

text \<open>
  Package \<^verbatim>\<open>internal/tunnel\<close>, file \<^verbatim>\<open>manager.go\<close>.  The manager's map holds pointers that
  goroutines keep after an entry is gone, so the model has a heap of \<^verbatim>\<open>ManagedTunnel\<close> cells, and
  contexts are numbers with the set of the cancelled ones.  Every section of code between taking
  and releasing the manager's lock is one definition; the goroutines between those sections are
  tasks, and the transition system of the last section interleaves them in every way.
\<close>

section \<open>Data\<close>

type_synonym callback = nat
type_synonym ptr = nat
type_synonym ctx = nat
type_synonym time = nat

record StatusChange =
  sc_Name :: string
  sc_Status :: State
  sc_Error :: string

record ManagedTunnel =
  mt_Config :: TunnelConfig
  mt_Status :: State
  mt_Error :: string
  mt_Ephemeral :: bool
  mt_cancel :: "ctx option"
  mt_startedAt :: time

text \<open>
  The struct \<^verbatim>\<open>Manager\<close> (without its lock), the cells its pointers refer to, and the contexts
  created so far.  A callback is known by a number.
\<close>

record Manager =
  m_tunnels :: "(string, ptr) gomap"
  m_config :: Config
  m_onChange :: "callback option"
  m_heap :: "ptr \<Rightarrow> ManagedTunnel"
  m_next :: ptr
  m_nextctx :: ctx
  m_cancelled :: "ctx set"

datatype mgr_error =
    TunnelNotFound string
  | TunnelAlready string State
  | TunnelNotRunning string
  | TunnelNotEphemeral string
  | TunnelStillActive string
  | NoUniqueName

text \<open>The text of each error, at the place that makes it.\<close>

definition not_found_text :: "(nat \<Rightarrow> bool) \<Rightarrow> string \<Rightarrow> string" where
  [simp]: "not_found_text isPrint name = ''tunnel '' @ Quote isPrint name @ '' not found''"

definition already_text :: "(nat \<Rightarrow> bool) \<Rightarrow> string \<Rightarrow> State \<Rightarrow> string" where
  [simp]: "already_text isPrint name st = ''tunnel '' @ Quote isPrint name @ '' is already '' @ st"

definition not_running_text :: "(nat \<Rightarrow> bool) \<Rightarrow> string \<Rightarrow> string" where
  [simp]: "not_running_text isPrint name = ''tunnel '' @ Quote isPrint name @ '' is not running''"

definition not_ephemeral_text :: "(nat \<Rightarrow> bool) \<Rightarrow> string \<Rightarrow> string" where
  [simp]: "not_ephemeral_text isPrint name = ''tunnel '' @ Quote isPrint name @ '' is not ephemeral''"

definition still_active_text :: "(nat \<Rightarrow> bool) \<Rightarrow> string \<Rightarrow> string" where
  [simp]: "still_active_text isPrint name = ''tunnel '' @ Quote isPrint name @ '' is still active''"

definition no_unique_name_text :: string where
  [simp]: "no_unique_name_text = ''failed to generate unique name''"

fun mgr_error_text :: "(nat \<Rightarrow> bool) \<Rightarrow> mgr_error \<Rightarrow> string" where
  "mgr_error_text isPrint (TunnelNotFound name) = not_found_text isPrint name"
| "mgr_error_text isPrint (TunnelAlready name st) = already_text isPrint name st"
| "mgr_error_text isPrint (TunnelNotRunning name) = not_running_text isPrint name"
| "mgr_error_text isPrint (TunnelNotEphemeral name) = not_ephemeral_text isPrint name"
| "mgr_error_text isPrint (TunnelStillActive name) = still_active_text isPrint name"
| "mgr_error_text isPrint NoUniqueName = no_unique_name_text"

abbreviation lookup :: "Manager \<Rightarrow> string \<Rightarrow> ptr option" where
  "lookup m name \<equiv> map_of (m_tunnels m) name"

abbreviation status_of :: "Manager \<Rightarrow> ptr \<Rightarrow> State" where
  "status_of m p \<equiv> mt_Status (m_heap m p)"

section \<open>Operations\<close>

text \<open>A fresh entry: the zero \<^verbatim>\<open>ManagedTunnel\<close> with a configuration, disconnected.\<close>

definition disconnected_tunnel :: "TunnelConfig \<Rightarrow> bool \<Rightarrow> ManagedTunnel" where
  "disconnected_tunnel tc eph = \<lparr>mt_Config = tc, mt_Status = StateDisconnected, mt_Error = [],
     mt_Ephemeral = eph, mt_cancel = None, mt_startedAt = 0\<rparr>"

definition insert_tunnel :: "string \<Rightarrow> ManagedTunnel \<Rightarrow> Manager \<Rightarrow> Manager" where
  "insert_tunnel name mt m = m\<lparr>m_tunnels := AList.update name (m_next m) (m_tunnels m),
     m_heap := (m_heap m)(m_next m := mt), m_next := m_next m + 1\<rparr>"

definition empty_manager :: "Config \<Rightarrow> Manager" where
  "empty_manager cfg = \<lparr>m_tunnels = [], m_config = cfg, m_onChange = None,
     m_heap = (\<lambda>_. disconnected_tunnel \<lparr>tc_Name = [], tc_Host = [], tc_Remote = [], tc_Local = []\<rparr> False),
     m_next = 0, m_nextctx = 0, m_cancelled = {}\<rparr>"

definition NewManager :: "Config \<Rightarrow> Manager" where
  "NewManager cfg =
     fold (\<lambda>tc. insert_tunnel (tc_Name tc) (disconnected_tunnel tc False)) (cfg_Tunnels cfg)
       (empty_manager cfg)"

definition SetOnChange :: "Manager \<Rightarrow> callback \<Rightarrow> Manager" where
  "SetOnChange m fn = m\<lparr>m_onChange := Some fn\<rparr>"

definition set_cell :: "ptr \<Rightarrow> ManagedTunnel \<Rightarrow> Manager \<Rightarrow> Manager" where
  "set_cell p mt m = m\<lparr>m_heap := (m_heap m)(p := mt)\<rparr>"

text \<open>
  \<^verbatim>\<open>Start\<close>, up to the first release of the lock: the pointer, the new context and the callback
  read under the lock.  The error for an active tunnel has the state that the guard read; its text
  is made after the release, when the state may be another (\<open>Start_already\<close>).
\<close>

definition Start_begin ::
  "Manager \<Rightarrow> string \<Rightarrow> time \<Rightarrow> (ptr \<times> ctx \<times> callback option \<times> Manager, mgr_error) result" where
  "Start_begin m name now =
     (case lookup m name of
        None \<Rightarrow> Inl (TunnelNotFound name)
      | Some p \<Rightarrow>
          if IsActive (status_of m p) then Inl (TunnelAlready name (status_of m p))
          else Inr (p, m_nextctx m, m_onChange m,
            (set_cell p ((m_heap m p)\<lparr>mt_Status := StateConnecting, mt_Error := [],
               mt_startedAt := now, mt_cancel := Some (m_nextctx m)\<rparr>) m)
            \<lparr>m_nextctx := m_nextctx m + 1\<rparr>))"

definition Start_already :: "Manager \<Rightarrow> ptr \<Rightarrow> string \<Rightarrow> mgr_error" where
  "Start_already m p name = TunnelAlready name (status_of m p)"

text \<open>The tunnel that the goroutine of \<^verbatim>\<open>Start\<close> runs.\<close>

definition tunnel_of :: "ManagedTunnel \<Rightarrow> string \<Rightarrow> string \<Rightarrow> Tunnel" where
  "tunnel_of mt sshHost sshUser = \<lparr>tun_SSHHost = sshHost, tun_SSHUser = sshUser,
     tun_RemoteAddr = tc_Remote (mt_Config mt), tun_LocalAddr = tc_Local (mt_Config mt)\<rparr>"

text \<open>The locked section of that goroutine after the tunnel's \<^verbatim>\<open>Start\<close> returned \<open>err\<close>.\<close>

definition Start_finish ::
  "Manager \<Rightarrow> ptr \<Rightarrow> string \<Rightarrow> start_error option \<Rightarrow> Manager \<times> callback option \<times> StatusChange" where
  "Start_finish m p name err =
     (let mt = m_heap m p;
          mt = (case err of
                  Some e \<Rightarrow> if e \<noteq> ErrTunnelClosed
                            then mt\<lparr>mt_Status := StateError, mt_Error := start_error_text e\<rparr>
                            else mt\<lparr>mt_Status := StateDisconnected, mt_Error := []\<rparr>
                | None \<Rightarrow> mt\<lparr>mt_Status := StateDisconnected, mt_Error := []\<rparr>);
          mt = mt\<lparr>mt_cancel := None\<rparr>
      in (set_cell p mt m, m_onChange m,
          \<lparr>sc_Name = name, sc_Status = mt_Status mt, sc_Error = mt_Error mt\<rparr>))"

text \<open>The locked section of \<^verbatim>\<open>Start\<close> after the brief wait.\<close>

definition Start_settle ::
  "Manager \<Rightarrow> ptr \<Rightarrow> string \<Rightarrow> Manager \<times> (callback option \<times> StatusChange) option" where
  "Start_settle m p name =
     (if status_of m p = StateConnecting
      then (set_cell p ((m_heap m p)\<lparr>mt_Status := StateConnected\<rparr>) m,
            Some (m_onChange m, \<lparr>sc_Name = name, sc_Status = StateConnected, sc_Error = []\<rparr>))
      else (m, None))"

text \<open>Calling the cancel function of an entry, when it has one.\<close>

definition call_cancel :: "ptr \<Rightarrow> Manager \<Rightarrow> Manager" where
  "call_cancel p m =
     (case mt_cancel (m_heap m p) of
        None \<Rightarrow> m
      | Some c \<Rightarrow> m\<lparr>m_cancelled := insert c (m_cancelled m)\<rparr>)"

text \<open>\<^verbatim>\<open>Stop\<close>: the second result says whether the goroutine that removes the entry is started.\<close>

definition Stop :: "Manager \<Rightarrow> string \<Rightarrow> (Manager \<times> bool, mgr_error) result" where
  "Stop m name =
     (case lookup m name of
        None \<Rightarrow> Inl (TunnelNotFound name)
      | Some p \<Rightarrow>
          if \<not> IsActive (status_of m p) then Inl (TunnelNotRunning name)
          else Inr (call_cancel p m, mt_Ephemeral (m_heap m p)))"

definition remove_entry :: "Manager \<Rightarrow> string \<Rightarrow> Manager" where
  "remove_entry m name = m\<lparr>m_tunnels := AList.delete name (m_tunnels m)\<rparr>"

text \<open>The goroutine that \<^verbatim>\<open>Stop\<close> starts for an ephemeral tunnel, after its delay.\<close>

definition delayed_delete :: "Manager \<Rightarrow> string \<Rightarrow> Manager" where
  "delayed_delete m name =
     (case lookup m name of
        None \<Rightarrow> m
      | Some p \<Rightarrow> if \<not> IsActive (status_of m p) then remove_entry m name else m)"

definition Status :: "Manager \<Rightarrow> string \<Rightarrow> State \<times> string" where
  "Status m name =
     (case lookup m name of
        None \<Rightarrow> (StateDisconnected, ''tunnel not found'')
      | Some p \<Rightarrow> (status_of m p, mt_Error (m_heap m p)))"

text \<open>\<^verbatim>\<open>List\<close> copies every entry but its cancel function, in the iteration order of the map.\<close>

definition snapshot :: "ManagedTunnel \<Rightarrow> ManagedTunnel" where
  "snapshot mt = mt\<lparr>mt_cancel := None\<rparr>"

definition Manager_List :: "((string, ptr) gomap \<Rightarrow> (string, ptr) gomap) \<Rightarrow> Manager \<Rightarrow> ManagedTunnel list" where
  "Manager_List iter m = map (\<lambda>(name, p). snapshot (m_heap m p)) (iter (m_tunnels m))"

definition StopAll :: "((string, ptr) gomap \<Rightarrow> (string, ptr) gomap) \<Rightarrow> Manager \<Rightarrow> Manager" where
  "StopAll iter m = fold (\<lambda>(name, p). call_cancel p) (iter (m_tunnels m)) m"

definition GetConfig :: "Manager \<Rightarrow> string \<Rightarrow> TunnelConfig option" where
  "GetConfig m name = map_option (\<lambda>p. mt_Config (m_heap m p)) (lookup m name)"

text \<open>
  The loop of \<^verbatim>\<open>Register\<close>: at most \<open>k\<close> more names from the generator, whose \<open>i\<close>-th answer is
  \<open>gen i\<close>; the last one drawn is kept even when it is taken.
\<close>

primrec generate_name :: "(string \<Rightarrow> bool) \<Rightarrow> (nat \<Rightarrow> string) \<Rightarrow> nat \<Rightarrow> nat \<Rightarrow> string \<Rightarrow> string" where
  "generate_name taken gen i 0 name = name"
| "generate_name taken gen i (Suc k) name =
     (if \<not> taken (gen i) then gen i else generate_name taken gen (Suc i) k (gen i))"

definition has_tunnel :: "Manager \<Rightarrow> string \<Rightarrow> bool" where
  "has_tunnel m name \<longleftrightarrow> lookup m name \<noteq> None"

definition Register :: "(nat \<Rightarrow> string) \<Rightarrow> Manager \<Rightarrow> TunnelConfig \<Rightarrow> (string \<times> Manager, mgr_error) result" where
  "Register gen m tc =
     (let name = generate_name (has_tunnel m) gen 0 10 []
      in if has_tunnel m name then Inl NoUniqueName
         else Inr (name, insert_tunnel name (disconnected_tunnel (tc\<lparr>tc_Name := name\<rparr>) True) m))"

definition Unregister :: "Manager \<Rightarrow> string \<Rightarrow> (Manager, mgr_error) result" where
  "Unregister m name =
     (case lookup m name of
        None \<Rightarrow> Inl (TunnelNotFound name)
      | Some p \<Rightarrow>
          if \<not> mt_Ephemeral (m_heap m p) then Inl (TunnelNotEphemeral name)
          else if IsActive (status_of m p) then Inl (TunnelStillActive name)
          else Inr (remove_entry m name))"

text \<open>\<^verbatim>\<open>notifyChange\<close> and the inlined calls of the callback: nothing happens when it is nil.\<close>

type_synonym log = "(callback \<times> StatusChange) list"

definition notifyChange :: "callback option \<Rightarrow> StatusChange \<Rightarrow> log \<Rightarrow> log" where
  "notifyChange onChange change log =
     (case onChange of None \<Rightarrow> log | Some fn \<Rightarrow> log @ [(fn, change)])"

section \<open>Goroutines and their interleaving\<close>

text \<open>
  What is in flight: a \<^verbatim>\<open>Start\<close> about to notify and spawn its goroutine, a goroutine inside the
  tunnel's \<^verbatim>\<open>Start\<close>, a \<^verbatim>\<open>Start\<close> in its brief wait, a notification whose lock was released, and a
  delayed removal.
\<close>

datatype task =
    StartNotify ptr string ctx "callback option" string string
  | Goroutine ptr string ctx Tunnel
  | StartSettle ptr string
  | Notify "callback option" StatusChange
  | DelayedDelete string

type_synonym sys = "Manager \<times> task multiset \<times> log"

inductive mgr_step :: "sys \<Rightarrow> sys \<Rightarrow> bool" where
  step_start: "Start_begin m name now = Inr (p, c, cb, m') \<Longrightarrow>
     mgr_step (m, ts, log) (m', add_mset (StartNotify p name c cb sshHost sshUser) ts, log)"
| step_spawn:
    "mgr_step (m, add_mset (StartNotify p name c cb sshHost sshUser) ts, log)
       (m, add_mset (Goroutine p name c (tunnel_of (m_heap m p) sshHost sshUser))
             (add_mset (StartSettle p name) ts),
        notifyChange cb \<lparr>sc_Name = name, sc_Status = StateConnecting, sc_Error = []\<rparr> log)"
| step_finish: "tunnel_outcome t (c \<in> m_cancelled m) e \<Longrightarrow>
     Start_finish m p name (Some e) = (m', cb, change) \<Longrightarrow>
     mgr_step (m, add_mset (Goroutine p name c t) ts, log) (m', add_mset (Notify cb change) ts, log)"
| step_settle_connected: "Start_settle m p name = (m', Some (cb, change)) \<Longrightarrow>
     mgr_step (m, add_mset (StartSettle p name) ts, log) (m', add_mset (Notify cb change) ts, log)"
| step_settle_other: "Start_settle m p name = (m', None) \<Longrightarrow>
     mgr_step (m, add_mset (StartSettle p name) ts, log) (m', ts, log)"
| step_notify: "mgr_step (m, add_mset (Notify cb change) ts, log) (m, ts, notifyChange cb change log)"
| step_stop: "Stop m name = Inr (m', eph) \<Longrightarrow>
     mgr_step (m, ts, log) (m', (if eph then add_mset (DelayedDelete name) ts else ts), log)"
| step_delayed_delete:
    "mgr_step (m, add_mset (DelayedDelete name) ts, log) (delayed_delete m name, ts, log)"
| step_register: "Register gen m tc = Inr (name, m') \<Longrightarrow> mgr_step (m, ts, log) (m', ts, log)"
| step_unregister: "Unregister m name = Inr m' \<Longrightarrow> mgr_step (m, ts, log) (m', ts, log)"
| step_stop_all: "map_order iter \<Longrightarrow> mgr_step (m, ts, log) (StopAll iter m, ts, log)"
| step_set_callback: "mgr_step (m, ts, log) (SetOnChange m fn, ts, log)"

definition mgr_init :: "Config \<Rightarrow> sys \<Rightarrow> bool" where
  "mgr_init cfg s \<longleftrightarrow> s = (NewManager cfg, {#}, [])"

abbreviation mgr_reach :: "Config \<Rightarrow> sys \<Rightarrow> bool" where
  "mgr_reach cfg \<equiv> reach (mgr_init cfg) mgr_step"

end
