(* ===== verification/Manager_Inv.thy ===== *)
theory Manager_Inv
  imports Manager
begin

text \<open>
  The invariant of the tunnel manager under every interleaving of its goroutines: the map's keys
  and the configured names agree, a tunnel is active exactly while one goroutine runs it, that
  goroutine's entry stays in the map, and the cancel function of an entry is that of its own
  goroutine.
\<close>

section \<open>The invariant\<close>

text \<open>The tasks that run, or are about to run, the tunnel at a pointer.\<close>

fun live :: "ptr \<Rightarrow> task \<Rightarrow> bool" where
  "live p (StartNotify q name c cb sshHost sshUser) \<longleftrightarrow> q = p"
| "live p (Goroutine q name c t) \<longleftrightarrow> q = p"
| "live p (StartSettle q name) \<longleftrightarrow> False"
| "live p (Notify cb change) \<longleftrightarrow> False"
| "live p (DelayedDelete name) \<longleftrightarrow> False"

definition live_count :: "ptr \<Rightarrow> task multiset \<Rightarrow> nat" where
  "live_count p ts = size (filter_mset (live p) ts)"

definition configured :: "Manager \<Rightarrow> string set" where
  "configured m = tc_Name ` set (cfg_Tunnels (m_config m))"

definition map_ok :: "Manager \<Rightarrow> bool" where
  "map_ok m \<longleftrightarrow> gomap_wf (m_tunnels m) \<and>
     (\<forall>n p. lookup m n = Some p \<longrightarrow> p < m_next m \<and> tc_Name (mt_Config (m_heap m p)) = n \<and>
        (mt_Ephemeral (m_heap m p) \<longleftrightarrow> n \<notin> configured m)) \<and>
     (\<forall>n\<in>configured m. lookup m n \<noteq> None)"

definition cell_ok :: "Manager \<Rightarrow> ManagedTunnel \<Rightarrow> bool" where
  "cell_ok m mt \<longleftrightarrow> known_state (mt_Status mt) \<and>
     (case mt_cancel mt of None \<Rightarrow> \<not> IsActive (mt_Status mt)
      | Some c \<Rightarrow> IsActive (mt_Status mt) \<and> c < m_nextctx m) \<and>
     (if mt_Status mt = StateError then HasPrefix (mt_Error mt) ''unable to '' else mt_Error mt = [])"

definition heap_ok :: "Manager \<Rightarrow> bool" where
  "heap_ok m \<longleftrightarrow> (\<forall>p<m_next m. cell_ok m (m_heap m p)) \<and>
     (\<forall>p<m_next m. \<forall>q<m_next m. \<forall>c. mt_cancel (m_heap m p) = Some c \<longrightarrow>
        mt_cancel (m_heap m q) = Some c \<longrightarrow> p = q) \<and>
     (\<forall>c\<in>m_cancelled m. c < m_nextctx m)"

fun task_ok :: "Manager \<Rightarrow> task \<Rightarrow> bool" where
  "task_ok m (StartNotify p name c cb sshHost sshUser) \<longleftrightarrow>
     p < m_next m \<and> lookup m name = Some p \<and> mt_cancel (m_heap m p) = Some c"
| "task_ok m (Goroutine p name c t) \<longleftrightarrow>
     p < m_next m \<and> lookup m name = Some p \<and> mt_cancel (m_heap m p) = Some c \<and>
     tun_RemoteAddr t = tc_Remote (mt_Config (m_heap m p)) \<and>
     tun_LocalAddr t = tc_Local (mt_Config (m_heap m p))"
| "task_ok m (StartSettle p name) \<longleftrightarrow>
     p < m_next m \<and> tc_Name (mt_Config (m_heap m p)) = name"
| "task_ok m (Notify cb change) \<longleftrightarrow> known_state (sc_Status change)"
| "task_ok m (DelayedDelete name) \<longleftrightarrow> name \<notin> configured m"

definition tasks_ok :: "Manager \<Rightarrow> task multiset \<Rightarrow> bool" where
  "tasks_ok m ts \<longleftrightarrow>
     (\<forall>p<m_next m. live_count p ts = (if IsActive (status_of m p) then 1 else 0)) \<and>
     (\<forall>t\<in>#ts. task_ok m t)"

definition log_ok :: "log \<Rightarrow> bool" where
  "log_ok log \<longleftrightarrow> list_all (\<lambda>(fn, change). known_state (sc_Status change)) log"

definition mgr_inv :: "sys \<Rightarrow> bool" where
  "mgr_inv s \<longleftrightarrow>
     (case s of (m, ts, log) \<Rightarrow> map_ok m \<and> heap_ok m \<and> tasks_ok m ts \<and> log_ok log)"

section \<open>Building blocks\<close>

lemma live_count_add [simp]:
  "live_count p (add_mset t ts) = (if live p t then Suc (live_count p ts) else live_count p ts)"
  by (simp add: live_count_def)

lemma live_count_empty [simp]: "live_count p {#} = 0"
  by (simp add: live_count_def)

lemma live_count_0: "live_count p ts = 0 \<Longrightarrow> t \<in># ts \<Longrightarrow> \<not> live p t"
  by (auto simp: live_count_def filter_mset_eq_mempty_iff)

lemma tasks_ok_add:
  "tasks_ok m (add_mset t ts) \<longleftrightarrow> task_ok m t \<and> (\<forall>u\<in>#ts. task_ok m u) \<and>
     (\<forall>p<m_next m. (if live p t then Suc (live_count p ts) else live_count p ts) =
        (if IsActive (status_of m p) then 1 else 0))"
  by (auto simp: tasks_ok_def)

lemma configured_simps [simp]:
  "configured (set_cell p mt m) = configured m"
  "configured (m\<lparr>m_tunnels := x\<rparr>) = configured m"
  "configured (m\<lparr>m_nextctx := c\<rparr>) = configured m"
  "configured (m\<lparr>m_cancelled := cs\<rparr>) = configured m"
  "configured (m\<lparr>m_onChange := cb\<rparr>) = configured m"
  "configured (insert_tunnel name mt m) = configured m"
  "configured (remove_entry m name) = configured m"
  by (simp_all add: configured_def set_cell_def insert_tunnel_def remove_entry_def)

lemma set_cell_simps [simp]:
  "m_tunnels (set_cell p mt m) = m_tunnels m"
  "m_next (set_cell p mt m) = m_next m"
  "m_nextctx (set_cell p mt m) = m_nextctx m"
  "m_cancelled (set_cell p mt m) = m_cancelled m"
  "m_onChange (set_cell p mt m) = m_onChange m"
  "m_config (set_cell p mt m) = m_config m"
  "m_heap (set_cell p mt m) q = (if q = p then mt else m_heap m q)"
  by (simp_all add: set_cell_def)

lemma remove_entry_simps [simp]:
  "m_tunnels (remove_entry m name) = AList.delete name (m_tunnels m)"
  "m_next (remove_entry m name) = m_next m"
  "m_nextctx (remove_entry m name) = m_nextctx m"
  "m_cancelled (remove_entry m name) = m_cancelled m"
  "m_heap (remove_entry m name) = m_heap m"
  "m_config (remove_entry m name) = m_config m"
  by (simp_all add: remove_entry_def)

lemma insert_tunnel_simps [simp]:
  "m_tunnels (insert_tunnel name mt m) = AList.update name (m_next m) (m_tunnels m)"
  "m_next (insert_tunnel name mt m) = Suc (m_next m)"
  "m_nextctx (insert_tunnel name mt m) = m_nextctx m"
  "m_cancelled (insert_tunnel name mt m) = m_cancelled m"
  "m_heap (insert_tunnel name mt m) q = (if q = m_next m then mt else m_heap m q)"
  "m_config (insert_tunnel name mt m) = m_config m"
  by (simp_all add: insert_tunnel_def)

lemma call_cancel_simps [simp]:
  "m_tunnels (call_cancel p m) = m_tunnels m"
  "m_config (call_cancel p m) = m_config m"
  "m_onChange (call_cancel p m) = m_onChange m"
  "m_heap (call_cancel p m) = m_heap m"
  "m_next (call_cancel p m) = m_next m"
  "m_nextctx (call_cancel p m) = m_nextctx m"
  "m_cancelled (call_cancel p m) = set_option (mt_cancel (m_heap m p)) \<union> m_cancelled m"
  by (simp_all add: call_cancel_def split: option.splits)

lemma configured_call_cancel [simp]: "configured (call_cancel p m) = configured m"
  by (simp add: configured_def)

lemma map_okD:
  assumes "map_ok m" "lookup m n = Some p"
  shows "p < m_next m" "tc_Name (mt_Config (m_heap m p)) = n"
    "mt_Ephemeral (m_heap m p) \<longleftrightarrow> n \<notin> configured m"
  using assms by (auto simp: map_ok_def)

lemma map_ok_inj: "map_ok m \<Longrightarrow> lookup m n = Some p \<Longrightarrow> lookup m n' = Some p \<Longrightarrow> n = n'"
  by (metis map_okD(2))

lemma heap_okD: "heap_ok m \<Longrightarrow> p < m_next m \<Longrightarrow> cell_ok m (m_heap m p)"
  by (simp add: heap_ok_def)

lemma cell_ok_cancel:
  "cell_ok m mt \<Longrightarrow> mt_cancel mt = None \<longleftrightarrow> \<not> IsActive (mt_Status mt)"
  by (auto simp: cell_ok_def split: option.splits)

lemma cell_ok_ctx: "cell_ok m mt \<Longrightarrow> mt_cancel mt = Some c \<Longrightarrow> c < m_nextctx m"
  by (simp add: cell_ok_def)

lemma cell_ok_disconnected [simp]: "cell_ok m (disconnected_tunnel tc eph)"
  by (simp add: cell_ok_def disconnected_tunnel_def)

text \<open>A change of one cell that keeps its configuration and kind keeps the map's invariant.\<close>

lemma map_ok_set_cell:
  assumes "map_ok m" "mt_Config mt = mt_Config (m_heap m p)" "mt_Ephemeral mt = mt_Ephemeral (m_heap m p)"
  shows "map_ok (set_cell p mt m)"
  using assms by (auto simp: map_ok_def)

lemma map_ok_fields [simp]:
  "map_ok (m\<lparr>m_nextctx := c\<rparr>) = map_ok m"
  "map_ok (call_cancel p m) = map_ok m"
  "map_ok (m\<lparr>m_onChange := cb\<rparr>) = map_ok m"
  by (simp_all add: map_ok_def)

lemma cell_ok_fields [simp]:
  "cell_ok (set_cell p mt' m) mt = cell_ok m mt"
  "cell_ok (call_cancel q m) mt = cell_ok m mt"
  "cell_ok (m\<lparr>m_onChange := cb\<rparr>) mt = cell_ok m mt"
  "cell_ok (remove_entry m name) mt = cell_ok m mt"
  "cell_ok (insert_tunnel name mt' m) mt = cell_ok m mt"
  by (simp_all add: cell_ok_def split: option.splits)

lemma task_ok_fields [simp]:
  "task_ok (m\<lparr>m_nextctx := c\<rparr>) t = task_ok m t"
  "task_ok (call_cancel q m) t = task_ok m t"
  "task_ok (m\<lparr>m_onChange := cb\<rparr>) t = task_ok m t"
  by (cases t; simp)+

lemma tasks_ok_fields [simp]:
  "tasks_ok (call_cancel q m) ts = tasks_ok m ts"
  "tasks_ok (m\<lparr>m_onChange := cb\<rparr>) ts = tasks_ok m ts"
  by (simp_all add: tasks_ok_def)

text \<open>A cell that no task runs may change freely, as long as its configuration stays.\<close>

lemma task_ok_set_cell:
  assumes "task_ok m t" "\<not> live p t" "mt_Config mt = mt_Config (m_heap m p)"
  shows "task_ok (set_cell p mt m) t"
  using assms by (cases t) auto

lemma heap_ok_set_cell:
  assumes "heap_ok m" "cell_ok m mt"
    and "\<And>q c. q < m_next m \<Longrightarrow> q \<noteq> p \<Longrightarrow> mt_cancel mt = Some c \<Longrightarrow> mt_cancel (m_heap m q) \<noteq> Some c"
  shows "heap_ok (set_cell p mt m)"
  using assms by (auto simp: heap_ok_def)

lemma heap_ok_onChange [simp]: "heap_ok (m\<lparr>m_onChange := cb\<rparr>) = heap_ok m"
  by (simp add: heap_ok_def)

section \<open>Every section keeps the invariant\<close>

lemma cell_ok_mono: "cell_ok m mt \<Longrightarrow> cell_ok (m\<lparr>m_nextctx := Suc (m_nextctx m)\<rparr>) mt"
  by (auto simp: cell_ok_def split: option.splits)

lemma heap_ok_nextctx: "heap_ok m \<Longrightarrow> heap_ok (m\<lparr>m_nextctx := Suc (m_nextctx m)\<rparr>)"
  by (auto simp: heap_ok_def cell_ok_mono)

lemma inv_start:
  assumes inv: "mgr_inv (m, ts, log)" and st: "Start_begin m name now = Inr (p, c, cb, m')"
  shows "mgr_inv (m', add_mset (StartNotify p name c cb sshHost sshUser) ts, log)"
proof -
  let ?m1 = "m\<lparr>m_nextctx := Suc (m_nextctx m)\<rparr>"
  let ?mt = "(m_heap m p)\<lparr>mt_Status := StateConnecting, mt_Error := [], mt_startedAt := now,
    mt_cancel := Some (m_nextctx m)\<rparr>"
  from st have p: "lookup m name = Some p" and c: "c = m_nextctx m"
    and idle: "\<not> IsActive (status_of m p)" and m': "m' = set_cell p ?mt ?m1"
    by (auto simp: Start_begin_def set_cell_def split: option.splits if_splits)
  from inv have mo: "map_ok m" and ho: "heap_ok m" and tk: "tasks_ok m ts" and lo: "log_ok log"
    by (auto simp: mgr_inv_def)
  from mo p have pn: "p < m_next m" by (rule map_okD)
  have "map_ok m'" unfolding m' using mo by (intro map_ok_set_cell) simp_all
  moreover have "heap_ok m'" unfolding m'
  proof (rule heap_ok_set_cell)
    show "heap_ok ?m1" using ho by (rule heap_ok_nextctx)
    show "cell_ok ?m1 ?mt" by (simp add: cell_ok_def)
    show "mt_cancel (m_heap ?m1 q) \<noteq> Some c" if "q < m_next ?m1" "mt_cancel ?mt = Some c" for q c
      using heap_okD[OF ho, of q] that by (auto simp: cell_ok_def split: option.splits)
  qed
  moreover have "tasks_ok m' (add_mset (StartNotify p name c cb sshHost sshUser) ts)"
  proof -
    from tk pn idle have "live_count p ts = 0" by (simp add: tasks_ok_def)
    moreover from this tk have "\<forall>u\<in>#ts. task_ok m' u"
      unfolding m' by (auto simp: tasks_ok_def dest: live_count_0 intro!: task_ok_set_cell)
    ultimately show ?thesis using tk p pn by (auto simp: tasks_ok_add tasks_ok_def m' c)
  qed
  ultimately show ?thesis using lo by (simp add: mgr_inv_def)
qed

lemma inv_spawn:
  assumes "mgr_inv (m, add_mset (StartNotify p name c cb sshHost sshUser) ts, log)"
    and "known_state (sc_Status change)"
  shows "mgr_inv (m, add_mset (Goroutine p name c (tunnel_of (m_heap m p) sshHost sshUser))
           (add_mset (StartSettle p name) ts), notifyChange cb change log)"
proof -
  let ?old = "add_mset (StartNotify p name c cb sshHost sshUser) ts"
  let ?new = "add_mset (Goroutine p name c (tunnel_of (m_heap m p) sshHost sshUser))
    (add_mset (StartSettle p name) ts)"
  have "live_count q ?new = live_count q ?old" for q by simp
  moreover from assms(1) have "map_ok m" "lookup m name = Some p" by (auto simp: mgr_inv_def tasks_ok_add)
  then have "tc_Name (mt_Config (m_heap m p)) = name" by (rule map_okD)
  moreover from assms(1) have "\<forall>u\<in>#?old. task_ok m u" by (simp add: mgr_inv_def tasks_ok_def)
  ultimately have "tasks_ok m ?new"
    using assms(1) by (simp add: mgr_inv_def tasks_ok_def tunnel_of_def del: live_count_add)
  with assms show ?thesis
    by (auto simp: mgr_inv_def log_ok_def notifyChange_def split: option.splits)
qed

lemma HasPrefix_unable: "e \<noteq> ErrTunnelClosed \<Longrightarrow> HasPrefix (start_error_text e) ''unable to ''"
  by (cases e) auto

lemma inv_finish:
  assumes inv: "mgr_inv (m, add_mset (Goroutine p name c t) ts, log)"
    and fin: "Start_finish m p name (Some e) = (m', cb, change)"
  shows "mgr_inv (m', add_mset (Notify cb change) ts, log)"
proof -
  let ?mt = "(if e \<noteq> ErrTunnelClosed
      then (m_heap m p)\<lparr>mt_Status := StateError, mt_Error := start_error_text e\<rparr>
      else (m_heap m p)\<lparr>mt_Status := StateDisconnected, mt_Error := []\<rparr>)\<lparr>mt_cancel := None\<rparr>"
  from fin have m': "m' = set_cell p ?mt m"
    and ch: "change = \<lparr>sc_Name = name, sc_Status = mt_Status ?mt, sc_Error = mt_Error ?mt\<rparr>"
    by (auto simp: Start_finish_def Let_def)
  have idle: "\<not> IsActive (mt_Status ?mt)" and cfg: "mt_Config ?mt = mt_Config (m_heap m p)" by auto
  from inv have mo: "map_ok m" and ho: "heap_ok m" and lo: "log_ok log"
    and tk: "tasks_ok m (add_mset (Goroutine p name c t) ts)" by (auto simp: mgr_inv_def)
  from tk have pn: "p < m_next m" by (simp add: tasks_ok_add)
  have "map_ok m'" unfolding m' using mo by (intro map_ok_set_cell) auto
  moreover have "heap_ok m'" unfolding m'
    using ho by (intro heap_ok_set_cell) (auto simp: cell_ok_def HasPrefix_unable)
  moreover have "tasks_ok m' (add_mset (Notify cb change) ts)"
  proof -
    from tk pn have "live_count p ts = 0" by (auto simp: tasks_ok_add split: if_splits)
    moreover from this tk have "\<forall>u\<in>#ts. task_ok m' u"
      unfolding m' using cfg by (auto simp: tasks_ok_add dest: live_count_0 intro!: task_ok_set_cell)
    moreover have "task_ok m' (Notify cb change)" by (auto simp: ch)
    moreover have "live_count q ts = (if IsActive (status_of m' q) then 1 else 0)"
      if "q < m_next m'" "q \<noteq> p" for q
      using tk that by (auto simp: tasks_ok_add m')
    ultimately show ?thesis using idle by (auto simp: tasks_ok_add m')
  qed
  ultimately show ?thesis using lo by (simp add: mgr_inv_def)
qed

lemma inv_settle:
  assumes inv: "mgr_inv (m, add_mset (StartSettle p name) ts, log)"
    and fin: "Start_settle m p name = (m', r)"
  shows "mgr_inv (m', (case r of None \<Rightarrow> ts | Some (cb, change) \<Rightarrow> add_mset (Notify cb change) ts), log)"
proof (cases "status_of m p = StateConnecting")
  case False
  with fin have "m' = m" "r = None" by (simp_all add: Start_settle_def)
  with inv show ?thesis by (auto simp: mgr_inv_def tasks_ok_add tasks_ok_def)
next
  case True
  let ?mt = "(m_heap m p)\<lparr>mt_Status := StateConnected\<rparr>"
  from fin True have m': "m' = set_cell p ?mt m"
    and r: "r = Some (m_onChange m, \<lparr>sc_Name = name, sc_Status = StateConnected, sc_Error = []\<rparr>)"
    by (simp_all add: Start_settle_def)
  from inv have mo: "map_ok m" and ho: "heap_ok m" and lo: "log_ok log"
    and tk: "tasks_ok m (add_mset (StartSettle p name) ts)" by (auto simp: mgr_inv_def)
  from tk have pn: "p < m_next m" by (simp add: tasks_ok_add)
  have "map_ok m'" unfolding m' using mo by (intro map_ok_set_cell) auto
  moreover have "heap_ok m'" unfolding m'
    using ho heap_okD[OF ho pn] True pn
    by (intro heap_ok_set_cell) (auto simp: cell_ok_def heap_ok_def split: option.splits)
  moreover have "task_ok m' u" if "task_ok m u" for u using that by (cases u) (auto simp: m')
  then have "tasks_ok m' (add_mset (Notify (m_onChange m)
      \<lparr>sc_Name = name, sc_Status = StateConnected, sc_Error = []\<rparr>) ts)"
    using tk True by (auto simp: tasks_ok_add m')
  ultimately show ?thesis using lo by (simp add: mgr_inv_def r)
qed

lemma inv_notify:
  "mgr_inv (m, add_mset (Notify cb change) ts, log) \<Longrightarrow> mgr_inv (m, ts, notifyChange cb change log)"
  by (auto simp: mgr_inv_def tasks_ok_add tasks_ok_def log_ok_def notifyChange_def split: option.splits)

lemma heap_ok_call_cancel: "heap_ok m \<Longrightarrow> p < m_next m \<Longrightarrow> heap_ok (call_cancel p m)"
  by (auto simp: heap_ok_def dest: cell_ok_ctx)

lemma inv_call_cancel: "mgr_inv (m, ts, log) \<Longrightarrow> p < m_next m \<Longrightarrow> mgr_inv (call_cancel p m, ts, log)"
  by (simp add: mgr_inv_def heap_ok_call_cancel)

lemma inv_stop:
  assumes inv: "mgr_inv (m, ts, log)" and st: "Stop m name = Inr (m', eph)"
  shows "mgr_inv (m', (if eph then add_mset (DelayedDelete name) ts else ts), log)"
proof -
  from st obtain p where p: "lookup m name = Some p" and eph: "eph = mt_Ephemeral (m_heap m p)"
    and m': "m' = call_cancel p m"
    by (auto simp: Stop_def split: option.splits if_splits)
  from inv have mo: "map_ok m" by (simp add: mgr_inv_def)
  from map_okD[OF mo p] have "p < m_next m" and ephd: "eph \<longleftrightarrow> name \<notin> configured m"
    by (simp_all add: eph)
  with inv have "mgr_inv (m', ts, log)" by (simp add: m' inv_call_cancel)
  then show ?thesis using ephd by (auto simp: mgr_inv_def tasks_ok_add tasks_ok_def m')
qed

lemma inv_remove:
  assumes inv: "mgr_inv (m, ts, log)" and p: "lookup m name = Some p"
    and idle: "\<not> IsActive (status_of m p)" and eph: "name \<notin> configured m"
  shows "mgr_inv (remove_entry m name, ts, log)"
proof -
  from inv have mo: "map_ok m" and ho: "heap_ok m" and tk: "tasks_ok m ts" and lo: "log_ok log"
    by (auto simp: mgr_inv_def)
  from mo p have pn: "p < m_next m" by (rule map_okD)
  with tk idle have "live_count p ts = 0" by (simp add: tasks_ok_def)
  then have nl: "u \<in># ts \<Longrightarrow> \<not> live p u" for u by (rule live_count_0)
  have "map_ok (remove_entry m name)"
    using mo eph by (auto simp: map_ok_def)
  moreover have "heap_ok (remove_entry m name)" using ho by (simp add: heap_ok_def)
  moreover have "task_ok (remove_entry m name) u" if "u \<in># ts" for u
  proof -
    from tk that have "task_ok m u" by (simp add: tasks_ok_def)
    with nl[OF that] p show ?thesis by (cases u) auto
  qed
  with tk have "tasks_ok (remove_entry m name) ts" by (simp add: tasks_ok_def)
  ultimately show ?thesis using lo by (simp add: mgr_inv_def)
qed

lemma inv_delayed_delete:
  assumes "mgr_inv (m, add_mset (DelayedDelete name) ts, log)"
  shows "mgr_inv (delayed_delete m name, ts, log)"
proof -
  from assms have "mgr_inv (m, ts, log)" and "name \<notin> configured m"
    by (auto simp: mgr_inv_def tasks_ok_add tasks_ok_def)
  then show ?thesis by (auto simp: delayed_delete_def inv_remove split: option.splits)
qed

lemma inv_unregister: "mgr_inv (m, ts, log) \<Longrightarrow> Unregister m name = Inr m' \<Longrightarrow> mgr_inv (m', ts, log)"
  by (auto simp: Unregister_def mgr_inv_def[of "(m, ts, log)"] dest: map_okD(3)
      intro!: inv_remove split: option.splits if_splits)

lemma inv_insert:
  assumes inv: "mgr_inv (m, ts, log)" and fresh: "lookup m name = None"
    and nm: "tc_Name tc = name"
  shows "mgr_inv (insert_tunnel name (disconnected_tunnel tc True) m, ts, log)"
proof -
  let ?m = "insert_tunnel name (disconnected_tunnel tc True) m"
  from inv have mo: "map_ok m" and ho: "heap_ok m" and tk: "tasks_ok m ts" and lo: "log_ok log"
    by (auto simp: mgr_inv_def)
  from mo fresh have "name \<notin> configured m" by (auto simp: map_ok_def)
  then have "map_ok ?m"
    using mo nm by (auto simp: map_ok_def disconnected_tunnel_def less_Suc_eq)
  moreover have "heap_ok ?m"
    using ho by (auto simp: heap_ok_def less_Suc_eq) (simp_all add: disconnected_tunnel_def)
  moreover have ok: "task_ok ?m u" if "u \<in># ts" for u
    using tk that fresh by (cases u) (auto simp: tasks_ok_def)
  have "\<not> live (m_next m) u" if "u \<in># ts" for u
    using tk that by (cases u) (auto simp: tasks_ok_def)
  then have "live_count (m_next m) ts = 0" by (simp add: live_count_def filter_mset_eq_mempty_iff)
  with tk ok have "tasks_ok ?m ts"
    by (auto simp: tasks_ok_def less_Suc_eq disconnected_tunnel_def)
  ultimately show ?thesis using lo by (simp add: mgr_inv_def)
qed

lemma inv_register: "mgr_inv (m, ts, log) \<Longrightarrow> Register gen m tc = Inr (name, m') \<Longrightarrow> mgr_inv (m', ts, log)"
  by (auto simp: Register_def Let_def has_tunnel_def intro!: inv_insert split: if_splits)

lemma inv_stop_all_fold:
  "mgr_inv (m, ts, log) \<Longrightarrow> (\<forall>(n, p)\<in>set es. p < m_next m) \<Longrightarrow>
   mgr_inv (fold (\<lambda>(n, p). call_cancel p) es m, ts, log)"
proof (induction es arbitrary: m)
  case Nil
  then show ?case by simp
next
  case (Cons e es)
  obtain n p where e: "e = (n, p)" by (cases e)
  with Cons.prems have "mgr_inv (call_cancel p m, ts, log)" by (simp add: inv_call_cancel)
  with Cons.IH[of "call_cancel p m"] Cons.prems(2) e show ?case by simp
qed

lemma inv_stop_all:
  assumes "mgr_inv (m, ts, log)" "map_order iter"
  shows "mgr_inv (StopAll iter m, ts, log)"
  unfolding StopAll_def
proof (rule inv_stop_all_fold[OF assms(1)])
  from assms(1) have mo: "map_ok m" by (simp add: mgr_inv_def)
  then have "lookup m n = Some p" if "(n, p) \<in> set (m_tunnels m)" for n p
    using that by (simp add: map_ok_def gomap_in_set_iff)
  with mo show "\<forall>(n, p)\<in>set (iter (m_tunnels m)). p < m_next m"
    using assms(2) by (auto dest: map_okD)
qed

lemma inv_set_callback: "mgr_inv (m, ts, log) \<Longrightarrow> mgr_inv (SetOnChange m fn, ts, log)"
  by (simp add: mgr_inv_def SetOnChange_def)

lemma mgr_step_inv: "mgr_step s s' \<Longrightarrow> mgr_inv s \<Longrightarrow> mgr_inv s'"
proof (induction rule: mgr_step.induct)
  case (step_start m name now p c cb m' ts log sshHost sshUser)
  then show ?case by (rule inv_start[rotated])
next
  case (step_spawn m p name c cb sshHost sshUser ts log)
  then show ?case by (rule inv_spawn) simp
next
  case (step_finish t c m e p name m' cb change ts log)
  then show ?case by (blast intro: inv_finish)
next
  case (step_settle_connected m p name m' cb change ts log)
  then show ?case using inv_settle by fastforce
next
  case (step_settle_other m p name m' ts log)
  then show ?case using inv_settle by fastforce
next
  case (step_notify m cb change ts log)
  then show ?case by (rule inv_notify)
next
  case (step_stop m name m' eph ts log)
  then show ?case by (rule inv_stop[rotated])
next
  case (step_delayed_delete m name ts log)
  then show ?case by (rule inv_delayed_delete)
next
  case (step_register gen m tc name m' ts log)
  then show ?case by (rule inv_register[rotated])
next
  case (step_unregister m name m' ts log)
  then show ?case by (rule inv_unregister[rotated])
next
  case (step_stop_all iter m ts log)
  then show ?case by (rule inv_stop_all[rotated])
next
  case (step_set_callback m ts log fn)
  then show ?case by (rule inv_set_callback)
qed

section \<open>The initial state\<close>

text \<open>What the loop of \<^verbatim>\<open>NewManager\<close> has built after the tunnels \<open>tcs\<close>.\<close>

definition built :: "TunnelConfig list \<Rightarrow> Manager \<Rightarrow> bool" where
  "built tcs m \<longleftrightarrow> gomap_wf (m_tunnels m) \<and> m_cancelled m = {} \<and> m_nextctx m = 0 \<and>
     m_onChange m = None \<and> dom (lookup m) = tc_Name ` set tcs \<and>
     (\<forall>n p. lookup m n = Some p \<longrightarrow> p < m_next m \<and> tc_Name (mt_Config (m_heap m p)) = n) \<and>
     (\<forall>p<m_next m. \<exists>tc. m_heap m p = disconnected_tunnel tc False)"

lemma built_insert:
  assumes "built tcs m"
  shows "built (tcs @ [tc]) (insert_tunnel (tc_Name tc) (disconnected_tunnel tc False) m)"
  using assms
  by (auto simp: built_def less_Suc_eq dom_def disconnected_tunnel_def insert_tunnel_def image_iff)

lemma built_fold:
  "built tcs m \<Longrightarrow>
   built (tcs @ tcs') (fold (\<lambda>tc. insert_tunnel (tc_Name tc) (disconnected_tunnel tc False)) tcs' m)"
proof (induction tcs' arbitrary: tcs m)
  case Nil
  then show ?case by simp
next
  case (Cons tc tcs')
  from Cons.IH[OF built_insert[OF Cons.prems, of tc]] show ?case by simp
qed

lemma built_NewManager: "built (cfg_Tunnels cfg) (NewManager cfg)"
  using built_fold[of "[]" "empty_manager cfg" "cfg_Tunnels cfg"]
  by (simp add: NewManager_def built_def empty_manager_def)

lemma m_config_fold [simp]:
  "m_config (fold (\<lambda>tc. insert_tunnel (tc_Name tc) (disconnected_tunnel tc False)) tcs m) = m_config m"
  by (induction tcs arbitrary: m) auto

lemma m_config_NewManager [simp]: "m_config (NewManager cfg) = cfg"
  by (simp add: NewManager_def empty_manager_def)

lemma inv_NewManager: "mgr_inv (NewManager cfg, {#}, [])"
proof -
  let ?m = "NewManager cfg"
  have b: "built (cfg_Tunnels cfg) ?m" by (rule built_NewManager)
  have conf: "configured ?m = tc_Name ` set (cfg_Tunnels cfg)" by (simp add: configured_def)
  have cells: "\<exists>tc. m_heap ?m p = disconnected_tunnel tc False" if "p < m_next ?m" for p
    using b that by (simp add: built_def)
  have eph: "\<not> mt_Ephemeral (m_heap ?m p)" "mt_cancel (m_heap ?m p) = None"
    "\<not> IsActive (status_of ?m p)" if "p < m_next ?m" for p
    using cells[OF that] by (auto simp: disconnected_tunnel_def)
  have "map_ok ?m"
    unfolding map_ok_def conf
  proof (intro conjI allI impI ballI)
    show "gomap_wf (m_tunnels ?m)" using b by (simp add: built_def)
  next
    fix n p assume np: "lookup ?m n = Some p"
    then show p: "p < m_next ?m" and "tc_Name (mt_Config (m_heap ?m p)) = n"
      using b by (simp_all add: built_def)
    from np have "n \<in> dom (lookup ?m)" by auto
    then have "n \<in> tc_Name ` set (cfg_Tunnels cfg)" using b by (simp add: built_def)
    with eph(1)[OF p] show "mt_Ephemeral (m_heap ?m p) \<longleftrightarrow> n \<notin> tc_Name ` set (cfg_Tunnels cfg)"
      by simp
  next
    fix n assume "n \<in> tc_Name ` set (cfg_Tunnels cfg)"
    then have "n \<in> dom (lookup ?m)" using b by (simp add: built_def)
    then show "lookup ?m n \<noteq> None" by auto
  qed
  moreover have "cell_ok ?m (m_heap ?m p)" if "p < m_next ?m" for p
    using cells[OF that] by auto
  then have "heap_ok ?m" using b eph(2) by (simp add: heap_ok_def built_def)
  moreover have "tasks_ok ?m {#}" using eph(3) by (simp add: tasks_ok_def)
  ultimately show ?thesis by (simp add: mgr_inv_def log_ok_def)
qed

interpretation mgr: invariant_system "mgr_init cfg" mgr_step mgr_inv
  by unfold_locales (auto simp: mgr_init_def inv_NewManager intro: mgr_step_inv)

end
