(* ===== verification/Manager_Spec.thy ===== *)
theory Manager_Spec
  imports Manager_Inv
begin

text \<open>
  What the tunnel manager promises: an abstract lifecycle that it refines, and the properties of
  its operations that follow from the invariant, for every interleaving of the goroutines.
\<close>

section \<open>The abstract lifecycle\<close>

text \<open>
  Abstractly the manager is a finite map from names to states.  A new entry is disconnected; an
  inactive entry can be removed or start connecting; a connecting one becomes connected; an active
  one ends disconnected or in error.
\<close>

type_synonym lifecycle = "string \<rightharpoonup> State"

inductive life_step :: "lifecycle \<Rightarrow> lifecycle \<Rightarrow> bool" where
  life_add: "f n = None \<Longrightarrow> life_step f (f(n \<mapsto> StateDisconnected))"
| life_remove: "f n = Some s \<Longrightarrow> \<not> IsActive s \<Longrightarrow> life_step f (f(n := None))"
| life_connect: "f n = Some s \<Longrightarrow> \<not> IsActive s \<Longrightarrow> life_step f (f(n \<mapsto> StateConnecting))"
| life_establish: "f n = Some StateConnecting \<Longrightarrow> life_step f (f(n \<mapsto> StateConnected))"
| life_close: "f n = Some s \<Longrightarrow> IsActive s \<Longrightarrow> life_step f (f(n \<mapsto> StateDisconnected))"
| life_fail: "f n = Some s \<Longrightarrow> IsActive s \<Longrightarrow> life_step f (f(n \<mapsto> StateError))"

definition life_init :: "lifecycle \<Rightarrow> bool" where
  "life_init f \<longleftrightarrow> (\<forall>n s. f n = Some s \<longrightarrow> s = StateDisconnected)"

definition life_of :: "Manager \<Rightarrow> lifecycle" where
  "life_of m n = map_option (status_of m) (lookup m n)"

definition abs_sys :: "sys \<Rightarrow> lifecycle" where
  "abs_sys s = life_of (fst s)"

lemma life_of_set_cell:
  assumes mo: "map_ok m" and p: "lookup m n = Some p"
  shows "life_of (set_cell p mt m) = (life_of m)(n \<mapsto> mt_Status mt)"
proof
  fix n'
  show "life_of (set_cell p mt m) n' = ((life_of m)(n \<mapsto> mt_Status mt)) n'"
  proof (cases "n' = n")
    case True
    with p show ?thesis by (simp add: life_of_def)
  next
    case False
    with map_ok_inj[OF mo p, of n'] have "lookup m n' \<noteq> Some p" by auto
    with False show ?thesis by (cases "lookup m n'") (simp_all add: life_of_def)
  qed
qed

lemma life_of_fields [simp]:
  "life_of (m\<lparr>m_nextctx := c\<rparr>) = life_of m"
  "life_of (m\<lparr>m_onChange := cb\<rparr>) = life_of m"
  "life_of (call_cancel p m) = life_of m"
  by (simp_all add: life_of_def fun_eq_iff)

lemma life_of_remove [simp]: "life_of (remove_entry m name) = (life_of m)(name := None)"
  by (auto simp: life_of_def fun_eq_iff)

lemma life_of_insert:
  assumes "map_ok m"
  shows "life_of (insert_tunnel name mt m) = (life_of m)(name \<mapsto> mt_Status mt)"
proof
  fix n
  show "life_of (insert_tunnel name mt m) n = ((life_of m)(name \<mapsto> mt_Status mt)) n"
    using assms by (cases "lookup m n") (auto simp: life_of_def dest: map_okD(1))
qed

lemma life_of_stop_all [simp]: "life_of (StopAll iter m) = life_of m"
proof -
  have "life_of (fold (\<lambda>(n, p). call_cancel p) es m) = life_of m" for es
    by (induction es arbitrary: m) auto
  then show ?thesis by (simp add: StopAll_def)
qed

lemma live_entry:
  assumes "mgr_inv (m, ts, log)" "t \<in># ts" "live p t"
  shows "p < m_next m \<and> IsActive (status_of m p) \<and> lookup m (tc_Name (mt_Config (m_heap m p))) = Some p"
proof -
  from assms have "task_ok m t" and "map_ok m" and "heap_ok m" by (auto simp: mgr_inv_def tasks_ok_def)
  with assms(3) obtain n c where "p < m_next m" "lookup m n = Some p" "mt_cancel (m_heap m p) = Some c"
    by (cases t) auto
  moreover from this \<open>heap_ok m\<close> have "IsActive (status_of m p)"
    using cell_ok_cancel[OF heap_okD] by (metis option.distinct(1))
  ultimately show ?thesis using \<open>map_ok m\<close> map_okD(2) by metis
qed

lemma active_entry:
  assumes "mgr_inv (m, ts, log)" "p < m_next m" "IsActive (status_of m p)"
  shows "lookup m (tc_Name (mt_Config (m_heap m p))) = Some p"
proof -
  from assms have "live_count p ts = 1" by (auto simp: mgr_inv_def tasks_ok_def)
  then obtain t where "t \<in># ts" "live p t"
    by (metis filter_mset_eq_mempty_iff live_count_def size_empty zero_neq_one)
  with assms(1) show ?thesis using live_entry by blast
qed

text \<open>What the three locked sections of \<^verbatim>\<open>Start\<close> do to the abstract state.\<close>

lemma life_Start_begin:
  assumes "map_ok m" and "Start_begin m name now = Inr (p, c, cb, m')"
  shows "\<exists>st. life_of m name = Some st \<and> \<not> IsActive st \<and>
    life_of m' = (life_of m)(name \<mapsto> StateConnecting)"
proof -
  from assms(2) obtain mt where p: "lookup m name = Some p" and idle: "\<not> IsActive (status_of m p)"
    and m': "m' = (set_cell p mt m)\<lparr>m_nextctx := m_nextctx m + 1\<rparr>" and mt: "mt_Status mt = StateConnecting"
    by (auto simp: Start_begin_def split: option.splits if_splits)
  have "life_of m' = (life_of m)(name \<mapsto> StateConnecting)"
    using life_of_set_cell[OF assms(1) p, of mt] mt by (simp only: m' life_of_fields)
  with p idle show ?thesis by (simp add: life_of_def)
qed

lemma life_Start_finish:
  assumes inv: "mgr_inv (m, ts, log)" and t: "Goroutine p name c t \<in># ts"
    and fin: "Start_finish m p name (Some e) = (m', cb, change)"
  shows "\<exists>st. life_of m name = Some st \<and> IsActive st \<and> life_of m' = (life_of m)(name \<mapsto>
    (if e = ErrTunnelClosed then StateDisconnected else StateError))"
proof -
  from inv t have mo: "map_ok m" and p: "lookup m name = Some p"
    by (auto simp: mgr_inv_def tasks_ok_def)
  have act: "IsActive (status_of m p)" using live_entry[OF inv t, of p] by simp
  from fin obtain mt where m': "m' = set_cell p mt m"
    and mt: "mt_Status mt = (if e = ErrTunnelClosed then StateDisconnected else StateError)"
    by (auto simp: Start_finish_def Let_def)
  have "life_of m' = (life_of m)(name \<mapsto> mt_Status mt)"
    unfolding m' using mo p by (rule life_of_set_cell)
  with p act show ?thesis by (simp only: mt) (simp add: life_of_def)
qed

lemma life_Start_settle:
  assumes inv: "mgr_inv (m, ts, log)" and t: "StartSettle p name \<in># ts"
    and settle: "Start_settle m p name = (m', change)"
  shows "(status_of m p = StateConnecting \<longrightarrow> life_of m name = Some StateConnecting) \<and>
    life_of m' = (if status_of m p = StateConnecting then (life_of m)(name \<mapsto> StateConnected)
      else life_of m)"
proof (cases "status_of m p = StateConnecting")
  case True
  from inv t have mo: "map_ok m" and pn: "p < m_next m" and n: "tc_Name (mt_Config (m_heap m p)) = name"
    by (auto simp: mgr_inv_def tasks_ok_def)
  have p: "lookup m name = Some p" using active_entry[OF inv pn] True n by simp
  from settle True have m': "m' = set_cell p ((m_heap m p)\<lparr>mt_Status := StateConnected\<rparr>) m"
    by (auto simp: Start_settle_def split: if_splits)
  have "life_of m' = (life_of m)(name \<mapsto> StateConnected)"
    unfolding m' using life_of_set_cell[OF mo p] by simp
  with True p show ?thesis by (simp add: life_of_def)
next
  case False
  with settle show ?thesis by (auto simp: Start_settle_def split: if_splits)
qed

lemma mgr_sim:
  assumes "mgr_inv s" and "mgr_step s s'"
  shows "abs_sys s' = abs_sys s \<or> life_step (abs_sys s) (abs_sys s')"
  using assms(2,1)
proof (induction rule: mgr_step.induct)
  case (step_start m name now p c cb m' ts log sshHost sshUser)
  then have "map_ok m" by (simp add: mgr_inv_def)
  from life_Start_begin[OF this step_start.hyps] show ?case
    unfolding abs_sys_def fst_conv by (metis life_connect)
next
  case (step_finish t c m e p name m' cb change ts log)
  from life_Start_finish[OF step_finish.prems _ step_finish.hyps(2)] show ?case
    unfolding abs_sys_def fst_conv by (simp split: if_splits) (metis life_close life_fail)
next
  case (step_settle_connected m p name m' cb change ts log)
  from life_Start_settle[OF step_settle_connected.prems _ step_settle_connected.hyps] show ?case
    unfolding abs_sys_def fst_conv by (metis life_establish union_single_eq_member)
next
  case (step_settle_other m p name m' ts log)
  then show ?case by (auto simp: abs_sys_def Start_settle_def split: if_splits)
next
  case (step_stop m name m' eph ts log)
  then show ?case by (auto simp: abs_sys_def Stop_def split: option.splits if_splits)
next
  case (step_delayed_delete m name ts log)
  show ?case
  proof (cases "delayed_delete m name = m")
    case False
    then obtain p where p: "lookup m name = Some p" "\<not> IsActive (status_of m p)"
      and m': "delayed_delete m name = remove_entry m name"
      by (auto simp: delayed_delete_def split: option.splits if_splits)
    have "life_step (life_of m) ((life_of m)(name := None))"
      using p by (intro life_remove[where s = "status_of m p"]) (simp_all add: life_of_def)
    then show ?thesis by (simp only: abs_sys_def fst_conv m' life_of_remove simp_thms)
  qed (simp add: abs_sys_def)
next
  case (step_register gen m tc name m' ts log)
  then have mo: "map_ok m" by (simp add: mgr_inv_def)
  from step_register.hyps have fresh: "lookup m name = None"
    and m': "m' = insert_tunnel name (disconnected_tunnel (tc\<lparr>tc_Name := name\<rparr>) True) m"
    by (auto simp: Register_def Let_def has_tunnel_def split: if_splits)
  have "life_step (life_of m) ((life_of m)(name \<mapsto> StateDisconnected))"
    using fresh by (intro life_add) (simp add: life_of_def)
  moreover have "life_of m' = (life_of m)(name \<mapsto> StateDisconnected)"
    unfolding m' life_of_insert[OF mo] by (simp add: disconnected_tunnel_def)
  ultimately show ?case by (simp only: abs_sys_def fst_conv simp_thms)
next
  case (step_unregister m name m' ts log)
  then obtain p where p: "lookup m name = Some p" "\<not> IsActive (status_of m p)" and m': "m' = remove_entry m name"
    by (auto simp: Unregister_def split: option.splits if_splits)
  have "life_step (life_of m) ((life_of m)(name := None))"
    using p by (intro life_remove[where s = "status_of m p"]) (simp_all add: life_of_def)
  then show ?case by (simp only: abs_sys_def fst_conv m' life_of_remove simp_thms)
qed (simp_all add: abs_sys_def SetOnChange_def)

lemma life_init_NewManager: "life_init (life_of (NewManager cfg))"
proof -
  have "status_of (NewManager cfg) p = StateDisconnected" if "lookup (NewManager cfg) n = Some p" for n p
  proof -
    from built_NewManager[of cfg] that have "p < m_next (NewManager cfg)" by (simp add: built_def)
    with built_NewManager[of cfg] obtain tc where "m_heap (NewManager cfg) p = disconnected_tunnel tc False"
      by (auto simp: built_def)
    then show ?thesis by (simp add: disconnected_tunnel_def)
  qed
  then show ?thesis by (auto simp: life_init_def life_of_def)
qed

interpretation mgr_life: refinement_system "mgr_init cfg" mgr_step mgr_inv abs_sys life_init life_step
  by unfold_locales (auto simp: mgr_init_def abs_sys_def life_init_NewManager dest: mgr_sim[unfolded abs_sys_def])

section \<open>Configured tunnels\<close>

text \<open>The configuration never changes, and neither do the entries made from it.\<close>

definition config_kept :: "Config \<Rightarrow> sys \<Rightarrow> bool" where
  "config_kept cfg s \<longleftrightarrow> (case s of (m, ts, log) \<Rightarrow> m_config m = cfg \<and>
     (\<forall>n\<in>tc_Name ` set (cfg_Tunnels cfg). GetConfig m n = GetConfig (NewManager cfg) n))"

lemma GetConfig_set_cell:
  assumes "mt_Config mt = mt_Config (m_heap m p)"
  shows "GetConfig (set_cell p mt m) n = GetConfig m n"
  using assms by (cases "lookup m n") (auto simp: GetConfig_def)

lemma GetConfig_fields [simp]:
  "GetConfig (m\<lparr>m_nextctx := c\<rparr>) n = GetConfig m n"
  "GetConfig (m\<lparr>m_onChange := cb\<rparr>) n = GetConfig m n"
  "GetConfig (call_cancel p m) n = GetConfig m n"
  "GetConfig (remove_entry m name) n = (if n = name then None else GetConfig m n)"
  by (simp_all add: GetConfig_def)

lemma GetConfig_insert:
  "map_ok m \<Longrightarrow> n \<noteq> name \<Longrightarrow> GetConfig (insert_tunnel name mt m) n = GetConfig m n"
  by (cases "lookup m n") (auto simp: GetConfig_def dest: map_okD(1))

lemma stop_all_fields [simp]:
  "m_tunnels (StopAll iter m) = m_tunnels m"
  "m_heap (StopAll iter m) = m_heap m"
  "m_config (StopAll iter m) = m_config m"
proof -
  have "m_tunnels (fold (\<lambda>(n, p). call_cancel p) es m) = m_tunnels m \<and>
    m_heap (fold (\<lambda>(n, p). call_cancel p) es m) = m_heap m \<and>
    m_config (fold (\<lambda>(n, p). call_cancel p) es m) = m_config m" for es
    by (induction es arbitrary: m) auto
  note kept = this[of "iter (m_tunnels m)"]
  show "m_tunnels (StopAll iter m) = m_tunnels m" "m_heap (StopAll iter m) = m_heap m"
    "m_config (StopAll iter m) = m_config m" using kept by (simp_all add: StopAll_def)
qed

lemma GetConfig_stop_all [simp]: "GetConfig (StopAll iter m) n = GetConfig m n"
  by (simp add: GetConfig_def)

lemma config_kept_step:
  assumes "mgr_step s s'" "mgr_inv s" "config_kept cfg s"
  shows "config_kept cfg s'"
  using assms
proof (induction rule: mgr_step.induct)
  case (step_start m name now p c cb m' ts log sshHost sshUser)
  then show ?case
    by (auto simp: Start_begin_def config_kept_def GetConfig_set_cell split: option.splits if_splits)
next
  case (step_finish t c m e p name m' cb change ts log)
  then show ?case
    by (auto simp: Start_finish_def Let_def config_kept_def GetConfig_set_cell split: if_splits)
next
  case (step_delayed_delete m name ts log)
  then have "name \<notin> tc_Name ` set (cfg_Tunnels cfg)"
    by (auto simp: mgr_inv_def tasks_ok_add config_kept_def configured_def)
  with step_delayed_delete show ?case by (auto simp: delayed_delete_def config_kept_def split: option.splits)
next
  case (step_register gen m tc name m' ts log)
  then have "map_ok m" "lookup m name = None"
    and m': "m' = insert_tunnel name (disconnected_tunnel (tc\<lparr>tc_Name := name\<rparr>) True) m"
    by (auto simp: mgr_inv_def Register_def Let_def has_tunnel_def split: if_splits)
  moreover from this step_register.prems(2) have "name \<notin> tc_Name ` set (cfg_Tunnels cfg)"
    by (auto simp: map_ok_def configured_def config_kept_def)
  ultimately have "GetConfig m' n = GetConfig m n" if "n \<in> tc_Name ` set (cfg_Tunnels cfg)" for n
    using that by (auto simp only: m' intro: GetConfig_insert)
  with step_register.prems(2) show ?case by (auto simp: config_kept_def m')
next
  case (step_unregister m name m' ts log)
  then obtain p where p: "lookup m name = Some p" "mt_Ephemeral (m_heap m p)" and m': "m' = remove_entry m name"
    by (auto simp: Unregister_def split: option.splits if_splits)
  with step_unregister.prems have "name \<notin> tc_Name ` set (cfg_Tunnels cfg)"
    using map_okD(3)[OF _ p(1)] by (auto simp: mgr_inv_def config_kept_def configured_def)
  with step_unregister.prems(2) show ?case by (auto simp: m' config_kept_def)
qed (auto simp: config_kept_def Start_settle_def Stop_def SetOnChange_def GetConfig_set_cell
    split: option.splits if_splits)

interpretation mgr_config: invariant_system "mgr_init cfg" mgr_step "\<lambda>s. mgr_inv s \<and> config_kept cfg s"
  by unfold_locales
    (auto simp: mgr_init_def inv_NewManager config_kept_def[of _ "(_, _)"] intro: mgr_step_inv config_kept_step)

text \<open>The last configured tunnel of a name is the one the manager has.\<close>

lemma GetConfig_insert_fresh:
  assumes "\<forall>n p. lookup m n = Some p \<longrightarrow> p < m_next m"
  shows "GetConfig (insert_tunnel name mt m) n = (if n = name then Some (mt_Config mt) else GetConfig m n)"
  using assms by (cases "lookup m n") (auto simp: GetConfig_def)

lemma find_last [simp]:
  "find P (xs @ [x]) = (case find P xs of None \<Rightarrow> if P x then Some x else None | Some y \<Rightarrow> Some y)"
  by (induction xs) auto

lemma GetConfig_fold:
  assumes "\<forall>n p. lookup m n = Some p \<longrightarrow> p < m_next m"
  shows "GetConfig (fold (\<lambda>tc. insert_tunnel (tc_Name tc) (disconnected_tunnel tc False)) tcs m) n =
    (case find (\<lambda>tc. tc_Name tc = n) (rev tcs) of None \<Rightarrow> GetConfig m n | Some tc \<Rightarrow> Some tc)"
  using assms
proof (induction tcs arbitrary: m)
  case (Cons tc tcs)
  let ?m = "insert_tunnel (tc_Name tc) (disconnected_tunnel tc False) m"
  have "\<forall>n p. lookup ?m n = Some p \<longrightarrow> p < m_next ?m" using Cons.prems by (auto simp: less_Suc_eq)
  then show ?case
    using Cons.IH[of ?m] GetConfig_insert_fresh[OF Cons.prems]
    by (auto simp: disconnected_tunnel_def split: option.splits)
qed simp

lemma GetConfig_NewManager:
  "GetConfig (NewManager cfg) n = find (\<lambda>tc. tc_Name tc = n) (rev (cfg_Tunnels cfg))"
  using GetConfig_fold[of "empty_manager cfg" "cfg_Tunnels cfg" n]
  by (simp add: NewManager_def empty_manager_def GetConfig_def split: option.splits)

text \<open>With distinct names the last tunnel of a name is also the first.\<close>

lemma find_rev_distinct:
  assumes "distinct (map f xs)"
  shows "find (\<lambda>x. f x = n) (rev xs) = find (\<lambda>x. f x = n) xs"
  using assms
proof (induction xs)
  case (Cons x xs)
  then have "f x = n \<Longrightarrow> find (\<lambda>x. f x = n) xs = None"
    by (simp add: find_None_iff image_iff) (metis)
  with Cons show ?case by (auto split: option.splits)
qed simp

lemma GetTunnelByName_last:
  "distinct (TunnelNames cfg) \<Longrightarrow>
     find (\<lambda>tc. tc_Name tc = n) (rev (cfg_Tunnels cfg)) = GetTunnelByName cfg n"
  by (simp add: TunnelNames_def GetTunnelByName_def find_tunnel_eq_find find_rev_distinct)

end
