(* ===== verification/Manager_Props.thy ===== *)
theory Manager_Props
  imports Manager_Spec
begin

text \<open>
  The properties of the tunnel manager: what holds in every state that any interleaving of its
  clients and goroutines can reach, and two runs that show behaviour its comments do not promise.
\<close>

section \<open>A sample run\<close>

text \<open>One configured tunnel, started: its goroutine runs and its \<^verbatim>\<open>Start\<close> is in the brief wait.\<close>

definition sample_tunnel :: TunnelConfig where
  "sample_tunnel = \<lparr>tc_Name = ''db'', tc_Host = ''bastion'', tc_Remote = ''db:5432'', tc_Local = '':5432''\<rparr>"

definition sample_config :: Config where
  "sample_config = \<lparr>cfg_Auth = \<lparr>ac_Method = [], ac_KeyPath = []\<rparr>,
     cfg_Tunnels = [sample_tunnel]\<rparr>"

definition sample_manager :: Manager where
  "sample_manager = (set_cell 0 ((m_heap (NewManager sample_config) 0)\<lparr>mt_Status := StateConnecting,
     mt_Error := [], mt_startedAt := 7, mt_cancel := Some 0\<rparr>) (NewManager sample_config))\<lparr>m_nextctx := 1\<rparr>"

definition sample_goroutine :: task where
  "sample_goroutine = Goroutine 0 ''db'' 0 (tunnel_of (m_heap sample_manager 0) ''bastion:22'' ''me'')"

definition sample_sys :: sys where
  "sample_sys = (sample_manager, {#sample_goroutine, StartSettle 0 ''db''#}, [])"

lemma sample_lookup [simp]:
  "lookup (NewManager sample_config) ''db'' = Some 0"
  "lookup sample_manager ''db'' = Some 0"
  by (simp_all add: sample_manager_def sample_config_def NewManager_def empty_manager_def sample_tunnel_def)

lemma sample_cell [simp]:
  "m_heap (NewManager sample_config) 0 = disconnected_tunnel sample_tunnel False"
  "status_of sample_manager 0 = StateConnecting" "mt_cancel (m_heap sample_manager 0) = Some 0"
  "m_nextctx (NewManager sample_config) = 0" "m_onChange (NewManager sample_config) = None"
  by (simp_all add: sample_manager_def sample_config_def NewManager_def empty_manager_def insert_tunnel_def)

lemma sample_names: "map tc_Name (cfg_Tunnels sample_config) = [''db'']"
  by (simp add: sample_config_def sample_tunnel_def)

lemma sample_begin:
  "Start_begin (NewManager sample_config) ''db'' 7 = Inr (0, 0, None, sample_manager)"
  by (simp add: Start_begin_def sample_manager_def disconnected_tunnel_def)

lemma reach_sample_sys: "mgr_reach sample_config sample_sys"
proof -
  have "mgr_reach sample_config (NewManager sample_config, {#}, [])"
    by (simp add: reach_init mgr_init_def)
  then have "mgr_reach sample_config
      (sample_manager, {#StartNotify 0 ''db'' 0 None ''bastion:22'' ''me''#}, [])"
    by (rule reach_step) (rule step_start[OF sample_begin])
  then have "mgr_reach sample_config (sample_manager, {#sample_goroutine, StartSettle 0 ''db''#},
      notifyChange None \<lparr>sc_Name = ''db'', sc_Status = StateConnecting, sc_Error = []\<rparr> [])"
    unfolding sample_goroutine_def by (rule reach_step) (rule step_spawn)
  then show ?thesis by (simp add: sample_sys_def notifyChange_def)
qed

section \<open>Refinement\<close>

text \<open>
  C1.  The manager implements the abstract lifecycle, step by step.  It starts with every configured
  tunnel disconnected; from any reachable state, each step of a caller, a goroutine, a delayed
  removal or a notification leaves the map from names to states as it is or changes it by one
  lifecycle step: an entry appears disconnected, an inactive one disappears or starts connecting,
  a connecting one becomes connected, an active one ends disconnected or in error.  The
  three locked sections of \<^verbatim>\<open>Start\<close> make exactly their own step: the first moves an inactive entry to
  connecting, the goroutine's last one moves an active entry to disconnected or, for any error but
  \<^verbatim>\<open>ErrTunnelClosed\<close>, to error, and the one after the brief wait moves a connecting entry to
  connected and changes nothing otherwise.
\<close>

theorem manager_refines_lifecycle:
  assumes "mgr_reach cfg (m, ts, log)"
  shows "life_init (life_of (NewManager cfg)) \<and>
    (\<forall>s'. mgr_step (m, ts, log) s' \<longrightarrow>
      abs_sys s' = life_of m \<or> life_step (life_of m) (abs_sys s')) \<and>
    (\<forall>name now p c cb m'. Start_begin m name now = Inr (p, c, cb, m') \<longrightarrow>
      (\<exists>st. life_of m name = Some st \<and> \<not> IsActive st \<and>
        life_of m' = (life_of m)(name \<mapsto> StateConnecting))) \<and>
    (\<forall>p name c t e m' cb change. Goroutine p name c t \<in># ts \<and>
      Start_finish m p name (Some e) = (m', cb, change) \<longrightarrow>
      (\<exists>st. life_of m name = Some st \<and> IsActive st \<and> life_of m' = (life_of m)(name \<mapsto>
        (if e = ErrTunnelClosed then StateDisconnected else StateError)))) \<and>
    (\<forall>p name m' change. StartSettle p name \<in># ts \<and> Start_settle m p name = (m', change) \<longrightarrow>
      (status_of m p = StateConnecting \<longrightarrow> life_of m name = Some StateConnecting) \<and>
      life_of m' = (if status_of m p = StateConnecting then (life_of m)(name \<mapsto> StateConnected)
        else life_of m))"
proof -
  from assms have inv: "mgr_inv (m, ts, log)" by (rule mgr.reach_inv)
  then have mo: "map_ok m" by (simp add: mgr_inv_def)
  have each_step: "(\<forall>s'. mgr_step (m, ts, log) s' \<longrightarrow>
      abs_sys s' = life_of m \<or> life_step (life_of m) (abs_sys s'))"
    using mgr_life.sim_step[OF inv] by (simp add: abs_sys_def[of "(m, ts, log)"])
  have begins: "(\<forall>name now p c cb m'. Start_begin m name now = Inr (p, c, cb, m') \<longrightarrow>
      (\<exists>st. life_of m name = Some st \<and> \<not> IsActive st \<and>
        life_of m' = (life_of m)(name \<mapsto> StateConnecting)))"
    by (intro allI impI) (rule life_Start_begin[OF mo])
  have finishes: "(\<forall>p name c t e m' cb change. Goroutine p name c t \<in># ts \<and>
      Start_finish m p name (Some e) = (m', cb, change) \<longrightarrow>
      (\<exists>st. life_of m name = Some st \<and> IsActive st \<and> life_of m' = (life_of m)(name \<mapsto>
        (if e = ErrTunnelClosed then StateDisconnected else StateError))))"
    by (intro allI impI, elim conjE) (rule life_Start_finish[OF inv])
  have settles: "(\<forall>p name m' change. StartSettle p name \<in># ts \<and> Start_settle m p name = (m', change) \<longrightarrow>
      (status_of m p = StateConnecting \<longrightarrow> life_of m name = Some StateConnecting) \<and>
      life_of m' = (if status_of m p = StateConnecting then (life_of m)(name \<mapsto> StateConnected)
        else life_of m))"
    by (intro allI impI, elim conjE) (rule life_Start_settle[OF inv])
  show ?thesis by (intro conjI life_init_NewManager each_step begins finishes settles)
qed

theorem manager_refines_lifecycle_witness:
  "life_of (NewManager sample_config) ''db'' = Some StateDisconnected \<and>
   life_of sample_manager = (life_of (NewManager sample_config))(''db'' \<mapsto> StateConnecting) \<and>
   life_of (fst (Start_settle sample_manager 0 ''db'')) = (life_of sample_manager)(''db'' \<mapsto> StateConnected)"
proof -
  have init: "mgr_reach sample_config (NewManager sample_config, {#}, [])"
    by (simp add: reach_init mgr_init_def)
  have "life_of sample_manager = (life_of (NewManager sample_config))(''db'' \<mapsto> StateConnecting)"
    using manager_refines_lifecycle[OF init] sample_begin by blast
  moreover have "life_of (fst (Start_settle sample_manager 0 ''db'')) =
      (life_of sample_manager)(''db'' \<mapsto> StateConnected)"
    using manager_refines_lifecycle[OF reach_sample_sys[unfolded sample_sys_def],
        THEN conjunct2, THEN conjunct2, THEN conjunct2, THEN conjunct2, rule_format,
        of 0 "''db''" "fst (Start_settle sample_manager 0 ''db'')" "snd (Start_settle sample_manager 0 ''db'')"]
    by (simp del: fun_upd_apply)
  ultimately show ?thesis by (simp add: life_of_def disconnected_tunnel_def)
qed

section \<open>Invariants\<close>

text \<open>
  C2.  An entry of the map is active exactly while one goroutine runs its tunnel, and there is never a
  second one; every running goroutine finds its own entry in the map, with its own cancel function
  and its own addresses.
\<close>

theorem one_goroutine_per_active_tunnel:
  assumes "mgr_reach cfg (m, ts, log)"
  shows "(\<forall>n p. lookup m n = Some p \<longrightarrow>
      size (filter_mset (live p) ts) = (if IsActive (status_of m p) then 1 else 0)) \<and>
    (\<forall>p n c t. Goroutine p n c t \<in># ts \<longrightarrow> lookup m n = Some p \<and> mt_cancel (m_heap m p) = Some c \<and>
      tun_RemoteAddr t = tc_Remote (mt_Config (m_heap m p)) \<and>
      tun_LocalAddr t = tc_Local (mt_Config (m_heap m p)))"
proof -
  from assms have inv: "mgr_inv (m, ts, log)" by (rule mgr.reach_inv)
  then have "map_ok m" and cnt: "\<forall>p<m_next m. live_count p ts = (if IsActive (status_of m p) then 1 else 0)"
    and ok: "\<forall>t\<in>#ts. task_ok m t" by (auto simp: mgr_inv_def tasks_ok_def)
  have "live_count p ts = (if IsActive (status_of m p) then 1 else 0)" if "lookup m n = Some p" for n p
    using cnt map_okD(1)[OF \<open>map_ok m\<close> that] by blast
  with ok show ?thesis by (fastforce simp: live_count_def)
qed

theorem one_goroutine_per_active_tunnel_witness:
  "size (filter_mset (live 0) {#sample_goroutine, StartSettle 0 ''db''#}) = 1"
  using one_goroutine_per_active_tunnel[OF reach_sample_sys[unfolded sample_sys_def]]
  by (metis IsActive_simps(1) sample_cell(2) sample_lookup(2))

text \<open>
  C30.  No operation loses or alters what the manager was built with.  In every reachable state each
  configured name has its entry, which is not ephemeral (\<^verbatim>\<open>Unregister\<close> refuses it), and \<^verbatim>\<open>GetConfig\<close>
  returns the last configured tunnel of that name, so of several configured tunnels with one name
  all but the last are absent from the start.  When the configured names are distinct, this is what
  \<^verbatim>\<open>GetTunnelByName\<close>, which searches from the front, finds in the configuration.
\<close>

theorem configured_tunnels_kept:
  assumes "mgr_reach cfg (m, ts, log)" "n \<in> set (TunnelNames cfg)"
  shows "GetConfig m n = find (\<lambda>tc. tc_Name tc = n) (rev (cfg_Tunnels cfg)) \<and>
    GetConfig m n \<noteq> None \<and> Unregister m n = Inl (TunnelNotEphemeral n) \<and>
    (distinct (TunnelNames cfg) \<longrightarrow> GetConfig m n = GetTunnelByName cfg n)"
proof -
  from assms(1) have inv: "mgr_inv (m, ts, log)" and kept: "config_kept cfg (m, ts, log)"
    using mgr_config.reach_inv by blast+
  from assms(2) have n: "n \<in> tc_Name ` set (cfg_Tunnels cfg)" by (simp add: TunnelNames_def)
  with kept have g: "GetConfig m n = find (\<lambda>tc. tc_Name tc = n) (rev (cfg_Tunnels cfg))"
    by (auto simp: config_kept_def GetConfig_NewManager)
  from n kept have conf: "n \<in> configured m" by (simp add: configured_def config_kept_def)
  with inv obtain p where p: "lookup m n = Some p" by (auto simp: mgr_inv_def map_ok_def)
  with inv conf have "\<not> mt_Ephemeral (m_heap m p)" using map_okD(3) by (auto simp: mgr_inv_def)
  with p have "Unregister m n = Inl (TunnelNotEphemeral n)" "GetConfig m n \<noteq> None"
    by (simp_all add: GetConfig_def Unregister_def)
  with g GetTunnelByName_last[of cfg n] show ?thesis by metis
qed

text \<open>Two tunnels with one name: the manager has the second, the configuration finds the first.\<close>

definition twin_config :: Config where
  "twin_config = sample_config\<lparr>cfg_Tunnels := [sample_tunnel, sample_tunnel\<lparr>tc_Remote := ''db2:5432''\<rparr>]\<rparr>"

theorem configured_tunnels_kept_witness:
  "GetConfig sample_manager ''db'' = GetTunnelByName sample_config ''db'' \<and>
   GetConfig (NewManager twin_config) ''db'' = Some (sample_tunnel\<lparr>tc_Remote := ''db2:5432''\<rparr>) \<and>
   GetTunnelByName twin_config ''db'' = Some sample_tunnel"
proof -
  have "GetConfig sample_manager ''db'' = GetTunnelByName sample_config ''db''"
    using configured_tunnels_kept[OF reach_sample_sys[unfolded sample_sys_def], of "''db''"]
    by (simp add: TunnelNames_def sample_names flip: set_map) metis
  moreover have "mgr_reach twin_config (NewManager twin_config, {#}, [])"
    by (simp add: reach_init mgr_init_def)
  then have "GetConfig (NewManager twin_config) ''db'' =
      find (\<lambda>tc. tc_Name tc = ''db'') (rev (cfg_Tunnels twin_config))"
    using configured_tunnels_kept[of twin_config "NewManager twin_config" "{#}" "[]" "''db''"]
    by (simp add: TunnelNames_def twin_config_def sample_tunnel_def)
  ultimately show ?thesis
    by (simp add: GetTunnelByName_def twin_config_def sample_tunnel_def)
qed

section \<open>Operations\<close>

lemma cancelled_stop_all:
  "m_cancelled (fold (\<lambda>(n, p). call_cancel p) es m) =
     (\<Union>(n, p)\<in>set es. set_option (mt_cancel (m_heap m p))) \<union> m_cancelled m"
proof (induction es arbitrary: m)
  case (Cons e es)
  obtain n p where "e = (n, p)" by (cases e)
  with Cons.IH[of "call_cancel p m"] show ?case by auto
qed simp

lemma cancelled_StopAll:
  assumes "gomap_wf (m_tunnels m)" "map_order iter"
  shows "m_cancelled (StopAll iter m) =
      m_cancelled m \<union> {c. \<exists>n p. lookup m n = Some p \<and> mt_cancel (m_heap m p) = Some c}"
  using assms(2) by (force simp: StopAll_def cancelled_stop_all gomap_in_set_iff[OF assms(1)])

lemma task_context:
  assumes "mgr_reach cfg (m, ts, log)" "t \<in># ts" "t = Goroutine p n c tun \<or> t = StartNotify p n c cb h u"
  shows "lookup m n = Some p \<and> mt_cancel (m_heap m p) = Some c"
proof -
  from assms(1) have "mgr_inv (m, ts, log)" by (rule mgr.reach_inv)
  with assms(2) have "task_ok m t" by (simp add: mgr_inv_def tasks_ok_def)
  with assms(3) show ?thesis by auto
qed

lemma stop_all_cancels_goroutine:
  assumes "mgr_reach cfg (m, ts, log)" "map_order iter" "Goroutine p n c t \<in># ts"
  shows "c \<in> m_cancelled (StopAll iter m)"
proof -
  from assms(1) have "mgr_inv (m, ts, log)" by (rule mgr.reach_inv)
  then have "gomap_wf (m_tunnels m)" by (simp add: mgr_inv_def map_ok_def)
  with assms(2) task_context[OF assms(1,3)] show ?thesis by (auto simp: cancelled_StopAll)
qed

text \<open>
  C8.  \<^verbatim>\<open>StopAll\<close> cancels the context of every tunnel that is running or about to run, whatever the
  iteration order of the map, and no context but those of the entries; it changes no entry.
\<close>

theorem StopAll_cancels_every_tunnel:
  assumes "mgr_reach cfg (m, ts, log)" "map_order iter"
  shows "(\<forall>p n c t. Goroutine p n c t \<in># ts \<longrightarrow> c \<in> m_cancelled (StopAll iter m)) \<and>
    (\<forall>p n c cb h u. StartNotify p n c cb h u \<in># ts \<longrightarrow> c \<in> m_cancelled (StopAll iter m)) \<and>
    m_cancelled (StopAll iter m) =
      m_cancelled m \<union> {c. \<exists>n p. lookup m n = Some p \<and> mt_cancel (m_heap m p) = Some c} \<and>
    m_heap (StopAll iter m) = m_heap m \<and> m_tunnels (StopAll iter m) = m_tunnels m"
proof -
  from assms(1) have "mgr_inv (m, ts, log)" by (rule mgr.reach_inv)
  then have wf: "gomap_wf (m_tunnels m)" by (simp add: mgr_inv_def map_ok_def)
  have "lookup m n = Some p \<and> mt_cancel (m_heap m p) = Some c" if "Goroutine p n c t \<in># ts" for p n c t
    using task_context[OF assms(1) that] by blast
  moreover have "lookup m n = Some p \<and> mt_cancel (m_heap m p) = Some c" if "StartNotify p n c cb h u \<in># ts" for p n c cb h u
    using task_context[OF assms(1) that] by blast
  ultimately show ?thesis
    by (simp only: stop_all_fields cancelled_StopAll[OF wf assms(2)] simp_thms) blast
qed

theorem StopAll_cancels_every_tunnel_witness: "0 \<in> m_cancelled (StopAll rev sample_manager)"
  using StopAll_cancels_every_tunnel[OF reach_sample_sys[unfolded sample_sys_def] map_order_id(2), THEN conjunct1]
  unfolding sample_goroutine_def by (meson union_single_eq_member)

text \<open>
  C9.  \<^verbatim>\<open>Stop\<close> of an active tunnel cancels the context of that tunnel's goroutine and of no other; of an
  inactive or unknown one it is refused and changes nothing.
\<close>

theorem Stop_cancels_only_its_tunnel:
  assumes "mgr_reach cfg (m, ts, log)" "Goroutine p n c t \<in># ts"
  shows "(\<exists>m' eph. Stop m n = Inr (m', eph) \<and> c \<in> m_cancelled m') \<and>
    (\<forall>n' m' eph. Stop m n' = Inr (m', eph) \<and> n' \<noteq> n \<longrightarrow>
       (c \<in> m_cancelled m' \<longleftrightarrow> c \<in> m_cancelled m) \<and> m_heap m' = m_heap m)"
proof -
  from assms(1) have inv: "mgr_inv (m, ts, log)" by (rule mgr.reach_inv)
  with assms(2) have mo: "map_ok m" and ho: "heap_ok m" and p: "lookup m n = Some p"
    and c: "mt_cancel (m_heap m p) = Some c" and act: "IsActive (status_of m p)"
    using live_entry[OF inv assms(2), of p] by (auto simp: mgr_inv_def tasks_ok_def)
  have "c \<in> m_cancelled m' \<longleftrightarrow> c \<in> m_cancelled m" if st: "Stop m n' = Inr (m', eph)" and "n' \<noteq> n" for n' m' eph
  proof -
    from st obtain q where q: "lookup m n' = Some q" and m': "m' = call_cancel q m"
      by (auto simp: Stop_def split: option.splits if_splits)
    with that p mo have "q \<noteq> p" using map_ok_inj by blast
    moreover have "p < m_next m" "q < m_next m" using map_okD(1)[OF mo] p q by blast+
    ultimately have "mt_cancel (m_heap m q) \<noteq> Some c" using ho c unfolding heap_ok_def by blast
    then show ?thesis by (auto simp: m')
  qed
  moreover have "m_heap m' = m_heap m" if "Stop m n' = Inr (m', eph)" for n' m' eph
    using that by (auto simp: Stop_def split: option.splits if_splits)
  moreover have "Stop m n = Inr (call_cancel p m, mt_Ephemeral (m_heap m p))" using p act by (simp add: Stop_def)
  ultimately show ?thesis using c by auto
qed

theorem Stop_cancels_only_its_tunnel_witness:
  "\<exists>m' eph. Stop sample_manager ''db'' = Inr (m', eph) \<and> 0 \<in> m_cancelled m'"
  using Stop_cancels_only_its_tunnel[OF reach_sample_sys[unfolded sample_sys_def], of 0 "''db''" 0]
  by (simp add: sample_goroutine_def)

lemma generate_name_free:
  assumes "\<not> taken (gen (i + j))" "j < k" "\<forall>l<j. taken (gen (i + l))"
  shows "generate_name taken gen i k name = gen (i + j)"
  using assms
proof (induction k arbitrary: i j name)
  case (Suc k)
  show ?case
  proof (cases j)
    case (Suc j')
    with Suc.prems have "taken (gen i)" by (metis add_0_right zero_less_Suc)
    moreover have "generate_name taken gen (Suc i) k (gen i) = gen (Suc i + j')"
      using Suc.prems Suc by (intro Suc.IH) auto
    ultimately show ?thesis using Suc by simp
  qed (use Suc.prems in simp)
qed simp

lemma generate_name_taken:
  assumes "\<forall>l<k. taken (gen (i + l))" "0 < k"
  shows "taken (generate_name taken gen i k name)"
  using assms
proof (induction k arbitrary: i name)
  case (Suc k)
  then have t: "taken (gen i)" by (metis add_0_right)
  from Suc.prems(1) have "\<forall>l<k. taken (gen (Suc i + l))" by auto
  with t Suc.IH[of "Suc i" "gen i"] show ?case by (cases k) auto
qed simp

text \<open>
  \<^verbatim>\<open>Register\<close> uses the first of the ten generated names that no tunnel has, and fails, without
  adding anything, only when all ten are taken.
\<close>

lemma Register_eq:
  "Register gen m tc =
     (if \<exists>i<10. \<not> has_tunnel m (gen i)
      then let name = gen (LEAST i. \<not> has_tunnel m (gen i))
           in Inr (name, insert_tunnel name (disconnected_tunnel (tc\<lparr>tc_Name := name\<rparr>) True) m)
      else Inl NoUniqueName)"
proof (cases "\<exists>i<10. \<not> has_tunnel m (gen i)")
  case True
  let ?j = "LEAST i. \<not> has_tunnel m (gen i)"
  from True obtain i where "i < 10" "\<not> has_tunnel m (gen i)" by blast
  then have "\<not> has_tunnel m (gen ?j)" "?j < 10"
    using LeastI[of "\<lambda>i. \<not> has_tunnel m (gen i)" i] Least_le[of "\<lambda>i. \<not> has_tunnel m (gen i)" i] by simp_all
  moreover have "\<forall>l<?j. has_tunnel m (gen l)" using not_less_Least by blast
  ultimately have "generate_name (has_tunnel m) gen 0 10 [] = gen ?j"
    using generate_name_free[of "has_tunnel m" gen 0 ?j 10 "[]", unfolded add_0] by blast
  with True \<open>\<not> has_tunnel m (gen ?j)\<close> show ?thesis by (simp only: Register_def Let_def if_True if_False)
next
  case False
  then have "has_tunnel m (generate_name (has_tunnel m) gen 0 10 [])"
    by (intro generate_name_taken[where taken = "has_tunnel m" and k = 10]) simp_all
  with False show ?thesis by (simp only: Register_def Let_def if_True if_False)
qed

text \<open>
  \<^verbatim>\<open>List\<close> returns one snapshot per entry, whatever the iteration order: no name twice, no entry
  left out, each with the configuration, state and error of its entry.
\<close>

lemma Manager_List_complete:
  assumes "mgr_reach cfg (m, ts, log)" "map_order iter"
  shows "distinct (map (tc_Name \<circ> mt_Config) (Manager_List iter m)) \<and>
    set (Manager_List iter m) = {snapshot (m_heap m p) | n p. lookup m n = Some p}"
proof -
  from assms(1) have "mgr_inv (m, ts, log)" by (rule mgr.reach_inv)
  then have mo: "map_ok m" and wf: "gomap_wf (m_tunnels m)" by (auto simp: mgr_inv_def map_ok_def)
  have "map (tc_Name \<circ> mt_Config) (Manager_List iter m) = map fst (iter (m_tunnels m))"
    using assms(2) map_okD(2)[OF mo] gomap_in_set_iff[OF wf]
    by (auto simp: Manager_List_def snapshot_def)
  moreover have "distinct (map fst (iter (m_tunnels m)))"
  proof -
    have "mset (map fst (iter (m_tunnels m))) = mset (map fst (m_tunnels m))"
      using assms(2) by (simp add: map_order_def)
    with wf show ?thesis using mset_eq_imp_distinct_iff gomap_wf_def by blast
  qed
  moreover have "set (Manager_List iter m) = {snapshot (m_heap m p) | n p. lookup m n = Some p}"
    using assms(2) by (force simp: Manager_List_def gomap_in_set_iff[OF wf])
  ultimately show ?thesis by simp
qed

section \<open>Two runs\<close>

declare rtranclp.rtrancl_into_rtrancl [trans]

text \<open>The manager after the first section of \<^verbatim>\<open>Start\<close>, and the steps from there to a given end.\<close>

definition begun :: "Manager \<Rightarrow> ptr \<Rightarrow> time \<Rightarrow> Manager" where
  "begun m p now = (set_cell p ((m_heap m p)\<lparr>mt_Status := StateConnecting, mt_Error := [],
     mt_startedAt := now, mt_cancel := Some (m_nextctx m)\<rparr>) m)\<lparr>m_nextctx := m_nextctx m + 1\<rparr>"

lemma begun_simps [simp]:
  "lookup (begun m p now) n = lookup m n" "m_onChange (begun m p now) = m_onChange m"
  "m_heap (begun m p now) p = (m_heap m p)\<lparr>mt_Status := StateConnecting, mt_Error := [],
     mt_startedAt := now, mt_cancel := Some (m_nextctx m)\<rparr>"
  by (simp_all add: begun_def)

lemma run_begun:
  assumes "lookup m n = Some p" "\<not> IsActive (status_of m p)"
  shows "mgr_step\<^sup>*\<^sup>* (m, ts, log)
     (begun m p now, add_mset (Goroutine p n (m_nextctx m) (tunnel_of (m_heap (begun m p now) p) h u))
        (add_mset (StartSettle p n) ts),
      notifyChange (m_onChange m) \<lparr>sc_Name = n, sc_Status = StateConnecting, sc_Error = []\<rparr> log)"
proof -
  from assms have "Start_begin m n now = Inr (p, m_nextctx m, m_onChange m, begun m p now)"
    by (simp add: Start_begin_def begun_def)
  then have "mgr_step (m, ts, log)
      (begun m p now, add_mset (StartNotify p n (m_nextctx m) (m_onChange m) h u) ts, log)"
    by (rule step_start)
  moreover have "mgr_step (begun m p now, add_mset (StartNotify p n (m_nextctx m) (m_onChange m) h u) ts, log)
     (begun m p now, add_mset (Goroutine p n (m_nextctx m) (tunnel_of (m_heap (begun m p now) p) h u))
        (add_mset (StartSettle p n) ts),
      notifyChange (m_onChange m) \<lparr>sc_Name = n, sc_Status = StateConnecting, sc_Error = []\<rparr> log)"
    by (rule step_spawn)
  ultimately show ?thesis by (meson converse_rtranclp_into_rtranclp r_into_rtranclp)
qed

text \<open>The end of a cancelled tunnel's goroutine.\<close>

definition closed_cell :: "ManagedTunnel \<Rightarrow> ManagedTunnel" where
  "closed_cell mt = mt\<lparr>mt_Status := StateDisconnected, mt_Error := [], mt_cancel := None\<rparr>"

lemma finish_closed:
  "Start_finish m p n (Some ErrTunnelClosed) =
     (set_cell p (closed_cell (m_heap m p)) m, m_onChange m,
      \<lparr>sc_Name = n, sc_Status = StateDisconnected, sc_Error = []\<rparr>)"
  by (simp add: Start_finish_def closed_cell_def)

lemma step_finish_closed:
  assumes "c \<in> m_cancelled m"
  shows "mgr_step (m, add_mset (Goroutine p n c t) ts, log)
     (set_cell p (closed_cell (m_heap m p)) m,
      add_mset (Notify (m_onChange m) \<lparr>sc_Name = n, sc_Status = StateDisconnected, sc_Error = []\<rparr>) ts, log)"
  using assms by (intro step_finish[OF _ finish_closed]) simp

text \<open>
  C37.  Notifications can arrive in an order that misleads: a configured tunnel that is started and
  stopped can leave subscribers with \<^verbatim>\<open>connected\<close> as the last word, with nothing left in flight, while
  the tunnel is disconnected.  The callback runs after the lock is released, so the notification of
  \<^verbatim>\<open>Start\<close> can be delivered after the one that reports the end of the tunnel.
\<close>

theorem stale_connected_notification:
  assumes "mgr_reach cfg (m, ts, log)" "lookup m n = Some p" "\<not> IsActive (status_of m p)"
    "\<not> mt_Ephemeral (m_heap m p)" "m_onChange m = Some fn"
  shows "\<exists>m'. mgr_reach cfg (m', ts, log @
      [(fn, \<lparr>sc_Name = n, sc_Status = StateConnecting, sc_Error = []\<rparr>),
       (fn, \<lparr>sc_Name = n, sc_Status = StateDisconnected, sc_Error = []\<rparr>),
       (fn, \<lparr>sc_Name = n, sc_Status = StateConnected, sc_Error = []\<rparr>)]) \<and>
    Status m' n = (StateDisconnected, [])"
proof -
  let ?m1 = "begun m p 0" and ?c = "m_nextctx m"
  let ?m2 = "set_cell p ((m_heap ?m1 p)\<lparr>mt_Status := StateConnected\<rparr>) ?m1"
  let ?m3 = "call_cancel p ?m2" and ?g = "Goroutine p n ?c (tunnel_of (m_heap ?m1 p) [] [])"
  let ?conn = "\<lparr>sc_Name = n, sc_Status = StateConnected, sc_Error = []\<rparr>"
  let ?m4 = "set_cell p (closed_cell (m_heap ?m3 p)) ?m3"
  let ?log1 = "log @ [(fn, \<lparr>sc_Name = n, sc_Status = StateConnecting, sc_Error = []\<rparr>)]"
  let ?log2 = "?log1 @ [(fn, \<lparr>sc_Name = n, sc_Status = StateDisconnected, sc_Error = []\<rparr>)]"
  have "mgr_reach cfg (?m1, add_mset ?g (add_mset (StartSettle p n) ts), ?log1)"
    using reach_steps[OF assms(1) run_begun[OF assms(2,3), of ts log 0 "[]" "[]"]] assms(5)
    by (simp only: notifyChange_def option.case)
  then have "mgr_reach cfg (?m2, add_mset (Notify (Some fn) ?conn) (add_mset ?g ts), ?log1)"
    unfolding add_mset_commute[of ?g "StartSettle p n"]
    by (rule reach_step) (rule step_settle_connected, simp add: Start_settle_def assms(5))
  moreover have "Stop ?m2 n = Inr (?m3, False)" using assms(2,4) by (simp add: Stop_def)
  note step_stop[OF this, of "add_mset (Notify (Some fn) ?conn) (add_mset ?g ts)" ?log1, unfolded if_False]
  ultimately have "mgr_reach cfg (?m3, add_mset (Notify (Some fn) ?conn) (add_mset ?g ts), ?log1)"
    by (rule reach_step)
  then have "mgr_reach cfg (?m4, add_mset (Notify (m_onChange ?m3) \<lparr>sc_Name = n, sc_Status = StateDisconnected, sc_Error = []\<rparr>)
      (add_mset (Notify (Some fn) ?conn) ts), ?log1)"
    unfolding add_mset_commute[of "Notify (Some fn) ?conn" ?g]
    by (rule reach_step) (rule step_finish_closed, simp)
  then have "mgr_reach cfg (?m4, add_mset (Notify (Some fn) ?conn) ts, notifyChange (m_onChange ?m3)
      \<lparr>sc_Name = n, sc_Status = StateDisconnected, sc_Error = []\<rparr> ?log1)"
    by (rule reach_step) (rule step_notify)
  then have "mgr_reach cfg (?m4, add_mset (Notify (Some fn) ?conn) ts, ?log2)"
    by (simp add: notifyChange_def assms(5))
  then have "mgr_reach cfg (?m4, ts, notifyChange (Some fn) ?conn ?log2)"
    by (rule reach_step) (rule step_notify)
  moreover have "Status ?m4 n = (StateDisconnected, [])" using assms(2) by (simp add: Status_def closed_cell_def)
  ultimately show ?thesis by (intro exI[of _ ?m4]) (simp add: notifyChange_def)
qed

theorem stale_connected_notification_witness:
  "\<exists>m'. mgr_reach sample_config (m', {#},
      [(1, \<lparr>sc_Name = ''db'', sc_Status = StateConnecting, sc_Error = []\<rparr>),
       (1, \<lparr>sc_Name = ''db'', sc_Status = StateDisconnected, sc_Error = []\<rparr>),
       (1, \<lparr>sc_Name = ''db'', sc_Status = StateConnected, sc_Error = []\<rparr>)]) \<and>
    Status m' ''db'' = (StateDisconnected, [])"
proof -
  have "mgr_reach sample_config (SetOnChange (NewManager sample_config) 1, {#}, [])"
    by (rule reach_step, rule reach_init, simp add: mgr_init_def, rule step_set_callback)
  from stale_connected_notification[OF this, of "''db''" 0 1]
  show ?thesis by (simp add: SetOnChange_def disconnected_tunnel_def)
qed

text \<open>
  C38.  An ephemeral tunnel can outlive its \<^verbatim>\<open>Stop\<close> for good: when the delayed removal runs while the
  stopped tunnel is still winding down, it does nothing, and once nothing is left in flight the
  tunnel is disconnected and still listed.
\<close>

theorem ephemeral_survives_Stop:
  assumes "lookup m n = Some p" "\<not> IsActive (status_of m p)" "mt_Ephemeral (m_heap m p)"
  shows "\<exists>m1 ts1 log1 m2 m' log'. mgr_step\<^sup>*\<^sup>* (m, ts, log) (m1, ts1, log1) \<and>
    Stop m1 n = Inr (m2, True) \<and>
    mgr_step\<^sup>*\<^sup>* (m2, add_mset (DelayedDelete n) ts1, log1) (m', ts, log') \<and>
    lookup m' n = Some p \<and> Status m' n = (StateDisconnected, [])"
proof -
  let ?m1 = "begun m p 0" and ?c = "m_nextctx m"
  let ?g = "Goroutine p n ?c (tunnel_of (m_heap ?m1 p) [] [])" and ?s = "StartSettle p n"
  let ?m2 = "call_cancel p ?m1"
  let ?m3 = "set_cell p (closed_cell (m_heap ?m2 p)) ?m2"
  let ?change = "\<lparr>sc_Name = n, sc_Status = StateDisconnected, sc_Error = []\<rparr>"
  let ?log1 = "notifyChange (m_onChange m) \<lparr>sc_Name = n, sc_Status = StateConnecting, sc_Error = []\<rparr> log"
  let ?log2 = "notifyChange (m_onChange ?m2) ?change ?log1"
  have start: "mgr_step\<^sup>*\<^sup>* (m, ts, log) (?m1, add_mset ?g (add_mset ?s ts), ?log1)"
    using assms(1,2) by (rule run_begun)
  have stop: "Stop ?m1 n = Inr (?m2, True)" using assms by (simp add: Stop_def)
  have "delayed_delete ?m2 n = ?m2" using assms by (simp add: delayed_delete_def)
  then have "mgr_step\<^sup>*\<^sup>* (?m2, add_mset (DelayedDelete n) (add_mset ?g (add_mset ?s ts)), ?log1)
      (?m2, add_mset ?g (add_mset ?s ts), ?log1)"
    using r_into_rtranclp[of mgr_step, OF step_delayed_delete[of ?m2 n "add_mset ?g (add_mset ?s ts)" ?log1]] by (simp only:)
  also have "mgr_step (?m2, add_mset ?g (add_mset ?s ts), ?log1)
      (?m3, add_mset (Notify (m_onChange ?m2) ?change) (add_mset ?s ts), ?log1)"
    by (rule step_finish_closed) simp
  also have "mgr_step (?m3, add_mset (Notify (m_onChange ?m2) ?change) (add_mset ?s ts), ?log1)
      (?m3, add_mset ?s ts, ?log2)"
    by (rule step_notify)
  also have "mgr_step (?m3, add_mset ?s ts, ?log2) (?m3, ts, ?log2)"
    by (rule step_settle_other) (simp add: Start_settle_def closed_cell_def)
  finally have "mgr_step\<^sup>*\<^sup>* (?m2, add_mset (DelayedDelete n) (add_mset ?g (add_mset ?s ts)), ?log1) (?m3, ts, ?log2)" .
  moreover have "lookup ?m3 n = Some p" "Status ?m3 n = (StateDisconnected, [])"
    using assms(1) by (simp_all add: Status_def closed_cell_def)
  ultimately show ?thesis using start stop by blast
qed

theorem ephemeral_survives_Stop_witness:
  "\<exists>m' log'. mgr_step\<^sup>*\<^sup>* (insert_tunnel ''x'' (disconnected_tunnel (sample_tunnel\<lparr>tc_Name := ''x''\<rparr>) True) sample_manager, {#}, [])
     (m', {#}, log') \<and> Status m' ''x'' = (StateDisconnected, [])"
proof -
  let ?m = "insert_tunnel ''x'' (disconnected_tunnel (sample_tunnel\<lparr>tc_Name := ''x''\<rparr>) True) sample_manager"
  have "lookup ?m ''x'' = Some (m_next sample_manager)" "\<not> IsActive (status_of ?m (m_next sample_manager))"
    "mt_Ephemeral (m_heap ?m (m_next sample_manager))"
    by (simp_all add: disconnected_tunnel_def)
  from ephemeral_survives_Stop[OF this, of "{#}" "[]"] obtain m1 ts1 log1 m2 m' log'
    where "mgr_step\<^sup>*\<^sup>* (?m, {#}, []) (m1, ts1, log1)" "Stop m1 ''x'' = Inr (m2, True)"
      "mgr_step\<^sup>*\<^sup>* (m2, add_mset (DelayedDelete ''x'') ts1, log1) (m', {#}, log')"
      "Status m' ''x'' = (StateDisconnected, [])" by blast
  moreover from this(2) have "mgr_step (m1, ts1, log1) (m2, add_mset (DelayedDelete ''x'') ts1, log1)"
    using step_stop[of m1 "''x''" m2 True ts1 log1] by simp
  ultimately show ?thesis by (meson converse_rtranclp_into_rtranclp rtranclp_trans)
qed

end
