(* ===== verification/Protocol.thy ===== *)
theory Protocol
  imports Config Tunnel
begin

text \<open>
  Package \<^verbatim>\<open>internal/daemon\<close>, file \<^verbatim>\<open>protocol.go\<close>: the messages on the daemon's socket and their
  JSON encoding.  A JSON text is its syntax tree; an encoder is what \<^verbatim>\<open>json.Marshal\<close> does for the
  struct tags of a message, a decoder what \<^verbatim>\<open>json.Unmarshal\<close> does into a given value: keys in any
  order, unknown keys ignored, names compared without case, \<^verbatim>\<open>null\<close> without effect, a value of the
  wrong kind an error.
\<close>

section \<open>JSON values\<close>

text \<open>
  A number literal is an integer or has a fraction or an exponent.  The strings are the decoded
  ones; an object keeps its members in order, repeated keys included.
\<close>

datatype json =
    JNull
  | JBool bool
  | JInt int
  | JReal string
  | JStr string
  | JArr "json list"
  | JObj "(string \<times> json) list"

text \<open>A \<^verbatim>\<open>json.RawMessage\<close>: empty, or the text of one value.\<close>

type_synonym RawMessage = "json option"

datatype json_error = UnexpectedEnd | TypeMismatch

type_synonym 'r decoder = "'r \<Rightarrow> json \<Rightarrow> ('r, json_error) result"

text \<open>
  The case folding of \<^verbatim>\<open>encoding/json\<close>, as far as ASCII field names are concerned: besides the
  ASCII letters only U+017F and U+212A fold to an ASCII letter.
\<close>

definition lower :: "char \<Rightarrow> char" where
  "lower c = (if 65 \<le> (of_char c :: nat) \<and> of_char c \<le> (90 :: nat) then char_of (of_char c + 32 :: nat) else c)"

fun foldName :: "string \<Rightarrow> string" where
  "foldName [] = []"
| "foldName (a # s) =
     (if a = CHR 0xC5 \<and> s \<noteq> [] \<and> hd s = CHR 0xBF then CHR ''s'' # foldName (tl s)
      else if a = CHR 0xE2 \<and> 2 \<le> length s \<and> hd s = CHR 0x84 \<and> s ! 1 = CHR 0xAA
           then CHR ''k'' # foldName (drop 2 s)
      else lower a # foldName s)"

text \<open>The field of a key: the exact name first, then the first name equal up to case.\<close>

definition field_of :: "(string \<times> 'f) list \<Rightarrow> string \<Rightarrow> 'f option" where
  "field_of fs key =
     (case map_of fs key of
        Some f \<Rightarrow> Some f
      | None \<Rightarrow> map_option snd (find (\<lambda>(n, f). foldName n = foldName key) fs))"

fun set_fields :: "(string \<times> 'r decoder) list \<Rightarrow> (string \<times> json) list \<Rightarrow> 'r \<Rightarrow> ('r, json_error) result" where
  "set_fields fs [] r = Inr r"
| "set_fields fs ((key, v) # kvs) r =
     (case field_of fs key of
        None \<Rightarrow> set_fields fs kvs r
      | Some f \<Rightarrow> bind_result (f r v) (set_fields fs kvs))"

definition decode_struct :: "(string \<times> 'r decoder) list \<Rightarrow> 'r decoder" where
  "decode_struct fs r v =
     (case v of
        JNull \<Rightarrow> Inr r
      | JObj kvs \<Rightarrow> set_fields fs kvs r
      | _ \<Rightarrow> Inl TypeMismatch)"

text \<open>Decoders of the field types; each takes the old value.\<close>

definition decode_string :: "string decoder" where
  "decode_string old v = (case v of JNull \<Rightarrow> Inr old | JStr s \<Rightarrow> Inr s | _ \<Rightarrow> Inl TypeMismatch)"

definition decode_bool :: "bool decoder" where
  "decode_bool old v = (case v of JNull \<Rightarrow> Inr old | JBool b \<Rightarrow> Inr b | _ \<Rightarrow> Inl TypeMismatch)"

text \<open>A Go \<^verbatim>\<open>int\<close> has 64 bits; a literal outside its range is an error.\<close>

definition decode_int :: "int decoder" where
  "decode_int old v =
     (case v of JNull \<Rightarrow> Inr old
      | JInt i \<Rightarrow> if - (2 ^ 63) \<le> i \<and> i < 2 ^ 63 then Inr i else Inl TypeMismatch
      | _ \<Rightarrow> Inl TypeMismatch)"

definition decode_raw :: "RawMessage decoder" where
  "decode_raw raw v = Inr (Some v)"

definition decode_pointer :: "'r \<Rightarrow> 'r decoder \<Rightarrow> 'r option decoder" where
  "decode_pointer zero de old v =
     (if v = JNull then Inr None
      else bind_result (de (case old of None \<Rightarrow> zero | Some r \<Rightarrow> r) v) (\<lambda>r. Inr (Some r)))"

text \<open>
  An array goes into the elements that the slice already has and fresh ones after them.
\<close>

fun decode_elements :: "'r \<Rightarrow> 'r decoder \<Rightarrow> 'r list \<Rightarrow> json list \<Rightarrow> ('r list, json_error) result" where
  "decode_elements zero de old [] = Inr []"
| "decode_elements zero de old (v # vs) =
     bind_result (de (case old of [] \<Rightarrow> zero | r # rs \<Rightarrow> r) v)
       (\<lambda>r. bind_result (decode_elements zero de (tl old) vs) (\<lambda>rs. Inr (r # rs)))"

definition decode_slice :: "'r \<Rightarrow> 'r decoder \<Rightarrow> 'r list decoder" where
  "decode_slice zero de old v =
     (case v of
        JNull \<Rightarrow> Inr []
      | JArr vs \<Rightarrow> decode_elements zero de old vs
      | _ \<Rightarrow> Inl TypeMismatch)"

text \<open>The decoder of one field of a record, from its selector and its update.\<close>

definition field :: "('r \<Rightarrow> 'a) \<Rightarrow> ('a \<Rightarrow> 'r \<Rightarrow> 'r) \<Rightarrow> 'a decoder \<Rightarrow> 'r decoder" where
  "field get put de r v = bind_result (de (get r) v) (\<lambda>x. Inr (put x r))"

text \<open>\<^verbatim>\<open>json.Unmarshal\<close> of a raw message: the empty text is an error.\<close>

definition json_Unmarshal :: "'r decoder \<Rightarrow> 'r \<Rightarrow> RawMessage \<Rightarrow> ('r, json_error) result" where
  "json_Unmarshal de r raw = (case raw of None \<Rightarrow> Inl UnexpectedEnd | Some v \<Rightarrow> de r v)"

text \<open>Encoding a string replaces what is not UTF-8; \<^verbatim>\<open>omitempty\<close> leaves a field out.\<close>

definition json_string :: "string \<Rightarrow> json" where
  "json_string s = JStr (coerce_utf8 s)"

definition omitempty :: "bool \<Rightarrow> (string \<times> json) \<Rightarrow> (string \<times> json) list" where
  "omitempty is_empty member = (if is_empty then [] else [member])"

section \<open>Messages\<close>

definition MethodTunnelStart :: string where "MethodTunnelStart = ''tunnel.start''"
definition MethodTunnelStop :: string where "MethodTunnelStop = ''tunnel.stop''"
definition MethodTunnelStatus :: string where "MethodTunnelStatus = ''tunnel.status''"
definition MethodTunnelList :: string where "MethodTunnelList = ''tunnel.list''"
definition MethodTunnelRegister :: string where "MethodTunnelRegister = ''tunnel.register''"
definition MethodDaemonPing :: string where "MethodDaemonPing = ''daemon.ping''"
definition MethodDaemonShutdown :: string where "MethodDaemonShutdown = ''daemon.shutdown''"
definition MethodSubscribe :: string where "MethodSubscribe = ''subscribe''"
definition MethodStatusChanged :: string where "MethodStatusChanged = ''tunnel.statusChanged''"

lemmas method_defs = MethodTunnelStart_def MethodTunnelStop_def MethodTunnelStatus_def
  MethodTunnelList_def MethodTunnelRegister_def MethodDaemonPing_def MethodDaemonShutdown_def
  MethodSubscribe_def MethodStatusChanged_def

definition ErrCodeInternal :: int where "ErrCodeInternal = -32603"
definition ErrCodeInvalidParams :: int where "ErrCodeInvalidParams = -32602"
definition ErrCodeMethodNotFound :: int where "ErrCodeMethodNotFound = -32601"
definition ErrCodeTunnelNotFound :: int where "ErrCodeTunnelNotFound = 1001"
definition ErrCodeTunnelActive :: int where "ErrCodeTunnelActive = 1002"
definition ErrCodeTunnelInactive :: int where "ErrCodeTunnelInactive = 1003"
definition ErrCodeAuthRequired :: int where "ErrCodeAuthRequired = 1004"

lemmas code_defs = ErrCodeInternal_def ErrCodeInvalidParams_def ErrCodeMethodNotFound_def
  ErrCodeTunnelNotFound_def ErrCodeTunnelActive_def ErrCodeTunnelInactive_def ErrCodeAuthRequired_def

record Request =
  req_ID :: string
  req_Method :: string
  req_Params :: RawMessage

record Error =
  err_Code :: int
  err_Message :: string

record Response =
  resp_ID :: string
  resp_Result :: RawMessage
  resp_Error :: "Error option"

record Notification =
  not_Method :: string
  not_Params :: RawMessage

text \<open>The three parameter structs and the two result structs with just a name have one shape.\<close>

record NameParams =
  np_Name :: string

type_synonym TunnelStartParams = NameParams
type_synonym TunnelStopParams = NameParams
type_synonym TunnelStatusParams = NameParams
type_synonym TunnelRegisterResult = NameParams

record TunnelRegisterParams =
  rp_Host :: string
  rp_Remote :: string
  rp_Local :: string

record TunnelStatusResult =
  sr_Name :: string
  sr_Status :: State
  sr_Error :: string

type_synonym StatusChangedParams = TunnelStatusResult

record TunnelInfo =
  ti_Name :: string
  ti_Status :: State
  ti_Error :: string
  ti_Ephemeral :: bool
  ti_Config :: TunnelConfig

record TunnelListResult =
  lr_Tunnels :: "TunnelInfo list"

record PingResult =
  pr_Version :: string

text \<open>The zero values that decoding starts from.\<close>

definition zero_Request :: Request where
  "zero_Request = \<lparr>req_ID = [], req_Method = [], req_Params = None\<rparr>"
definition zero_Error :: Error where "zero_Error = \<lparr>err_Code = 0, err_Message = []\<rparr>"
definition zero_Response :: Response where
  "zero_Response = \<lparr>resp_ID = [], resp_Result = None, resp_Error = None\<rparr>"
definition zero_Notification :: Notification where
  "zero_Notification = \<lparr>not_Method = [], not_Params = None\<rparr>"
definition zero_NameParams :: NameParams where "zero_NameParams = \<lparr>np_Name = []\<rparr>"
definition zero_RegisterParams :: TunnelRegisterParams where
  "zero_RegisterParams = \<lparr>rp_Host = [], rp_Remote = [], rp_Local = []\<rparr>"
definition zero_StatusResult :: TunnelStatusResult where
  "zero_StatusResult = \<lparr>sr_Name = [], sr_Status = [], sr_Error = []\<rparr>"
definition zero_TunnelConfig :: TunnelConfig where
  "zero_TunnelConfig = \<lparr>tc_Name = [], tc_Host = [], tc_Remote = [], tc_Local = []\<rparr>"
definition zero_TunnelInfo :: TunnelInfo where
  "zero_TunnelInfo = \<lparr>ti_Name = [], ti_Status = [], ti_Error = [], ti_Ephemeral = False,
     ti_Config = zero_TunnelConfig\<rparr>"
definition zero_ListResult :: TunnelListResult where "zero_ListResult = \<lparr>lr_Tunnels = []\<rparr>"
definition zero_PingResult :: PingResult where "zero_PingResult = \<lparr>pr_Version = []\<rparr>"

lemmas zero_defs = zero_Request_def zero_Error_def zero_Response_def zero_Notification_def
  zero_NameParams_def zero_RegisterParams_def zero_StatusResult_def zero_TunnelConfig_def
  zero_TunnelInfo_def zero_ListResult_def zero_PingResult_def

section \<open>Encoders and decoders\<close>

definition marshal_Request :: "Request \<Rightarrow> json" where
  "marshal_Request r = JObj ([(''id'', json_string (req_ID r)), (''method'', json_string (req_Method r))] @
     (case req_Params r of None \<Rightarrow> [] | Some v \<Rightarrow> [(''params'', v)]))"

definition unmarshal_Request :: "Request decoder" where
  "unmarshal_Request = decode_struct
     [(''id'', field req_ID (\<lambda>x. req_ID_update (\<lambda>_. x)) decode_string),
      (''method'', field req_Method (\<lambda>x. req_Method_update (\<lambda>_. x)) decode_string),
      (''params'', field req_Params (\<lambda>x. req_Params_update (\<lambda>_. x)) decode_raw)]"

definition marshal_Error :: "Error \<Rightarrow> json" where
  "marshal_Error e = JObj [(''code'', JInt (err_Code e)), (''message'', json_string (err_Message e))]"

definition unmarshal_Error :: "Error decoder" where
  "unmarshal_Error = decode_struct
     [(''code'', field err_Code (\<lambda>x. err_Code_update (\<lambda>_. x)) decode_int),
      (''message'', field err_Message (\<lambda>x. err_Message_update (\<lambda>_. x)) decode_string)]"

definition marshal_Response :: "Response \<Rightarrow> json" where
  "marshal_Response r = JObj ([(''id'', json_string (resp_ID r))] @
     (case resp_Result r of None \<Rightarrow> [] | Some v \<Rightarrow> [(''result'', v)]) @
     (case resp_Error r of None \<Rightarrow> [] | Some e \<Rightarrow> [(''error'', marshal_Error e)]))"

definition unmarshal_Response :: "Response decoder" where
  "unmarshal_Response = decode_struct
     [(''id'', field resp_ID (\<lambda>x. resp_ID_update (\<lambda>_. x)) decode_string),
      (''result'', field resp_Result (\<lambda>x. resp_Result_update (\<lambda>_. x)) decode_raw),
      (''error'', field resp_Error (\<lambda>x. resp_Error_update (\<lambda>_. x)) (decode_pointer zero_Error unmarshal_Error))]"

text \<open>An empty raw message without \<^verbatim>\<open>omitempty\<close> is written as \<^verbatim>\<open>null\<close>.\<close>

definition marshal_Notification :: "Notification \<Rightarrow> json" where
  "marshal_Notification n = JObj [(''method'', json_string (not_Method n)),
     (''params'', case not_Params n of None \<Rightarrow> JNull | Some v \<Rightarrow> v)]"

definition unmarshal_Notification :: "Notification decoder" where
  "unmarshal_Notification = decode_struct
     [(''method'', field not_Method (\<lambda>x. not_Method_update (\<lambda>_. x)) decode_string),
      (''params'', field not_Params (\<lambda>x. not_Params_update (\<lambda>_. x)) decode_raw)]"

definition marshal_NameParams :: "NameParams \<Rightarrow> json" where
  "marshal_NameParams p = JObj [(''name'', json_string (np_Name p))]"

definition unmarshal_NameParams :: "NameParams decoder" where
  "unmarshal_NameParams = decode_struct
     [(''name'', field np_Name (\<lambda>x. np_Name_update (\<lambda>_. x)) decode_string)]"

definition marshal_RegisterParams :: "TunnelRegisterParams \<Rightarrow> json" where
  "marshal_RegisterParams p = JObj [(''host'', json_string (rp_Host p)),
     (''remote'', json_string (rp_Remote p)), (''local'', json_string (rp_Local p))]"

definition unmarshal_RegisterParams :: "TunnelRegisterParams decoder" where
  "unmarshal_RegisterParams = decode_struct
     [(''host'', field rp_Host (\<lambda>x. rp_Host_update (\<lambda>_. x)) decode_string),
      (''remote'', field rp_Remote (\<lambda>x. rp_Remote_update (\<lambda>_. x)) decode_string),
      (''local'', field rp_Local (\<lambda>x. rp_Local_update (\<lambda>_. x)) decode_string)]"

definition marshal_StatusResult :: "TunnelStatusResult \<Rightarrow> json" where
  "marshal_StatusResult r = JObj ([(''name'', json_string (sr_Name r)), (''status'', json_string (sr_Status r))] @
     omitempty (sr_Error r = []) (''error'', json_string (sr_Error r)))"

definition unmarshal_StatusResult :: "TunnelStatusResult decoder" where
  "unmarshal_StatusResult = decode_struct
     [(''name'', field sr_Name (\<lambda>x. sr_Name_update (\<lambda>_. x)) decode_string),
      (''status'', field sr_Status (\<lambda>x. sr_Status_update (\<lambda>_. x)) decode_string),
      (''error'', field sr_Error (\<lambda>x. sr_Error_update (\<lambda>_. x)) decode_string)]"

text \<open>\<^verbatim>\<open>config.TunnelConfig\<close> has no JSON tags: its keys are the field names.\<close>

definition marshal_TunnelConfig :: "TunnelConfig \<Rightarrow> json" where
  "marshal_TunnelConfig tc = JObj [(''Name'', json_string (tc_Name tc)), (''Host'', json_string (tc_Host tc)),
     (''Remote'', json_string (tc_Remote tc)), (''Local'', json_string (tc_Local tc))]"

definition unmarshal_TunnelConfig :: "TunnelConfig decoder" where
  "unmarshal_TunnelConfig = decode_struct
     [(''Name'', field tc_Name (\<lambda>x. tc_Name_update (\<lambda>_. x)) decode_string),
      (''Host'', field tc_Host (\<lambda>x. tc_Host_update (\<lambda>_. x)) decode_string),
      (''Remote'', field tc_Remote (\<lambda>x. tc_Remote_update (\<lambda>_. x)) decode_string),
      (''Local'', field tc_Local (\<lambda>x. tc_Local_update (\<lambda>_. x)) decode_string)]"

definition marshal_TunnelInfo :: "TunnelInfo \<Rightarrow> json" where
  "marshal_TunnelInfo t = JObj ([(''name'', json_string (ti_Name t)), (''status'', json_string (ti_Status t))] @
     omitempty (ti_Error t = []) (''error'', json_string (ti_Error t)) @
     [(''ephemeral'', JBool (ti_Ephemeral t)), (''config'', marshal_TunnelConfig (ti_Config t))])"

definition unmarshal_TunnelInfo :: "TunnelInfo decoder" where
  "unmarshal_TunnelInfo = decode_struct
     [(''name'', field ti_Name (\<lambda>x. ti_Name_update (\<lambda>_. x)) decode_string),
      (''status'', field ti_Status (\<lambda>x. ti_Status_update (\<lambda>_. x)) decode_string),
      (''error'', field ti_Error (\<lambda>x. ti_Error_update (\<lambda>_. x)) decode_string),
      (''ephemeral'', field ti_Ephemeral (\<lambda>x. ti_Ephemeral_update (\<lambda>_. x)) decode_bool),
      (''config'', field ti_Config (\<lambda>x. ti_Config_update (\<lambda>_. x)) unmarshal_TunnelConfig)]"

definition marshal_ListResult :: "TunnelListResult \<Rightarrow> json" where
  "marshal_ListResult r = JObj [(''tunnels'', JArr (map marshal_TunnelInfo (lr_Tunnels r)))]"

definition unmarshal_ListResult :: "TunnelListResult decoder" where
  "unmarshal_ListResult = decode_struct
     [(''tunnels'', field lr_Tunnels (\<lambda>x. lr_Tunnels_update (\<lambda>_. x))
        (decode_slice zero_TunnelInfo unmarshal_TunnelInfo))]"

definition marshal_PingResult :: "PingResult \<Rightarrow> json" where
  "marshal_PingResult r = JObj [(''version'', json_string (pr_Version r))]"

definition unmarshal_PingResult :: "PingResult decoder" where
  "unmarshal_PingResult = decode_struct
     [(''version'', field pr_Version (\<lambda>x. pr_Version_update (\<lambda>_. x)) decode_string)]"

text \<open>The helpers that build messages; \<open>result\<close> and \<open>params\<close> are already encoded.\<close>

definition NewResult :: "string \<Rightarrow> json \<Rightarrow> Response" where
  "NewResult ident result = \<lparr>resp_ID = ident, resp_Result = Some result, resp_Error = None\<rparr>"

definition NewError :: "string \<Rightarrow> int \<Rightarrow> string \<Rightarrow> Response" where
  "NewError ident code message = \<lparr>resp_ID = ident, resp_Result = None,
     resp_Error = Some \<lparr>err_Code = code, err_Message = message\<rparr>\<rparr>"

definition NewNotification :: "string \<Rightarrow> json \<Rightarrow> Notification" where
  "NewNotification method params = \<lparr>not_Method = method, not_Params = Some params\<rparr>"

definition empty_struct :: json where
  "empty_struct = JObj []"

section \<open>Round trips\<close>

text \<open>Messages whose strings survive the wire: valid UTF-8, and an error code that fits an int.\<close>

fun request_ok :: "Request \<Rightarrow> bool" where
  "request_ok r \<longleftrightarrow> valid_utf8 (req_ID r) \<and> valid_utf8 (req_Method r)"

fun error_ok :: "Error \<Rightarrow> bool" where
  "error_ok e \<longleftrightarrow> valid_utf8 (err_Message e) \<and> - (2 ^ 63) \<le> err_Code e \<and> err_Code e < 2 ^ 63"

fun response_ok :: "Response \<Rightarrow> bool" where
  "response_ok r \<longleftrightarrow> valid_utf8 (resp_ID r) \<and> pred_option error_ok (resp_Error r)"

fun notification_ok :: "Notification \<Rightarrow> bool" where
  "notification_ok n \<longleftrightarrow> valid_utf8 (not_Method n) \<and> not_Params n \<noteq> None"

fun name_ok :: "NameParams \<Rightarrow> bool" where
  "name_ok p \<longleftrightarrow> valid_utf8 (np_Name p)"

fun register_ok :: "TunnelRegisterParams \<Rightarrow> bool" where
  "register_ok p \<longleftrightarrow> valid_utf8 (rp_Host p) \<and> valid_utf8 (rp_Remote p) \<and> valid_utf8 (rp_Local p)"

fun status_ok :: "TunnelStatusResult \<Rightarrow> bool" where
  "status_ok r \<longleftrightarrow> valid_utf8 (sr_Name r) \<and> valid_utf8 (sr_Status r) \<and> valid_utf8 (sr_Error r)"

fun config_ok :: "TunnelConfig \<Rightarrow> bool" where
  "config_ok tc \<longleftrightarrow> valid_utf8 (tc_Name tc) \<and> valid_utf8 (tc_Host tc) \<and>
     valid_utf8 (tc_Remote tc) \<and> valid_utf8 (tc_Local tc)"

fun info_ok :: "TunnelInfo \<Rightarrow> bool" where
  "info_ok t \<longleftrightarrow> valid_utf8 (ti_Name t) \<and> valid_utf8 (ti_Status t) \<and> valid_utf8 (ti_Error t) \<and>
     config_ok (ti_Config t)"

fun list_ok :: "TunnelListResult \<Rightarrow> bool" where
  "list_ok r \<longleftrightarrow> list_all info_ok (lr_Tunnels r)"

fun ping_ok :: "PingResult \<Rightarrow> bool" where
  "ping_ok r \<longleftrightarrow> valid_utf8 (pr_Version r)"

lemma decode_field_simps [wire]:
  "decode_string old (JStr s) = Inr s"
  "decode_bool old' (JBool b) = Inr b"
  "decode_raw raw v = Inr (Some v)"
  "valid_utf8 s \<Longrightarrow> json_string s = JStr s"
  by (simp_all add: decode_string_def decode_bool_def decode_raw_def json_string_def valid_utf8_def)

lemmas [wire] = field_def decode_struct_def field_of_def omitempty_def

lemma unmarshal_marshal_Error [wire]:
  "error_ok e \<Longrightarrow> unmarshal_Error old (marshal_Error e) = Inr e"
  by (simp add: unmarshal_Error_def marshal_Error_def wire decode_int_def)

lemma marshal_Error_not_null [wire]: "marshal_Error e \<noteq> JNull"
  by (simp add: marshal_Error_def)

lemma unmarshal_marshal_TunnelConfig [wire]:
  "config_ok tc \<Longrightarrow> unmarshal_TunnelConfig old (marshal_TunnelConfig tc) = Inr tc"
  by (simp add: unmarshal_TunnelConfig_def marshal_TunnelConfig_def wire)

lemma unmarshal_marshal_TunnelInfo:
  "info_ok t \<Longrightarrow> ti_Error old = [] \<Longrightarrow> unmarshal_TunnelInfo old (marshal_TunnelInfo t) = Inr t"
  by (simp add: unmarshal_TunnelInfo_def marshal_TunnelInfo_def wire)

lemma decode_elements_TunnelInfo:
  "list_all info_ok ts \<Longrightarrow>
   decode_elements zero_TunnelInfo unmarshal_TunnelInfo [] (map marshal_TunnelInfo ts) = Inr ts"
  by (induction ts) (simp_all add: unmarshal_marshal_TunnelInfo zero_TunnelInfo_def)

interpretation request_codec: codec marshal_Request "unmarshal_Request zero_Request" request_ok
  by unfold_locales
    (auto simp: unmarshal_Request_def marshal_Request_def zero_Request_def wire split: option.split)

interpretation response_codec: codec marshal_Response "unmarshal_Response zero_Response" response_ok
  by unfold_locales
    (auto simp: unmarshal_Response_def marshal_Response_def zero_Response_def wire decode_pointer_def
      split: option.split)

interpretation notification_codec: codec marshal_Notification "unmarshal_Notification zero_Notification" notification_ok
  by unfold_locales
    (auto simp: unmarshal_Notification_def marshal_Notification_def zero_Notification_def wire split: option.split)

interpretation name_codec: codec marshal_NameParams "unmarshal_NameParams zero_NameParams" name_ok
  by unfold_locales (simp add: unmarshal_NameParams_def marshal_NameParams_def zero_NameParams_def wire)

interpretation register_codec: codec marshal_RegisterParams "unmarshal_RegisterParams zero_RegisterParams" register_ok
  by unfold_locales
    (simp add: unmarshal_RegisterParams_def marshal_RegisterParams_def zero_RegisterParams_def wire)

interpretation status_codec: codec marshal_StatusResult "unmarshal_StatusResult zero_StatusResult" status_ok
  by unfold_locales (simp add: unmarshal_StatusResult_def marshal_StatusResult_def zero_StatusResult_def wire)

interpretation list_codec: codec marshal_ListResult "unmarshal_ListResult zero_ListResult" list_ok
  by unfold_locales
    (simp add: unmarshal_ListResult_def marshal_ListResult_def zero_ListResult_def wire decode_slice_def
      decode_elements_TunnelInfo)

interpretation ping_codec: codec marshal_PingResult "unmarshal_PingResult zero_PingResult" ping_ok
  by unfold_locales (simp add: unmarshal_PingResult_def marshal_PingResult_def zero_PingResult_def wire)

section \<open>Properties\<close>

text \<open>
  C31.  A message that one side encodes the other side decodes to the same message: a request, a response
  with its result or its error, a notification, and inside them the parameters of every method, as
  long as the strings are valid UTF-8.
\<close>

theorem message_roundtrip:
  "(request_ok q \<longrightarrow> unmarshal_Request zero_Request (marshal_Request q) = Inr q) \<and>
   (response_ok r \<longrightarrow> unmarshal_Response zero_Response (marshal_Response r) = Inr r) \<and>
   (notification_ok n \<longrightarrow> unmarshal_Notification zero_Notification (marshal_Notification n) = Inr n) \<and>
   (name_ok p \<longrightarrow> unmarshal_NameParams zero_NameParams (marshal_NameParams p) = Inr p) \<and>
   (register_ok g \<longrightarrow> unmarshal_RegisterParams zero_RegisterParams (marshal_RegisterParams g) = Inr g) \<and>
   (status_ok t \<longrightarrow> unmarshal_StatusResult zero_StatusResult (marshal_StatusResult t) = Inr t)"
  by (simp add: request_codec.decode_enc response_codec.decode_enc notification_codec.decode_enc
      name_codec.decode_enc register_codec.decode_enc status_codec.decode_enc del: request_ok.simps
      response_ok.simps notification_ok.simps name_ok.simps register_ok.simps status_ok.simps)

theorem message_roundtrip_witness:
  "unmarshal_Response zero_Response (marshal_Response (NewError ''7'' 1001 ''tunnel not found'')) =
     Inr (NewError ''7'' 1001 ''tunnel not found'')"
proof -
  have "response_ok (NewError ''7'' 1001 ''tunnel not found'')"
    by (simp add: NewError_def valid_utf8_ascii ascii_def)
  then show ?thesis using message_roundtrip by blast
qed

text \<open>
  A tunnel list keeps its order, its length and every field of every tunnel across the socket,
  the nested configuration included, and different lists have different encodings.
\<close>

lemma list_roundtrip:
  assumes "list_ok r"
  shows "unmarshal_ListResult zero_ListResult (marshal_ListResult r) = Inr r \<and>
    (\<forall>r'. list_ok r' \<and> marshal_ListResult r' = marshal_ListResult r \<longrightarrow> r' = r)"
  using assms list_codec.decode_enc list_codec.enc_eq_iff by blast

definition sample_info :: TunnelInfo where
  "sample_info = \<lparr>ti_Name = ''db'', ti_Status = StateError, ti_Error = ''unable to connect'', ti_Ephemeral = True,
     ti_Config = \<lparr>tc_Name = ''db'', tc_Host = ''bastion'', tc_Remote = ''db:5432'', tc_Local = '':5432''\<rparr>\<rparr>"

lemma list_roundtrip_example:
  "unmarshal_ListResult zero_ListResult (marshal_ListResult \<lparr>lr_Tunnels = [sample_info, sample_info]\<rparr>) =
     Inr \<lparr>lr_Tunnels = [sample_info, sample_info]\<rparr>"
proof -
  have "list_ok \<lparr>lr_Tunnels = [sample_info, sample_info]\<rparr>"
    by (simp add: sample_info_def State_defs valid_utf8_ascii ascii_def)
  then show ?thesis using list_roundtrip by blast
qed

end
