(* ===== verification/Daemon.thy ===== *)
theory Daemon
  imports Auth Protocol Manager_Props
begin

text \<open>
  Package \<^verbatim>\<open>internal/daemon\<close>, files \<^verbatim>\<open>daemon.go\<close> and \<^verbatim>\<open>handlers.go\<close>: the daemon's state, the request
  handlers with every branch of their error handling, the dispatch, the life of a connection, the
  broadcast of status changes, starting and shutting down.
\<close>

section \<open>State\<close>

text \<open>A connection and its \<^verbatim>\<open>subscriber\<close> struct are known by one number.\<close>

type_synonym conn_id = nat

text \<open>
  The struct \<^verbatim>\<open>Daemon\<close>; with it the goroutines that the manager has in flight, the calls of its
  callback so far, what was written to each connection, the connections whose writes fail, the
  goroutines that are about to run \<^verbatim>\<open>Shutdown\<close>, and the terminal of the process.
\<close>

record Daemon =
  d_config :: Config
  d_manager :: Manager
  d_listener :: "bool option"
  d_subscribers :: "(conn_id, unit) gomap"
  d_cancelled :: bool
  d_tasks :: "task multiset"
  d_calls :: log
  d_out :: "conn_id \<Rightarrow> json list"
  d_broken :: "conn_id set"
  d_shutdowns :: nat
  d_tty :: tty

definition Version :: string where
  "Version = ''0.1.1''"

text \<open>The callback that \<^verbatim>\<open>New\<close> installs.\<close>

definition broadcast_callback :: callback where
  "broadcast_callback = 0"

definition New :: "Config \<Rightarrow> tty \<Rightarrow> Daemon" where
  "New cfg t = \<lparr>d_config = cfg, d_manager = SetOnChange (NewManager cfg) broadcast_callback,
     d_listener = None, d_subscribers = [], d_cancelled = False, d_tasks = {#}, d_calls = [],
     d_out = (\<lambda>_. []), d_broken = {}, d_shutdowns = 0, d_tty = t\<rparr>"

definition sys_of :: "Daemon \<Rightarrow> sys" where
  "sys_of d = (d_manager d, d_tasks d, d_calls d)"

text \<open>\<^verbatim>\<open>encoder.Encode\<close>: the first result says whether the write succeeded.\<close>

definition Encode :: "conn_id \<Rightarrow> json \<Rightarrow> Daemon \<Rightarrow> bool \<times> Daemon" where
  "Encode c v d =
     (if c \<in> d_broken d then (False, d)
      else (True, d\<lparr>d_out := (d_out d)(c := d_out d c @ [v])\<rparr>))"

definition broadcastStatusChange ::
  "((conn_id, unit) gomap \<Rightarrow> (conn_id, unit) gomap) \<Rightarrow> StatusChange \<Rightarrow> Daemon \<Rightarrow> Daemon" where
  "broadcastStatusChange iter change d =
     (let notification = NewNotification MethodStatusChanged (marshal_StatusResult
            \<lparr>sr_Name = sc_Name change, sr_Status = sc_Status change, sr_Error = sc_Error change\<rparr>)
      in fold (\<lambda>(sub, u) d. snd (Encode sub (marshal_Notification notification) d))
           (iter (d_subscribers d)) d)"

section \<open>Handlers\<close>

text \<open>
  What a handler takes from outside the daemon: the SSH configuration library, the environment of
  the authenticators, the name generator, the clock, the iteration orders of the two maps, and what
  the other goroutines do at the \<open>k\<close>-th place where the handler holds no lock.
\<close>

record handler_env =
  he_ssh :: ssh_config
  he_auth :: auth_env
  he_gen :: "nat \<Rightarrow> string"
  he_now :: time
  he_iter :: "(string, ptr) gomap \<Rightarrow> (string, ptr) gomap"
  he_subs :: "(conn_id, unit) gomap \<Rightarrow> (conn_id, unit) gomap"
  he_others :: "nat \<Rightarrow> Daemon \<Rightarrow> Daemon"

text \<open>A call of the manager's callback, which is \<^verbatim>\<open>broadcastStatusChange\<close>.\<close>

definition call_onChange :: "handler_env \<Rightarrow> callback option \<Rightarrow> StatusChange \<Rightarrow> Daemon \<Rightarrow> Daemon" where
  "call_onChange env onChange change d =
     (case onChange of
        None \<Rightarrow> d
      | Some fn \<Rightarrow> broadcastStatusChange (he_subs env) change (d\<lparr>d_calls := d_calls d @ [(fn, change)]\<rparr>))"

text \<open>
  The whole of the manager's \<^verbatim>\<open>Start\<close> in the goroutine of its caller: the locked section, the
  notification, the new goroutine, the brief wait, the second locked section and its notification.
  For a tunnel that is active the lock is released before the error reads its state.
\<close>

definition Manager_Start :: "handler_env \<Rightarrow> string \<Rightarrow> string \<Rightarrow> string \<Rightarrow> Daemon \<Rightarrow> mgr_error option \<times> Daemon" where
  "Manager_Start env name sshHost sshUser d =
     (case Start_begin (d_manager d) name (he_now env) of
        Inl e \<Rightarrow> (case lookup (d_manager d) name of
            None \<Rightarrow> (Some e, d)
          | Some p \<Rightarrow> (let d = he_others env 0 d in (Some (Start_already (d_manager d) p name), d)))
      | Inr (p, c, onChange, m) \<Rightarrow>
          (let d = he_others env 0 (d\<lparr>d_manager := m\<rparr>);
               d = call_onChange env onChange \<lparr>sc_Name = name, sc_Status = StateConnecting, sc_Error = []\<rparr> d;
               t = tunnel_of (m_heap (d_manager d) p) sshHost sshUser;
               d = he_others env 1 (d\<lparr>d_tasks := add_mset (Goroutine p name c t) (d_tasks d)\<rparr>)
           in case Start_settle (d_manager d) p name of
                (m, None) \<Rightarrow> (None, d\<lparr>d_manager := m\<rparr>)
              | (m, Some (onChange, change)) \<Rightarrow>
                  (None, call_onChange env onChange change (he_others env 2 (d\<lparr>d_manager := m\<rparr>)))))"

abbreviation isPrint_of :: "handler_env \<Rightarrow> nat \<Rightarrow> bool" where
  "isPrint_of env \<equiv> ae_isPrint (he_auth env)"

definition handleSubscribe :: "conn_id \<Rightarrow> Daemon \<Rightarrow> Request \<Rightarrow> Response \<times> Daemon" where
  "handleSubscribe sub d req =
     (NewResult (req_ID req) empty_struct,
      d\<lparr>d_subscribers := AList.update sub () (d_subscribers d)\<rparr>)"

definition status_result :: "string \<Rightarrow> State \<times> string \<Rightarrow> json" where
  "status_result name st = marshal_StatusResult \<lparr>sr_Name = name, sr_Status = fst st, sr_Error = snd st\<rparr>"

text \<open>The decoding and the check of the name that three handlers begin with.\<close>

definition with_name :: "Daemon \<Rightarrow> Request \<Rightarrow> (string \<Rightarrow> Response \<times> Daemon) \<Rightarrow> Response \<times> Daemon" where
  "with_name d req body =
     (case json_Unmarshal unmarshal_NameParams zero_NameParams (req_Params req) of
        Inl e \<Rightarrow> (NewError (req_ID req) ErrCodeInvalidParams ''invalid params'', d)
      | Inr params \<Rightarrow>
          if np_Name params = []
          then (NewError (req_ID req) ErrCodeInvalidParams ''name is required'', d)
          else body (np_Name params))"

definition handleTunnelStart :: "handler_env \<Rightarrow> Daemon \<Rightarrow> Request \<Rightarrow> Response \<times> Daemon" where
  "handleTunnelStart env d req = with_name d req (\<lambda>name.
     case (case GetConfig (d_manager d) name of
             None \<Rightarrow> GetTunnelByName (d_config d) name
           | Some tc \<Rightarrow> Some tc) of
       None \<Rightarrow> (NewError (req_ID req) ErrCodeTunnelNotFound
                 (''tunnel '' @ Quote (isPrint_of env) name @ '' not found''), d)
     | Some tunnelCfg \<Rightarrow>
         (case parseHost (he_ssh env) (ae_getenv (he_auth env)) (tc_Host tunnelCfg) of
            (sshHost, sshUser, identityFiles) \<Rightarrow>
              (case GetAuthMethodsWithIdentity (he_auth env) (ac_Method (cfg_Auth (d_config d)))
                      identityFiles (d_tty d) of
                 (Inl e, t) \<Rightarrow>
                   (NewError (req_ID req) ErrCodeAuthRequired (''auth error: '' @ e),
                    he_others env 3 (d\<lparr>d_tty := t\<rparr>))
               | (Inr authMethods, t) \<Rightarrow>
                   (case Manager_Start env name sshHost sshUser (he_others env 3 (d\<lparr>d_tty := t\<rparr>)) of
                      (Some e, d) \<Rightarrow>
                        (let text = mgr_error_text (isPrint_of env) e in
                         if Contains text ''already''
                         then (NewError (req_ID req) ErrCodeTunnelActive text, d)
                         else (NewError (req_ID req) ErrCodeInternal text, d))
                    | (None, d) \<Rightarrow>
                        (let d = he_others env 4 d
                         in (NewResult (req_ID req) (status_result name (Status (d_manager d) name)), d))))))"

definition handleTunnelStop :: "handler_env \<Rightarrow> Daemon \<Rightarrow> Request \<Rightarrow> Response \<times> Daemon" where
  "handleTunnelStop env d req = with_name d req (\<lambda>name.
     case Stop (d_manager d) name of
       Inl e \<Rightarrow>
         (let text = mgr_error_text (isPrint_of env) e in
          if Contains text ''not found'' then (NewError (req_ID req) ErrCodeTunnelNotFound text, d)
          else if Contains text ''not running'' then (NewError (req_ID req) ErrCodeTunnelInactive text, d)
          else (NewError (req_ID req) ErrCodeInternal text, d))
     | Inr (m, ephemeral) \<Rightarrow>
         (NewResult (req_ID req) empty_struct,
          d\<lparr>d_manager := m,
            d_tasks := (if ephemeral then add_mset (DelayedDelete name) (d_tasks d) else d_tasks d)\<rparr>))"

definition handleTunnelStatus :: "Daemon \<Rightarrow> Request \<Rightarrow> Response \<times> Daemon" where
  "handleTunnelStatus d req = with_name d req (\<lambda>name.
     let st = Status (d_manager d) name in
     if snd st = ''tunnel not found'' then (NewError (req_ID req) ErrCodeTunnelNotFound (snd st), d)
     else (NewResult (req_ID req) (status_result name st), d))"

definition tunnel_info :: "ManagedTunnel \<Rightarrow> TunnelInfo" where
  "tunnel_info mt = \<lparr>ti_Name = tc_Name (mt_Config mt), ti_Status = mt_Status mt, ti_Error = mt_Error mt,
     ti_Ephemeral = mt_Ephemeral mt, ti_Config = mt_Config mt\<rparr>"

definition handleTunnelList :: "handler_env \<Rightarrow> Daemon \<Rightarrow> Request \<Rightarrow> Response \<times> Daemon" where
  "handleTunnelList env d req =
     (NewResult (req_ID req) (marshal_ListResult
        \<lparr>lr_Tunnels = map tunnel_info (Manager_List (he_iter env) (d_manager d))\<rparr>), d)"

definition handleTunnelRegister :: "handler_env \<Rightarrow> Daemon \<Rightarrow> Request \<Rightarrow> Response \<times> Daemon" where
  "handleTunnelRegister env d req =
     (case json_Unmarshal unmarshal_RegisterParams zero_RegisterParams (req_Params req) of
        Inl e \<Rightarrow> (NewError (req_ID req) ErrCodeInvalidParams ''invalid params'', d)
      | Inr params \<Rightarrow>
          if rp_Host params = [] \<or> rp_Remote params = [] \<or> rp_Local params = []
          then (NewError (req_ID req) ErrCodeInvalidParams ''host, remote, and local are required'', d)
          else
            (case Register (he_gen env) (d_manager d) \<lparr>tc_Name = [], tc_Host = rp_Host params,
                    tc_Remote = rp_Remote params, tc_Local = rp_Local params\<rparr> of
               Inl e \<Rightarrow> (NewError (req_ID req) ErrCodeInternal (mgr_error_text (isPrint_of env) e), d)
             | Inr (name, m) \<Rightarrow>
                 (NewResult (req_ID req) (marshal_NameParams \<lparr>np_Name = name\<rparr>), d\<lparr>d_manager := m\<rparr>)))"

definition handlePing :: "Daemon \<Rightarrow> Request \<Rightarrow> Response \<times> Daemon" where
  "handlePing d req = (NewResult (req_ID req) (marshal_PingResult \<lparr>pr_Version = Version\<rparr>), d)"

text \<open>\<^verbatim>\<open>handleShutdown\<close> starts a goroutine that runs \<^verbatim>\<open>Shutdown\<close>.\<close>

definition handleShutdown :: "Daemon \<Rightarrow> Request \<Rightarrow> Response \<times> Daemon" where
  "handleShutdown d req =
     (NewResult (req_ID req) empty_struct, d\<lparr>d_shutdowns := d_shutdowns d + 1\<rparr>)"

definition handleRequest :: "handler_env \<Rightarrow> conn_id \<Rightarrow> Daemon \<Rightarrow> Request \<Rightarrow> Response \<times> Daemon" where
  "handleRequest env sub d req =
     (if req_Method req = MethodSubscribe then handleSubscribe sub d req
      else if req_Method req = MethodTunnelStart then handleTunnelStart env d req
      else if req_Method req = MethodTunnelStop then handleTunnelStop env d req
      else if req_Method req = MethodTunnelStatus then handleTunnelStatus d req
      else if req_Method req = MethodTunnelList then handleTunnelList env d req
      else if req_Method req = MethodTunnelRegister then handleTunnelRegister env d req
      else if req_Method req = MethodDaemonPing then handlePing d req
      else if req_Method req = MethodDaemonShutdown then handleShutdown d req
      else (NewError (req_ID req) ErrCodeMethodNotFound (''unknown method: '' @ req_Method req), d))"

section \<open>Connections, starting and shutting down\<close>

text \<open>
  The loop of \<^verbatim>\<open>handleConnection\<close> over the values that arrive, each with the environment at its
  time; it ends with the stream, at a value that is no request, or when a response cannot be
  written.
\<close>

fun serve :: "conn_id \<Rightarrow> (handler_env \<times> json) list \<Rightarrow> Daemon \<Rightarrow> Daemon" where
  "serve sub [] d = d"
| "serve sub ((env, v) # rest) d =
     (case unmarshal_Request zero_Request v of
        Inl e \<Rightarrow> d
      | Inr req \<Rightarrow>
          (case handleRequest env sub d req of
             (resp, d) \<Rightarrow>
               (case Encode sub (marshal_Response resp) d of
                  (False, d) \<Rightarrow> d
                | (True, d) \<Rightarrow> serve sub rest d)))"

definition handleConnection :: "conn_id \<Rightarrow> (handler_env \<times> json) list \<Rightarrow> Daemon \<Rightarrow> Daemon" where
  "handleConnection sub incoming d =
     (let d = serve sub incoming d
      in d\<lparr>d_subscribers := AList.delete sub (d_subscribers d)\<rparr>)"

text \<open>
  \<^verbatim>\<open>acceptLoop\<close> over the results of \<^verbatim>\<open>Accept\<close>, each with the state of the context at that time: the
  connections handed to a goroutine, and whether the loop has returned.
\<close>

fun acceptLoop :: "(conn_id option \<times> bool) list \<Rightarrow> conn_id list \<times> bool" where
  "acceptLoop [] = ([], False)"
| "acceptLoop ((Some conn, cancelled) # rest) =
     (case acceptLoop rest of (conns, returned) \<Rightarrow> (conn # conns, returned))"
| "acceptLoop ((None, True) # rest) = ([], True)"
| "acceptLoop ((None, False) # rest) = acceptLoop rest"

definition Shutdown :: "((string, ptr) gomap \<Rightarrow> (string, ptr) gomap) \<Rightarrow> Daemon \<Rightarrow> Daemon" where
  "Shutdown iter d = d\<lparr>d_cancelled := True, d_manager := StopAll iter (d_manager d),
     d_listener := map_option (\<lambda>_. False) (d_listener d)\<rparr>"

definition SocketPath :: "getenv \<Rightarrow> (string \<Rightarrow> string option) \<Rightarrow> (string, string) result" where
  "SocketPath getenv mkdirAll =
     bind_result
       (if getenv ''XDG_RUNTIME_DIR'' = [] then
          (case UserHomeDir getenv of
             Inl e \<Rightarrow> Inl (''unable to get home directory: '' @ e)
           | Inr home \<Rightarrow> Inr (filepath_Join [home, ''.local'', ''state''], ''.gurren''))
        else Inr (getenv ''XDG_RUNTIME_DIR'', ''gurren''))
       (\<lambda>(runtimeDir, stateDirName).
          let stateDir = filepath_Join [runtimeDir, stateDirName]
          in case mkdirAll stateDir of
               Some e \<Rightarrow> Inl (''unable to create state directory: '' @ e)
             | None \<Rightarrow> Inr (filepath_Join [stateDir, ''daemon.sock'']))"

text \<open>What \<^verbatim>\<open>Start\<close> needs of the system; removing a file that does not exist is no error.\<close>

datatype remove_error = NotExist | RemoveError string

record socket_env =
  se_getenv :: getenv
  se_MkdirAll :: "string \<Rightarrow> string option"
  se_Remove :: "string \<Rightarrow> remove_error option"
  se_Listen :: "string \<Rightarrow> (unit, string) result"

definition Daemon_Start :: "socket_env \<Rightarrow> bool \<Rightarrow> Daemon \<Rightarrow> string option \<times> Daemon" where
  "Daemon_Start env running d =
     (if running then (Some ''daemon is already running'', d)
      else
        (case SocketPath (se_getenv env) (se_MkdirAll env) of
           Inl e \<Rightarrow> (Some e, d)
         | Inr socketPath \<Rightarrow>
             (case se_Remove env socketPath of
                Some (RemoveError e) \<Rightarrow> (Some (''unable to remove existing socket: '' @ e), d)
              | _ \<Rightarrow>
                  (case se_Listen env socketPath of
                     Inl e \<Rightarrow> (Some (''unable to listen on socket: '' @ e), d)
                   | Inr u \<Rightarrow> (None, d\<lparr>d_listener := Some True\<rparr>)))))"

end
