(* ===== verification/Daemon_Props.thy ===== *)
theory Daemon_Props
  imports Daemon
begin

text \<open>
  The daemon's guarantees: every handler answers the request it was given and leaves the tunnel
  manager in a reachable state, whatever the other goroutines do meanwhile; which error code means
  what; who receives a status change; what is left of a connection that ended and of a daemon that
  was shut down.
\<close>

section \<open>Manager steps beside other goroutines\<close>

text \<open>A step of the manager does not depend on the goroutines it does not touch.\<close>

lemma mgr_step_frame:
  "mgr_step s s' \<Longrightarrow> mgr_step (fst s, fst (snd s) + r, snd (snd s)) (fst s', fst (snd s') + r, snd (snd s'))"
proof (induction rule: mgr_step.induct)
  case (step_stop m name m' eph ts log)
  then show ?case using mgr_step.step_stop[of m name m' eph "ts + r" log] by (cases eph) simp_all
qed (auto intro: mgr_step.intros)

lemma mgr_steps_frame:
  assumes "mgr_step\<^sup>*\<^sup>* s s'"
  shows "mgr_step\<^sup>*\<^sup>* (fst s, fst (snd s) + r, snd (snd s)) (fst s', fst (snd s') + r, snd (snd s'))"
  using assms
  by (induction rule: rtranclp_induct) (auto intro: rtranclp.rtrancl_into_rtrancl mgr_step_frame)

text \<open>What the other goroutines may do: any steps of the manager, never a change of the configuration.\<close>

definition others_ok :: "handler_env \<Rightarrow> bool" where
  "others_ok env \<longleftrightarrow> (\<forall>k d. mgr_step\<^sup>*\<^sup>* (sys_of d) (sys_of (he_others env k d)) \<and>
     d_config (he_others env k d) = d_config d)"

lemma others_run:
  assumes "others_ok env"
  shows "mgr_step\<^sup>*\<^sup>* (d_manager d, add_mset t (d_tasks d), d_calls d)
    (d_manager (he_others env k d), add_mset t (d_tasks (he_others env k d)), d_calls (he_others env k d))"
proof -
  from assms have "mgr_step\<^sup>*\<^sup>* (sys_of d) (sys_of (he_others env k d))" by (simp add: others_ok_def)
  from mgr_steps_frame[OF this, of "{#t#}"] show ?thesis by (simp add: sys_of_def)
qed

lemma others_config [simp]: "others_ok env \<Longrightarrow> d_config (he_others env k d) = d_config d"
  by (simp add: others_ok_def)

lemma encode_manager [simp]:
  "d_manager (snd (Encode c v d)) = d_manager d" "d_tasks (snd (Encode c v d)) = d_tasks d"
  "d_calls (snd (Encode c v d)) = d_calls d" "d_config (snd (Encode c v d)) = d_config d"
  "d_broken (snd (Encode c v d)) = d_broken d" "d_subscribers (snd (Encode c v d)) = d_subscribers d"
  by (simp_all add: Encode_def)

lemma encode_fold [simp]:
  "d_manager (fold (\<lambda>(sub, u) d. snd (Encode sub v d)) es d) = d_manager d"
  "d_tasks (fold (\<lambda>(sub, u) d. snd (Encode sub v d)) es d) = d_tasks d"
  "d_calls (fold (\<lambda>(sub, u) d. snd (Encode sub v d)) es d) = d_calls d"
  "d_config (fold (\<lambda>(sub, u) d. snd (Encode sub v d)) es d) = d_config d"
  "d_broken (fold (\<lambda>(sub, u) d. snd (Encode sub v d)) es d) = d_broken d"
  "d_subscribers (fold (\<lambda>(sub, u) d. snd (Encode sub v d)) es d) = d_subscribers d"
  by (induction es arbitrary: d) auto

lemma call_onChange_fields [simp]:
  "d_manager (call_onChange env cb change d) = d_manager d"
  "d_tasks (call_onChange env cb change d) = d_tasks d"
  "d_calls (call_onChange env cb change d) = notifyChange cb change (d_calls d)"
  "d_config (call_onChange env cb change d) = d_config d"
  by (simp_all add: call_onChange_def broadcastStatusChange_def notifyChange_def Let_def split: option.split)

lemma Manager_Start_run:
  assumes ok: "others_ok env" and st: "Manager_Start env name h u d = (r, d')"
  shows "mgr_step\<^sup>*\<^sup>* (sys_of d) (sys_of d') \<and> d_config d' = d_config d"
proof (cases "Start_begin (d_manager d) name (he_now env)")
  case (Inl e)
  from ok have "mgr_step\<^sup>*\<^sup>* (sys_of d) (sys_of (he_others env 0 d))" "d_config (he_others env 0 d) = d_config d"
    unfolding others_ok_def by blast+
  with st Inl show ?thesis by (cases "lookup (d_manager d) name") (auto simp: Manager_Start_def Let_def)
next
  case (Inr b)
  then obtain p c cb m where b: "Start_begin (d_manager d) name (he_now env) = Inr (p, c, cb, m)"
    by (cases b) auto
  define change where "change = \<lparr>sc_Name = name, sc_Status = StateConnecting, sc_Error = []\<rparr>"
  define d1 where "d1 = he_others env 0 (d\<lparr>d_manager := m\<rparr>)"
  define d2 where "d2 = call_onChange env cb change d1"
  define t where "t = tunnel_of (m_heap (d_manager d1) p) h u"
  define d3 where "d3 = he_others env 1 (d2\<lparr>d_tasks := add_mset (Goroutine p name c t) (d_tasks d2)\<rparr>)"
  obtain m4 r4 where s4: "Start_settle (d_manager d3) p name = (m4, r4)" by (cases "Start_settle (d_manager d3) p name")
  have "mgr_step (sys_of d) (m, add_mset (StartNotify p name c cb h u) (d_tasks d), d_calls d)"
    unfolding sys_of_def using b by (rule step_start)
  also have "mgr_step\<^sup>*\<^sup>* (m, add_mset (StartNotify p name c cb h u) (d_tasks d), d_calls d)
      (d_manager d1, add_mset (StartNotify p name c cb h u) (d_tasks d1), d_calls d1)"
    using others_run[OF ok, of "d\<lparr>d_manager := m\<rparr>"] by (simp add: d1_def)
  also have "mgr_step \<dots> (d_manager d2, add_mset (StartSettle p name) (add_mset (Goroutine p name c t) (d_tasks d2)), d_calls d2)"
    using step_spawn[of "d_manager d1" p name c cb h u "d_tasks d1" "d_calls d1"]
    by (simp add: d2_def t_def change_def add_mset_commute)
  also have "mgr_step\<^sup>*\<^sup>* \<dots> (d_manager d3, add_mset (StartSettle p name) (d_tasks d3), d_calls d3)"
    using others_run[OF ok, of "d2\<lparr>d_tasks := add_mset (Goroutine p name c t) (d_tasks d2)\<rparr>"]
    by (simp add: d3_def)
  also have "mgr_step\<^sup>*\<^sup>* \<dots> (sys_of d')"
  proof (cases r4)
    case None
    with st b s4 have "sys_of d' = (m4, d_tasks d3, d_calls d3)"
      by (auto simp: Manager_Start_def Let_def sys_of_def d1_def d2_def d3_def t_def change_def)
    with None s4 show ?thesis by (simp add: step_settle_other r_into_rtranclp)
  next
    case (Some a)
    obtain cb' change' where a: "a = (cb', change')" by (cases a)
    define d4 where "d4 = he_others env 2 (d3\<lparr>d_manager := m4\<rparr>)"
    from st b s4 Some a have d': "sys_of d' = (d_manager d4, d_tasks d4, notifyChange cb' change' (d_calls d4))"
      by (auto simp: Manager_Start_def Let_def sys_of_def d1_def d2_def d3_def d4_def t_def change_def)
    from s4 Some a have "mgr_step (d_manager d3, add_mset (StartSettle p name) (d_tasks d3), d_calls d3)
        (m4, add_mset (Notify cb' change') (d_tasks d3), d_calls d3)"
      by (simp add: step_settle_connected)
    also have "mgr_step\<^sup>*\<^sup>* (m4, add_mset (Notify cb' change') (d_tasks d3), d_calls d3)
        (d_manager d4, add_mset (Notify cb' change') (d_tasks d4), d_calls d4)"
      using others_run[OF ok, of "d3\<lparr>d_manager := m4\<rparr>"] by (simp add: d4_def)
    also have "mgr_step \<dots> (sys_of d')" unfolding d' by (rule step_notify)
    finally show ?thesis .
  qed
  finally have "mgr_step\<^sup>*\<^sup>* (sys_of d) (sys_of d')" .
  moreover have "d_config d' = d_config d"
    using st b s4 ok by (auto simp: Manager_Start_def Let_def d1_def d2_def d3_def t_def change_def split: option.splits)
  ultimately show ?thesis ..
qed

section \<open>The contract of a handler\<close>

text \<open>
  What the dispatch and the connection loop rely on: a handler answers with the identifier of the
  request, with a result or with an error, keeps the configuration, and leaves the tunnel manager in
  a state that it can reach.
\<close>

abbreviation daemon_reach :: "Daemon \<Rightarrow> bool" where
  "daemon_reach d \<equiv> mgr_reach (d_config d) (sys_of d)"

locale request_handler =
  fixes handle :: "Daemon \<Rightarrow> Request \<Rightarrow> Response \<times> Daemon"
    and env_ok :: bool
  assumes same_id: "resp_ID (fst (handle d req)) = req_ID req"
    and one_answer: "(resp_Result (fst (handle d req)) = None) \<noteq> (resp_Error (fst (handle d req)) = None)"
    and manager_run: "env_ok \<Longrightarrow> mgr_step\<^sup>*\<^sup>* (sys_of d) (sys_of (snd (handle d req)))"
    and keeps_config: "env_ok \<Longrightarrow> d_config (snd (handle d req)) = d_config d"
begin

lemma keeps_reach: "env_ok \<Longrightarrow> daemon_reach d \<Longrightarrow> daemon_reach (snd (handle d req))"
  using manager_run keeps_config reach_steps by metis

end

lemma new_result_simps [simp]:
  "resp_ID (NewResult i v) = i" "resp_Result (NewResult i v) = Some v" "resp_Error (NewResult i v) = None"
  "resp_ID (NewError i k s) = i" "resp_Result (NewError i k s) = None"
  "resp_Error (NewError i k s) = Some \<lparr>err_Code = k, err_Message = s\<rparr>"
  by (simp_all add: NewResult_def NewError_def)

text \<open>A handler that first checks the name obeys the contract when its body does.\<close>

definition answers :: "Request \<Rightarrow> Response \<Rightarrow> bool" where
  "answers req resp \<longleftrightarrow> resp_ID resp = req_ID req \<and> (resp_Result resp = None) \<noteq> (resp_Error resp = None)"

lemma answers_simps [simp]: "answers req (NewResult (req_ID req) v)" "answers req (NewError (req_ID req) k s)"
  by (simp_all add: answers_def)

lemma with_name_answers:
  "(\<And>name. answers req (fst (body name))) \<Longrightarrow> answers req (fst (with_name d req body))"
  by (simp add: with_name_def split: sum.split)

lemma with_name_run:
  "P d \<Longrightarrow> (\<And>name. P (snd (body name))) \<Longrightarrow> P (snd (with_name d req body))"
  by (simp add: with_name_def split: sum.split)

lemma start_answers: "answers req (fst (handleTunnelStart env d req))"
  unfolding handleTunnelStart_def
  by (rule with_name_answers) (auto simp: Let_def split: option.split sum.split prod.split)

lemma stop_answers: "answers req (fst (handleTunnelStop env d req))"
  unfolding handleTunnelStop_def
  by (rule with_name_answers) (auto simp: Let_def split: sum.split)

lemma status_answers: "answers req (fst (handleTunnelStatus d req))"
  unfolding handleTunnelStatus_def by (rule with_name_answers) (simp add: Let_def)

lemma register_answers: "answers req (fst (handleTunnelRegister env d req))"
  by (auto simp: handleTunnelRegister_def split: sum.split)

lemma others_steps: "others_ok env \<Longrightarrow> mgr_step\<^sup>*\<^sup>* (sys_of d) (sys_of (he_others env k d))"
  unfolding others_ok_def by blast

lemma sys_of_tty [simp]: "sys_of (d\<lparr>d_tty := t\<rparr>) = sys_of d"
  by (simp add: sys_of_def)

lemma start_run:
  assumes ok: "others_ok env"
  shows "mgr_step\<^sup>*\<^sup>* (sys_of d) (sys_of (snd (handleTunnelStart env d req))) \<and>
    d_config (snd (handleTunnelStart env d req)) = d_config d"
proof -
  have o3: "mgr_step\<^sup>*\<^sup>* (sys_of d) (sys_of (he_others env k (d\<lparr>d_tty := t\<rparr>)))" for k t
    using others_steps[OF ok, of "d\<lparr>d_tty := t\<rparr>"] by simp
  have ms: "mgr_step\<^sup>*\<^sup>* (sys_of d) (sys_of d') \<and> d_config d' = d_config d"
    if "Manager_Start env name h u (he_others env k (d\<lparr>d_tty := t\<rparr>)) = (r, d')" for name h u k t r d'
    using Manager_Start_run[OF ok that] o3[of k t] ok by (auto intro: rtranclp_trans)
  have after: "mgr_step\<^sup>*\<^sup>* (sys_of d) (sys_of (he_others env k' d')) \<and> d_config d' = d_config d"
    if "Manager_Start env name h u (he_others env k (d\<lparr>d_tty := t\<rparr>)) = (r, d')" for name h u k k' t r d'
    using ms[OF that] others_steps[OF ok, of d' k'] by (meson rtranclp_trans)
  show ?thesis
    unfolding handleTunnelStart_def
  proof (rule with_name_run[where P = "\<lambda>d'. mgr_step\<^sup>*\<^sup>* (sys_of d) (sys_of d') \<and> d_config d' = d_config d"],
      goal_cases)
    case (2 name)
    obtain tc where tc: "(case GetConfig (d_manager d) name of None \<Rightarrow> GetTunnelByName (d_config d) name
        | Some tc \<Rightarrow> Some tc) = tc" by blast
    show ?case
    proof (cases tc)
      case (Some cfg)
      obtain h u ks where ph: "parseHost (he_ssh env) (ae_getenv (he_auth env)) (tc_Host cfg) = (h, u, ks)"
        by (metis prod_cases3)
      obtain am t where am: "GetAuthMethodsWithIdentity (he_auth env) (ac_Method (cfg_Auth (d_config d))) ks (d_tty d) = (am, t)"
        by (metis surj_pair)
      obtain r d' where r: "Manager_Start env name h u (he_others env 3 (d\<lparr>d_tty := t\<rparr>)) = (r, d')"
        by (metis surj_pair)
      show ?thesis
        using ms[OF r] after[OF r, of 4] o3[of 3 t] ok
        by (cases am; cases r) (simp_all add: tc Some ph am r Let_def)
    qed (simp add: tc)
  qed simp
qed

lemma stop_run:
  "mgr_step\<^sup>*\<^sup>* (sys_of d) (sys_of (snd (handleTunnelStop env d req))) \<and>
   d_config (snd (handleTunnelStop env d req)) = d_config d"
  by (auto simp: handleTunnelStop_def with_name_def Let_def sys_of_def split: sum.split
      dest: step_stop[of _ _ _ _ "d_tasks d" "d_calls d"])

lemma register_run:
  "mgr_step\<^sup>*\<^sup>* (sys_of d) (sys_of (snd (handleTunnelRegister env d req))) \<and>
   d_config (snd (handleTunnelRegister env d req)) = d_config d"
  by (auto simp: handleTunnelRegister_def sys_of_def split: sum.split
      dest: step_register[of _ _ _ _ _ "d_tasks d" "d_calls d"])

interpretation h_subscribe: request_handler "handleSubscribe sub" True
  by unfold_locales (simp_all add: handleSubscribe_def sys_of_def)

interpretation h_start: request_handler "handleTunnelStart env" "others_ok env"
  by unfold_locales (use start_answers start_run in \<open>auto simp: answers_def\<close>)

interpretation h_stop: request_handler "handleTunnelStop env" True
  by unfold_locales (use stop_answers stop_run in \<open>auto simp: answers_def\<close>)

interpretation h_status: request_handler handleTunnelStatus True
  by unfold_locales (use status_answers in \<open>auto simp: answers_def\<close>,
      simp_all add: handleTunnelStatus_def with_name_def Let_def split: sum.split)

interpretation h_list: request_handler "handleTunnelList env" True
  by unfold_locales (simp_all add: handleTunnelList_def)

interpretation h_register: request_handler "handleTunnelRegister env" True
  by unfold_locales (use register_answers register_run in \<open>auto simp: answers_def\<close>)

interpretation h_ping: request_handler handlePing True
  by unfold_locales (simp_all add: handlePing_def)

interpretation h_shutdown: request_handler handleShutdown True
  by unfold_locales (simp_all add: handleShutdown_def sys_of_def)

lemma handleRequest_cases:
  assumes "P (handleSubscribe sub d req)" "P (handleTunnelStart env d req)" "P (handleTunnelStop env d req)"
    "P (handleTunnelStatus d req)" "P (handleTunnelList env d req)" "P (handleTunnelRegister env d req)"
    "P (handlePing d req)" "P (handleShutdown d req)"
    "P (NewError (req_ID req) ErrCodeMethodNotFound (''unknown method: '' @ req_Method req), d)"
  shows "P (handleRequest env sub d req)"
  using assms by (simp add: handleRequest_def)

interpretation h_request: request_handler "handleRequest env sub" "others_ok env"
proof (unfold_locales, goal_cases)
  case (1 d req)
  show ?case
    by (rule handleRequest_cases) (simp_all add: h_subscribe.same_id h_start.same_id h_stop.same_id
        h_status.same_id h_list.same_id h_register.same_id h_ping.same_id h_shutdown.same_id)
next
  case (2 d req)
  show ?case
    by (rule handleRequest_cases) (rule h_subscribe.one_answer h_start.one_answer h_stop.one_answer
        h_status.one_answer h_list.one_answer h_register.one_answer h_ping.one_answer
        h_shutdown.one_answer | simp)+
next
  case (3 d req)
  note ok = this
  show ?case
    by (rule handleRequest_cases) (simp_all add: ok h_subscribe.manager_run h_start.manager_run h_stop.manager_run
        h_status.manager_run h_list.manager_run h_register.manager_run h_ping.manager_run h_shutdown.manager_run)
next
  case (4 d req)
  note ok = this
  show ?case
    by (rule handleRequest_cases) (simp_all add: ok h_subscribe.keeps_config h_start.keeps_config
        h_stop.keeps_config h_status.keeps_config h_list.keeps_config h_register.keeps_config
        h_ping.keeps_config h_shutdown.keeps_config)
qed

section \<open>A sample daemon\<close>

definition sample_henv :: handler_env where
  "sample_henv = \<lparr>he_ssh = \<lparr>GetStrict = (\<lambda>h k. []), GetAll = (\<lambda>h k. [])\<rparr>, he_auth = sample_env,
     he_gen = (\<lambda>i. ''brave_'' @ dec i), he_now = 7, he_iter = rev, he_subs = rev, he_others = (\<lambda>k d. d)\<rparr>"

definition sample_tty :: tty where
  "sample_tty = \<lparr>tty_input = [], tty_output = []\<rparr>"

definition sample_daemon :: Daemon where
  "sample_daemon = New sample_config sample_tty"

definition sample_request :: "string \<Rightarrow> json \<Rightarrow> Request" where
  "sample_request method params = \<lparr>req_ID = ''1'', req_Method = method, req_Params = Some params\<rparr>"

lemma others_ok_sample: "others_ok sample_henv"
  by (simp add: others_ok_def sample_henv_def)

lemma reach_New: "daemon_reach (New cfg t)"
proof -
  have "mgr_reach cfg (SetOnChange (NewManager cfg) broadcast_callback, {#}, [])"
    by (rule reach_step, rule reach_init, simp add: mgr_init_def, rule step_set_callback)
  then show ?thesis by (simp add: New_def sys_of_def)
qed

lemma sample_daemon_simps [simp]:
  "d_manager sample_daemon = SetOnChange (NewManager sample_config) broadcast_callback"
  "d_config sample_daemon = sample_config" "d_subscribers sample_daemon = []"
  "d_tty sample_daemon = sample_tty" "daemon_reach sample_daemon"
  using reach_New[of sample_config sample_tty] by (simp_all add: sample_daemon_def New_def)

lemma SetOnChange_simps [simp]:
  "m_tunnels (SetOnChange m fn) = m_tunnels m" "m_heap (SetOnChange m fn) = m_heap m"
  by (simp_all add: SetOnChange_def)

section \<open>Requests\<close>

text \<open>
  C28.  Every request is answered with its own identifier and with exactly one of a result and an error,
  whatever the method, the parameters and the other goroutines.
\<close>

theorem request_answered:
  "resp_ID (fst (handleRequest env sub d req)) = req_ID req \<and>
   (resp_Result (fst (handleRequest env sub d req)) = None) \<noteq>
     (resp_Error (fst (handleRequest env sub d req)) = None)"
  by (simp only: h_request.same_id h_request.one_answer simp_thms)

text \<open>
  C3.  Handling a request, also the long one that starts a tunnel, takes the tunnel manager only through
  its own steps, interleaved with those of the other goroutines: a daemon whose manager is in a
  reachable state still has one after any request.
\<close>

theorem request_keeps_manager:
  assumes "others_ok env" "daemon_reach d"
  shows "daemon_reach (snd (handleRequest env sub d req)) \<and>
    d_config (snd (handleRequest env sub d req)) = d_config d"
  using h_request.keeps_reach[OF assms] h_request.keeps_config[OF assms(1)] by simp

theorem request_keeps_manager_witness:
  "daemon_reach (snd (handleRequest sample_henv 1 sample_daemon
     (sample_request MethodTunnelStart (marshal_NameParams \<lparr>np_Name = ''db''\<rparr>))))"
  using request_keeps_manager[OF others_ok_sample sample_daemon_simps(5)] by blast

lemma method_neq [simp]:
  "distinct [MethodSubscribe, MethodTunnelStart, MethodTunnelStop, MethodTunnelStatus, MethodTunnelList,
     MethodTunnelRegister, MethodDaemonPing, MethodDaemonShutdown, MethodStatusChanged]"
  by (simp add: method_defs)

definition methods :: "string set" where
  "methods = {MethodSubscribe, MethodTunnelStart, MethodTunnelStop, MethodTunnelStatus, MethodTunnelList,
     MethodTunnelRegister, MethodDaemonPing, MethodDaemonShutdown}"

definition error_code :: "Response \<Rightarrow> int option" where
  "error_code resp = map_option err_Code (resp_Error resp)"

lemma error_code_simps [simp]:
  "error_code (NewResult i v) = None" "error_code (NewError i k s) = Some k"
  by (simp_all add: error_code_def)

lemma code_distinct [simp]:
  "distinct [ErrCodeInternal, ErrCodeInvalidParams, ErrCodeMethodNotFound, ErrCodeTunnelNotFound,
     ErrCodeTunnelActive, ErrCodeTunnelInactive, ErrCodeAuthRequired]"
  by (simp add: code_defs)

text \<open>The error codes of the handlers that can fail.\<close>

lemma with_name_code:
  "(\<And>name. P (error_code (fst (body name)))) \<Longrightarrow> P (Some ErrCodeInvalidParams) \<Longrightarrow>
   P (error_code (fst (with_name d req body)))"
  by (simp add: with_name_def split: sum.split)

lemma handler_codes:
  "error_code (fst (handleTunnelStart env d req)) \<noteq> Some ErrCodeMethodNotFound"
  "error_code (fst (handleTunnelStop env d req)) \<noteq> Some ErrCodeMethodNotFound"
  "error_code (fst (handleTunnelStatus d req)) \<noteq> Some ErrCodeMethodNotFound"
  "error_code (fst (handleTunnelRegister env d req)) \<noteq> Some ErrCodeMethodNotFound"
  subgoal
    unfolding handleTunnelStart_def
    by (rule with_name_code) (auto simp: Let_def code_defs split: option.split sum.split prod.split)
  subgoal
    unfolding handleTunnelStop_def by (rule with_name_code) (auto simp: Let_def code_defs split: sum.split)
  subgoal unfolding handleTunnelStatus_def by (rule with_name_code) (auto simp: Let_def code_defs)
  subgoal by (auto simp: handleTunnelRegister_def code_defs split: sum.split)
  done

text \<open>
  The code for an unknown method is returned exactly for the methods that the daemon does not have,
  and such a request changes nothing.
\<close>

lemma unknown_method:
  "(error_code (fst (handleRequest env sub d req)) = Some ErrCodeMethodNotFound \<longleftrightarrow> req_Method req \<notin> methods) \<and>
   (snd (handleRequest env sub d req) = d \<or> req_Method req \<in> methods)"
proof (cases "req_Method req \<in> methods")
  case False
  then show ?thesis by (simp add: handleRequest_def methods_def)
next
  case True
  have "error_code (fst (handleRequest env sub d req)) \<noteq> Some ErrCodeMethodNotFound"
    using True handler_codes
    by (auto simp: handleRequest_def methods_def handleSubscribe_def handleTunnelList_def handlePing_def
        handleShutdown_def)
  with True show ?thesis by simp
qed

section \<open>Stopping, starting and asking\<close>

lemma plain_valid: "plain s \<Longrightarrow> valid_utf8 s"
proof (rule valid_utf8_ascii)
  have "plain_char c \<Longrightarrow> of_char c < (128 :: nat)" for c
    unfolding plain_char_def by linarith
  then show "plain s \<Longrightarrow> ascii s" unfolding plain_def ascii_def list_all_iff by blast
qed

text \<open>The request that the client sends for a name.\<close>

definition asks :: "Request \<Rightarrow> string \<Rightarrow> bool" where
  "asks req name \<longleftrightarrow> req_Params req = Some (marshal_NameParams \<lparr>np_Name = name\<rparr>) \<and>
     valid_utf8 name \<and> name \<noteq> []"

lemma with_name_asks: "asks req name \<Longrightarrow> with_name d req body = body name"
  using name_codec.decode_enc[of "\<lparr>np_Name = name\<rparr>"]
  by (simp add: asks_def with_name_def json_Unmarshal_def)

lemma asks_sample: "valid_utf8 name \<Longrightarrow> name \<noteq> [] \<Longrightarrow>
   asks (sample_request method (marshal_NameParams \<lparr>np_Name = name\<rparr>)) name"
  by (simp add: asks_def sample_request_def)

lemma stop_texts:
  "Contains (mgr_error_text isPrint (TunnelNotFound name)) ''not found''"
  "plain name \<Longrightarrow> Contains (mgr_error_text isPrint (TunnelNotRunning name)) ''not found'' \<longleftrightarrow>
     Contains name ''not found''"
  "Contains (mgr_error_text isPrint (TunnelNotRunning name)) ''not running''"
  using Contains_Quote[of "''not found''" "''tunnel ''" isPrint name "'' not found''"]
    Contains_Quote[of "''not found''" "''tunnel ''" isPrint name "'' is not running''"]
    Contains_Quote[of "''not running''" "''tunnel ''" isPrint name "'' is not running''"]
  by (simp_all add: quote_body_plain)

text \<open>
  C21.  What \<^verbatim>\<open>tunnel.stop\<close> answers for a printable name: the code for an unknown tunnel when the manager
  has none of that name, success when it is active, and the code for an inactive tunnel otherwise,
  except that the codes are told apart by searching the error text, which quotes the name: an
  inactive tunnel whose own name contains \<^verbatim>\<open>not found\<close> is reported as unknown.
\<close>

theorem stop_codes:
  assumes "asks req name" "plain name"
  shows "error_code (fst (handleTunnelStop env d req)) =
    (case lookup (d_manager d) name of
       None \<Rightarrow> Some ErrCodeTunnelNotFound
     | Some p \<Rightarrow>
         if IsActive (status_of (d_manager d) p) then None
         else if Contains name ''not found'' then Some ErrCodeTunnelNotFound
         else Some ErrCodeTunnelInactive)"
  using assms stop_texts[where name = name and isPrint = "isPrint_of env"]
  by (auto simp: handleTunnelStop_def with_name_asks Let_def Stop_def simp del: mgr_error_text.simps
      split: option.split)

theorem stop_codes_witness:
  "error_code (fst (handleTunnelStop sample_henv
     (sample_daemon\<lparr>d_manager := insert_tunnel ''not found'' (disconnected_tunnel sample_tunnel True) (NewManager sample_config)\<rparr>)
     (sample_request MethodTunnelStop (marshal_NameParams \<lparr>np_Name = ''not found''\<rparr>)))) = Some ErrCodeTunnelNotFound"
proof -
  have plain: "plain ''not found''" by (simp add: plain_def plain_char_def)
  from stop_codes[OF asks_sample[OF plain_valid[OF plain]] plain] show ?thesis
    by (simp add: disconnected_tunnel_def)
qed

lemma configured_in_manager:
  assumes "daemon_reach d" "GetConfig (d_manager d) name = None"
  shows "GetTunnelByName (d_config d) name = None"
proof -
  from assms(1) have inv: "mgr_inv (sys_of d)" and kept: "config_kept (d_config d) (sys_of d)"
    using mgr_config.reach_inv by blast+
  from assms(2) have "lookup (d_manager d) name = None" by (simp add: GetConfig_def)
  with inv kept have "name \<notin> tc_Name ` set (cfg_Tunnels (d_config d))"
    by (auto simp: mgr_inv_def map_ok_def configured_def config_kept_def sys_of_def)
  then show ?thesis by (auto simp: GetTunnelByName_def find_tunnel_eq_find find_None_iff)
qed

text \<open>
  C27.  \<^verbatim>\<open>tunnel.start\<close> answers with the code for an unknown tunnel exactly when the manager has no tunnel
  of that name; the configuration file, which it looks at next, never knows one that the manager
  does not.  Such a request changes nothing.
\<close>

theorem start_unknown_tunnel:
  assumes "asks req name" "daemon_reach d"
  shows "(error_code (fst (handleTunnelStart env d req)) = Some ErrCodeTunnelNotFound \<longleftrightarrow>
      GetConfig (d_manager d) name = None) \<and>
    (GetConfig (d_manager d) name = None \<longrightarrow> snd (handleTunnelStart env d req) = d)"
proof (cases "GetConfig (d_manager d) name")
  case None
  with configured_in_manager[OF assms(2)] assms(1) show ?thesis
    by (simp add: handleTunnelStart_def with_name_asks)
next
  case (Some tc)
  with assms(1) show ?thesis
    by (auto simp: handleTunnelStart_def with_name_asks Let_def code_defs simp del: mgr_error_text.simps
        split: prod.split sum.split option.split)
qed

theorem start_unknown_tunnel_witness:
  "error_code (fst (handleTunnelStart sample_henv sample_daemon
     (sample_request MethodTunnelStart (marshal_NameParams \<lparr>np_Name = ''nope''\<rparr>)))) = Some ErrCodeTunnelNotFound"
proof -
  have "valid_utf8 ''nope''" by (simp add: valid_utf8_ascii ascii_def)
  moreover have "GetConfig (d_manager sample_daemon) ''nope'' = None"
    by (simp add: GetConfig_def sample_config_def NewManager_def empty_manager_def sample_tunnel_def)
  ultimately show ?thesis
    using start_unknown_tunnel[OF asks_sample sample_daemon_simps(5)] by blast
qed

text \<open>
  \<^verbatim>\<open>tunnel.status\<close> reports the manager's own state and error of a tunnel that exists, the code for an
  unknown tunnel for every other name, and changes nothing.
\<close>

lemma status_reports:
  assumes "asks req name" "daemon_reach d"
  shows "handleTunnelStatus d req =
    ((case lookup (d_manager d) name of
        None \<Rightarrow> NewError (req_ID req) ErrCodeTunnelNotFound ''tunnel not found''
      | Some p \<Rightarrow> NewResult (req_ID req) (marshal_StatusResult \<lparr>sr_Name = name,
          sr_Status = status_of (d_manager d) p, sr_Error = mt_Error (m_heap (d_manager d) p)\<rparr>)), d)"
proof (cases "lookup (d_manager d) name")
  case None
  with assms(1) show ?thesis by (simp add: handleTunnelStatus_def with_name_asks Status_def)
next
  case (Some p)
  from assms(2) have "mgr_inv (sys_of d)" by (rule mgr.reach_inv)
  with Some have "cell_ok (d_manager d) (m_heap (d_manager d) p)"
    by (auto simp: mgr_inv_def sys_of_def dest: map_okD heap_okD)
  then have "mt_Error (m_heap (d_manager d) p) \<noteq> ''tunnel not found''"
    by (auto simp: cell_ok_def split: if_splits)
  with Some assms(1) show ?thesis
    by (simp add: handleTunnelStatus_def with_name_asks Status_def status_result_def)
qed

section \<open>Registering\<close>

lemma GetConfig_registered:
  "GetConfig (insert_tunnel name mt m) name = Some (mt_Config mt)"
  "Status (insert_tunnel name mt m) name = (mt_Status mt, mt_Error mt)"
  by (simp_all add: GetConfig_def Status_def)

text \<open>
  C20.  \<^verbatim>\<open>tunnel.register\<close> with a host, a remote and a local address answers with the first generated name
  that is free; afterwards the manager has a disconnected tunnel of that name with these addresses,
  and all other tunnels as before.  With all ten names taken it fails and changes nothing.
\<close>

theorem register_adds_tunnel:
  assumes "req_Params req = Some (marshal_RegisterParams g)" "register_ok g"
    "rp_Host g \<noteq> []" "rp_Remote g \<noteq> []" "rp_Local g \<noteq> []" "daemon_reach d"
  shows "case handleTunnelRegister env d req of (resp, d') \<Rightarrow>
    if \<exists>i<10. \<not> has_tunnel (d_manager d) (he_gen env i)
    then (\<exists>i<10. let name = he_gen env i in
        \<not> has_tunnel (d_manager d) name \<and> (\<forall>j<i. has_tunnel (d_manager d) (he_gen env j)) \<and>
        resp = NewResult (req_ID req) (marshal_NameParams \<lparr>np_Name = name\<rparr>) \<and>
        GetConfig (d_manager d') name =
          Some \<lparr>tc_Name = name, tc_Host = rp_Host g, tc_Remote = rp_Remote g, tc_Local = rp_Local g\<rparr> \<and>
        Status (d_manager d') name = (StateDisconnected, []) \<and>
        (\<forall>n. n = name \<or> (GetConfig (d_manager d') n = GetConfig (d_manager d) n \<and>
           Status (d_manager d') n = Status (d_manager d) n)))
    else resp = NewError (req_ID req) ErrCodeInternal ''failed to generate unique name'' \<and> d' = d"
proof -
  let ?tc = "\<lparr>tc_Name = [], tc_Host = rp_Host g, tc_Remote = rp_Remote g, tc_Local = rp_Local g\<rparr>"
  from assms have h: "handleTunnelRegister env d req =
      (case Register (he_gen env) (d_manager d) ?tc of
         Inl e \<Rightarrow> (NewError (req_ID req) ErrCodeInternal (mgr_error_text (isPrint_of env) e), d)
       | Inr (name, m) \<Rightarrow> (NewResult (req_ID req) (marshal_NameParams \<lparr>np_Name = name\<rparr>), d\<lparr>d_manager := m\<rparr>))"
    using register_codec.decode_enc[of g] by (simp add: handleTunnelRegister_def json_Unmarshal_def)
  show ?thesis
  proof (cases "\<exists>i<10. \<not> has_tunnel (d_manager d) (he_gen env i)")
    case True
    then obtain i where i: "i < 10" "\<not> has_tunnel (d_manager d) (he_gen env i)" by blast
    define j where "j = (LEAST i. \<not> has_tunnel (d_manager d) (he_gen env i))"
    let ?name = "he_gen env j"
    let ?m = "insert_tunnel ?name (disconnected_tunnel (?tc\<lparr>tc_Name := ?name\<rparr>) True) (d_manager d)"
    from i have j: "j < 10" "\<not> has_tunnel (d_manager d) ?name"
      using LeastI[of "\<lambda>i. \<not> has_tunnel (d_manager d) (he_gen env i)" i]
        Least_le[of "\<lambda>i. \<not> has_tunnel (d_manager d) (he_gen env i)" i] by (simp_all add: j_def)
    have least: "\<forall>l<j. has_tunnel (d_manager d) (he_gen env l)" unfolding j_def using not_less_Least by blast
    have "Register (he_gen env) (d_manager d) ?tc = Inr (?name, ?m)"
      using True by (simp add: Register_eq Let_def j_def)
    with h have resp: "handleTunnelRegister env d req =
        (NewResult (req_ID req) (marshal_NameParams \<lparr>np_Name = ?name\<rparr>), d\<lparr>d_manager := ?m\<rparr>)" by simp
    from assms(6) have "mgr_inv (sys_of d)" by (rule mgr.reach_inv)
    then have mo: "map_ok (d_manager d)" by (simp add: mgr_inv_def sys_of_def)
    then have "n = ?name \<or> GetConfig ?m n = GetConfig (d_manager d) n \<and> Status ?m n = Status (d_manager d) n" for n
      by (cases "lookup (d_manager d) n") (auto simp: GetConfig_def Status_def dest: map_okD(1))
    with True j least show ?thesis
      unfolding resp prod.case Let_def
      by (simp only: if_True) (intro exI[of _ j], simp add: GetConfig_registered disconnected_tunnel_def)
  next
    case False
    with h have "handleTunnelRegister env d req =
        (NewError (req_ID req) ErrCodeInternal ''failed to generate unique name'', d)" by (simp add: Register_eq)
    with False show ?thesis by auto
  qed
qed

definition sample_params :: TunnelRegisterParams where
  "sample_params = \<lparr>rp_Host = ''me@bastion'', rp_Remote = ''db:5432'', rp_Local = '':15432''\<rparr>"

theorem register_adds_tunnel_witness:
  "\<exists>name d'. handleTunnelRegister sample_henv sample_daemon
      (sample_request MethodTunnelRegister (marshal_RegisterParams sample_params)) =
        (NewResult ''1'' (marshal_NameParams \<lparr>np_Name = name\<rparr>), d') \<and>
      Status (d_manager d') name = (StateDisconnected, [])"
proof -
  let ?req = "sample_request MethodTunnelRegister (marshal_RegisterParams sample_params)"
  have ok: "register_ok sample_params" by (simp add: sample_params_def valid_utf8_ascii ascii_def)
  have free: "\<exists>i<10. \<not> has_tunnel (d_manager sample_daemon) (he_gen sample_henv i)"
    by (intro exI[of _ 0]) (simp add: has_tunnel_def sample_henv_def sample_config_def NewManager_def
        empty_manager_def sample_tunnel_def)
  have params: "req_Params ?req = Some (marshal_RegisterParams sample_params)" "req_ID ?req = ''1''"
    by (simp_all add: sample_request_def)
  have ne: "rp_Host sample_params \<noteq> []" "rp_Remote sample_params \<noteq> []" "rp_Local sample_params \<noteq> []"
    by (simp_all add: sample_params_def)
  obtain resp d' where h: "handleTunnelRegister sample_henv sample_daemon ?req = (resp, d')"
    by (cases "handleTunnelRegister sample_henv sample_daemon ?req")
  from register_adds_tunnel[OF params(1) ok ne sample_daemon_simps(5), of sample_henv]
  show ?thesis unfolding h prod.case if_P[OF free] Let_def params(2) by blast
qed

section \<open>Subscribers\<close>

definition subscribed :: "Daemon \<Rightarrow> conn_id \<Rightarrow> bool" where
  "subscribed d c \<longleftrightarrow> map_of (d_subscribers d) c \<noteq> None"

lemma encode_out:
  "d_out (snd (Encode sub v d)) c = d_out d c @ (if c = sub \<and> c \<notin> d_broken d then [v] else [])"
  by (simp add: Encode_def)

lemma encode_fold_out:
  "distinct (map fst es) \<Longrightarrow>
   d_out (fold (\<lambda>(sub, u) d. snd (Encode sub v d)) es d) c =
     d_out d c @ (if c \<in> fst ` set es \<and> c \<notin> d_broken d then [v] else [])"
proof (induction es arbitrary: d)
  case (Cons e es)
  then show ?case by (cases e) (auto simp: encode_out)
qed simp

text \<open>
  C19.  A status change reaches every subscribed connection exactly once, however often it has subscribed
  and in whatever order the map is iterated, and no connection that has not subscribed; a subscriber
  whose writes fail does not keep it from the others.  What arrives decodes to that change.
\<close>

theorem broadcast_reaches_subscribers:
  assumes "gomap_wf (d_subscribers d)" "map_order iter"
    "valid_utf8 (sc_Name change)" "valid_utf8 (sc_Status change)" "valid_utf8 (sc_Error change)"
  shows "\<exists>v. (\<forall>c. d_out (broadcastStatusChange iter change d) c =
        d_out d c @ (if subscribed d c \<and> c \<notin> d_broken d then [v] else [])) \<and>
    bind_result (unmarshal_Notification zero_Notification v)
      (\<lambda>n. json_Unmarshal unmarshal_StatusResult zero_StatusResult (not_Params n)) =
      Inr \<lparr>sr_Name = sc_Name change, sr_Status = sc_Status change, sr_Error = sc_Error change\<rparr>"
proof -
  let ?p = "\<lparr>sr_Name = sc_Name change, sr_Status = sc_Status change, sr_Error = sc_Error change\<rparr>"
  let ?n = "NewNotification MethodStatusChanged (marshal_StatusResult ?p)"
  have "mset (map fst (iter (d_subscribers d))) = mset (map fst (d_subscribers d))"
    using assms(2) by (simp add: map_order_def)
  with assms(1) have dist: "distinct (map fst (iter (d_subscribers d)))"
    using mset_eq_imp_distinct_iff gomap_wf_def by blast
  have "c \<in> fst ` set (iter (d_subscribers d)) \<longleftrightarrow> subscribed d c" for c
    using assms(2) by (simp add: subscribed_def map_of_eq_None_iff)
  then have "d_out (broadcastStatusChange iter change d) c =
      d_out d c @ (if subscribed d c \<and> c \<notin> d_broken d then [marshal_Notification ?n] else [])" for c
    by (simp add: broadcastStatusChange_def encode_fold_out[OF dist])
  moreover have "notification_ok ?n"
    by (simp add: NewNotification_def MethodStatusChanged_def valid_utf8_ascii ascii_def)
  then have "unmarshal_Notification zero_Notification (marshal_Notification ?n) = Inr ?n"
    by (rule notification_codec.decode_enc)
  moreover have "unmarshal_StatusResult zero_StatusResult (marshal_StatusResult ?p) = Inr ?p"
    using assms(3-5) by (intro status_codec.decode_enc) simp
  ultimately show ?thesis
    by (intro exI[of _ "marshal_Notification ?n"]) (simp add: NewNotification_def json_Unmarshal_def)
qed

theorem broadcast_reaches_subscribers_witness:
  "\<exists>v. d_out (broadcastStatusChange rev \<lparr>sc_Name = ''db'', sc_Status = StateConnected, sc_Error = []\<rparr>
      (sample_daemon\<lparr>d_subscribers := [(3, ()), (4, ())]\<rparr>)) 4 = [v]"
proof -
  have "gomap_wf (d_subscribers (sample_daemon\<lparr>d_subscribers := [(3, ()), (4, ())]\<rparr>))" by (simp add: gomap_wf_def)
  from broadcast_reaches_subscribers[OF this map_order_id(2), of
      "\<lparr>sc_Name = ''db'', sc_Status = StateConnected, sc_Error = []\<rparr>"]
  obtain v where v: "\<forall>c. d_out (broadcastStatusChange rev \<lparr>sc_Name = ''db'', sc_Status = StateConnected, sc_Error = []\<rparr>
      (sample_daemon\<lparr>d_subscribers := [(3, ()), (4, ())]\<rparr>)) c = d_out sample_daemon c @
        (if subscribed (sample_daemon\<lparr>d_subscribers := [(3, ()), (4, ())]\<rparr>) c \<and> c \<notin> d_broken sample_daemon then [v] else [])"
    by (auto simp: State_defs valid_utf8_ascii ascii_def)
  show ?thesis
    by (rule exI[of _ v]) (simp add: v subscribed_def, simp add: sample_daemon_def New_def)
qed

section \<open>Connections\<close>

text \<open>The identifiers of the responses among the messages of a connection.\<close>

fun response_id :: "json \<Rightarrow> json list" where
  "response_id (JObj kvs) = (case map_of kvs ''id'' of None \<Rightarrow> [] | Some i \<Rightarrow> [i])"
| "response_id _ = []"

definition response_ids :: "json list \<Rightarrow> json list" where
  "response_ids vs = concat (map response_id vs)"

text \<open>The identifiers of the requests that arrive, up to the first value that is none.\<close>

fun request_ids :: "(handler_env \<times> json) list \<Rightarrow> json list" where
  "request_ids [] = []"
| "request_ids ((env, v) # rest) =
     (case unmarshal_Request zero_Request v of
        Inl e \<Rightarrow> []
      | Inr req \<Rightarrow> json_string (req_ID req) # request_ids rest)"

text \<open>Only the goroutine of a connection writes responses to it.\<close>

definition no_responses :: "conn_id \<Rightarrow> handler_env \<Rightarrow> bool" where
  "no_responses sub env \<longleftrightarrow>
     (\<forall>k d. response_ids (d_out (he_others env k d) sub) = response_ids (d_out d sub))"

lemma response_ids_simps [simp]:
  "response_ids [] = []" "response_ids (xs @ ys) = response_ids xs @ response_ids ys"
  "response_ids [marshal_Response r] = [json_string (resp_ID r)]"
  "response_ids [marshal_Notification n] = []"
  by (simp_all add: response_ids_def marshal_Response_def marshal_Notification_def)

lemma encode_fold_response_ids:
  "response_ids (d_out (fold (\<lambda>(sub, u) d. snd (Encode sub (marshal_Notification n) d)) es d) c) = response_ids (d_out d c)"
  by (induction es arbitrary: d) (auto simp: encode_out)

lemma call_onChange_response_ids [simp]:
  "response_ids (d_out (call_onChange env cb change d) c) = response_ids (d_out d c)"
  by (simp add: call_onChange_def broadcastStatusChange_def Let_def encode_fold_response_ids split: option.split)

lemma Manager_Start_response_ids:
  assumes "no_responses sub env" "Manager_Start env name h u d = (r, d')"
  shows "response_ids (d_out d' sub) = response_ids (d_out d sub)"
proof -
  have others: "response_ids (d_out (he_others env k d) sub) = response_ids (d_out d sub)" for k d
    using assms(1) unfolding no_responses_def by blast
  from assms(2) show ?thesis
    by (auto simp: Manager_Start_def Let_def others split: sum.splits prod.splits option.splits)
qed

lemma start_response_ids:
  assumes "no_responses sub env"
  shows "response_ids (d_out (snd (handleTunnelStart env d req)) sub) = response_ids (d_out d sub)"
  unfolding handleTunnelStart_def
proof (rule with_name_run[where P = "\<lambda>d'. response_ids (d_out d' sub) = response_ids (d_out d sub)"], goal_cases)
  case (2 name)
  have others: "response_ids (d_out (he_others env k d) sub) = response_ids (d_out d sub)" for k d
    using assms unfolding no_responses_def by blast
  show ?case
    by (auto simp: Let_def others split: option.split sum.split prod.split dest!: Manager_Start_response_ids[OF assms])
qed simp

lemma handleRequest_response_ids:
  assumes "no_responses sub env"
  shows "response_ids (d_out (snd (handleRequest env sub' d req)) sub) = response_ids (d_out d sub)"
  by (rule handleRequest_cases)
    (auto simp: start_response_ids[OF assms] handleSubscribe_def handleTunnelStop_def handleTunnelStatus_def
      with_name_def handleTunnelList_def handleTunnelRegister_def handlePing_def handleShutdown_def Let_def
      split: sum.split)

lemma serve_in_order:
  assumes "list_all (no_responses sub \<circ> fst) incoming"
  shows "\<exists>rest. response_ids (d_out d sub) @ request_ids incoming =
      response_ids (d_out (serve sub incoming d) sub) @ rest \<and>
    (rest = [] \<or> sub \<in> d_broken (serve sub incoming d))"
  using assms
proof (induction sub incoming d rule: serve.induct)
  case (2 sub env v rest d)
  show ?case
  proof (cases "unmarshal_Request zero_Request v")
    case (Inr req)
    obtain resp d1 where h: "handleRequest env sub d req = (resp, d1)" by (cases "handleRequest env sub d req")
    obtain ok d2 where e: "Encode sub (marshal_Response resp) d1 = (ok, d2)"
      by (cases "Encode sub (marshal_Response resp) d1")
    from 2(2) have ids: "response_ids (d_out d1 sub) = response_ids (d_out d sub)"
      using handleRequest_response_ids[of sub env sub d req] h by simp
    have rid: "resp_ID resp = req_ID req" using h_request.same_id[of env sub d req] h by simp
    show ?thesis
    proof (cases ok)
      case True
      with e have "response_ids (d_out d2 sub) = response_ids (d_out d sub) @ [json_string (req_ID req)]"
        using ids rid by (auto simp: Encode_def split: if_splits)
      moreover from 2(2) have "list_all (no_responses sub \<circ> fst) rest" by (simp add: comp_def)
      note 2(1)[OF Inr h[symmetric] e[symmetric] _ this]
      ultimately show ?thesis using True by (simp add: Inr h e)
    next
      case False
      with e have "d2 = d1" "sub \<in> d_broken d1" by (auto simp: Encode_def split: if_splits)
      with False ids show ?thesis by (simp add: Inr h e)
    qed
  qed simp
qed simp

text \<open>
  C18.  On one connection the requests are answered in the order they arrive, one response each, up to the
  first value that is not a request; responses are missing at the end only when writing to the
  connection fails.  A connection that has ended is not subscribed.
\<close>

theorem connection_answers_in_order:
  assumes "list_all (no_responses sub \<circ> fst) incoming"
  shows "\<not> subscribed (handleConnection sub incoming d) sub \<and>
    (\<exists>missing. response_ids (d_out d sub) @ request_ids incoming =
       response_ids (d_out (handleConnection sub incoming d) sub) @ missing \<and>
     (missing = [] \<or> sub \<in> d_broken (handleConnection sub incoming d)))"
  using serve_in_order[OF assms, of d] by (simp add: handleConnection_def subscribed_def Let_def)

theorem connection_answers_in_order_witness:
  "response_ids (d_out (handleConnection 5
     [(sample_henv, marshal_Request (sample_request MethodDaemonPing JNull)), (sample_henv, JBool True)]
     sample_daemon) 5) = [JStr ''1'']"
proof -
  let ?in = "[(sample_henv, marshal_Request (sample_request MethodDaemonPing JNull)), (sample_henv, JBool True)]"
  let ?d = "handleConnection 5 ?in sample_daemon"
  have ok: "list_all (no_responses 5 \<circ> fst) ?in" by (simp add: no_responses_def sample_henv_def)
  have "request_ok (sample_request MethodDaemonPing JNull)"
    by (simp add: sample_request_def MethodDaemonPing_def valid_utf8_ascii ascii_def)
  then have dec: "unmarshal_Request zero_Request (marshal_Request (sample_request MethodDaemonPing JNull)) =
      Inr (sample_request MethodDaemonPing JNull)" by (rule request_codec.decode_enc)
  have bad: "unmarshal_Request zero_Request (JBool True) = Inl TypeMismatch"
    by (simp add: unmarshal_Request_def decode_struct_def)
  have "handleRequest sample_henv 5 sample_daemon (sample_request MethodDaemonPing JNull) =
      handlePing sample_daemon (sample_request MethodDaemonPing JNull)"
    by (simp add: handleRequest_def sample_request_def method_defs)
  moreover have "d_broken sample_daemon = {}" "d_out sample_daemon 5 = []"
    by (simp_all add: sample_daemon_def New_def)
  ultimately have "d_broken ?d = {}"
    by (simp add: handleConnection_def dec bad handlePing_def Encode_def Let_def)
  moreover have "request_ids ?in = [json_string ''1'']" by (simp add: dec bad) (simp add: sample_request_def)
  moreover have "json_string ''1'' = JStr ''1''" by (rule decode_field_simps(4)) (simp add: valid_utf8_ascii ascii_def)
  ultimately show ?thesis
    using connection_answers_in_order[OF ok, of sample_daemon] \<open>d_out sample_daemon 5 = []\<close> by auto
qed

section \<open>Shutting down\<close>

text \<open>
  C29.  \<^verbatim>\<open>Shutdown\<close> cancels the daemon's context and the context of every tunnel that is running or about to
  run, and closes the listener; the manager stays in a reachable state.
\<close>

theorem shutdown_stops_everything:
  assumes "daemon_reach d" "map_order iter"
  shows "d_cancelled (Shutdown iter d) \<and> d_listener (Shutdown iter d) \<noteq> Some True \<and>
    daemon_reach (Shutdown iter d) \<and>
    (\<forall>p n c t. Goroutine p n c t \<in># d_tasks (Shutdown iter d) \<longrightarrow> c \<in> m_cancelled (d_manager (Shutdown iter d)))"
proof -
  have "mgr_step (sys_of d) (StopAll iter (d_manager d), d_tasks d, d_calls d)"
    unfolding sys_of_def using assms(2) by (rule step_stop_all)
  with assms(1) have r: "mgr_reach (d_config d) (StopAll iter (d_manager d), d_tasks d, d_calls d)" by (rule reach_step)
  have "c \<in> m_cancelled (StopAll iter (d_manager d))" if "Goroutine p n c t \<in># d_tasks d" for p n c t
    using assms that by (auto simp: sys_of_def dest!: stop_all_cancels_goroutine)
  with r show ?thesis by (auto simp: Shutdown_def sys_of_def)
qed

theorem shutdown_stops_everything_witness: "d_cancelled (Shutdown rev sample_daemon)"
  using shutdown_stops_everything[OF sample_daemon_simps(5) map_order_id(2)] by blast

end
