(* ===== verification/Client.thy ===== *)
theory Client
  imports Daemon_Props "HOL-Library.Word"
begin

text \<open>
  Package \<^verbatim>\<open>internal/daemon\<close>, file \<^verbatim>\<open>client.go\<close>: the client's state, one iteration of the loop that reads
  from the daemon, the sections of a call, the methods built on it, and the transition system in
  which any number of calls run beside the reading loop.
\<close>

section \<open>State\<close>

type_synonym chan = nat

text \<open>
  The struct \<^verbatim>\<open>Client\<close>: response channels are numbers with their buffered values; what was sent is
  kept in order.  \<^verbatim>\<open>cl_done\<close> says that the reading loop has returned, which closes \<^verbatim>\<open>notifications\<close> and
  \<^verbatim>\<open>closedCh\<close>.
\<close>

record Client =
  cl_nextID :: "64 word"
  cl_notifications :: "Notification list"
  cl_responses :: "(string, chan) gomap"
  cl_chans :: "chan \<Rightarrow> Response list"
  cl_nextchan :: chan
  cl_closed :: bool
  cl_done :: bool
  cl_sent :: "json list"

definition new_client :: Client where
  "new_client = \<lparr>cl_nextID = 0, cl_notifications = [], cl_responses = [], cl_chans = (\<lambda>_. []),
     cl_nextchan = 0, cl_closed = False, cl_done = False, cl_sent = []\<rparr>"

text \<open>\<^verbatim>\<open>Connect\<close>: \<open>dial\<close> is \<^verbatim>\<open>net.Dial\<close> on a Unix socket.\<close>

definition Connect :: "getenv \<Rightarrow> (string \<Rightarrow> string option) \<Rightarrow> (string \<Rightarrow> (unit, string) result) \<Rightarrow> (Client, string) result" where
  "Connect getenv mkdirAll dial =
     (case SocketPath getenv mkdirAll of
        Inl e \<Rightarrow> Inl e
      | Inr socketPath \<Rightarrow>
          (case dial socketPath of
             Inl e \<Rightarrow> Inl (''unable to connect to daemon: '' @ e)
           | Inr u \<Rightarrow> Inr new_client))"

definition notification_capacity :: nat where
  "notification_capacity = 100"

text \<open>
  One iteration of \<^verbatim>\<open>readLoop\<close> for the value \<open>raw\<close>.  A response channel holds one value; sending to a full
  one would block with the lock held, which is the result \<open>None\<close>.
\<close>

definition receive_response :: "Response \<Rightarrow> Client \<Rightarrow> Client option" where
  "receive_response resp c =
     (case map_of (cl_responses c) (resp_ID resp) of
        None \<Rightarrow> Some c
      | Some ch \<Rightarrow>
          if length (cl_chans c ch) < 1
          then Some (c\<lparr>cl_chans := (cl_chans c)(ch := cl_chans c ch @ [resp]),
                       cl_responses := AList.delete (resp_ID resp) (cl_responses c)\<rparr>)
          else None)"

definition receive_notification :: "Notification \<Rightarrow> Client \<Rightarrow> Client" where
  "receive_notification notif c =
     (if length (cl_notifications c) < notification_capacity
      then c\<lparr>cl_notifications := cl_notifications c @ [notif]\<rparr> else c)"

definition readLoop_iteration :: "json \<Rightarrow> Client \<Rightarrow> Client option" where
  "readLoop_iteration raw c =
     (case (case unmarshal_Response zero_Response raw of
              Inl e \<Rightarrow> None
            | Inr resp \<Rightarrow> if resp_ID resp \<noteq> [] then Some resp else None) of
        Some resp \<Rightarrow> receive_response resp c
      | None \<Rightarrow>
          (case unmarshal_Notification zero_Notification raw of
             Inl e \<Rightarrow> Some c
           | Inr notif \<Rightarrow> if not_Method notif \<noteq> [] then Some (receive_notification notif c) else Some c))"

definition Close :: "Client \<Rightarrow> Client" where
  "Close c = c\<lparr>cl_closed := True\<rparr>"

section \<open>Calls\<close>

text \<open>The sections of \<^verbatim>\<open>call\<close>: a new identifier, the response channel, the send, its failure.\<close>

definition call_id :: "Client \<Rightarrow> string \<times> Client" where
  "call_id c = (dec (unat (cl_nextID c + 1)), c\<lparr>cl_nextID := cl_nextID c + 1\<rparr>)"

definition call_register :: "string \<Rightarrow> Client \<Rightarrow> chan \<times> Client" where
  "call_register i c =
     (cl_nextchan c, c\<lparr>cl_chans := (cl_chans c)(cl_nextchan c := []), cl_nextchan := cl_nextchan c + 1,
        cl_responses := AList.update i (cl_nextchan c) (cl_responses c)\<rparr>)"

definition call_send :: "string \<Rightarrow> string \<Rightarrow> RawMessage \<Rightarrow> Client \<Rightarrow> Client" where
  "call_send i method params c =
     c\<lparr>cl_sent := cl_sent c @ [marshal_Request \<lparr>req_ID = i, req_Method = method, req_Params = params\<rparr>]\<rparr>"

definition call_fail :: "string \<Rightarrow> Client \<Rightarrow> Client" where
  "call_fail i c = c\<lparr>cl_responses := AList.delete i (cl_responses c)\<rparr>"

datatype client_error =
    SendFailed string
  | ConnectionClosed
  | ServerError string
  | ParseFailed json_error

text \<open>The texts of the errors; \<open>jsonErr\<close> is the text of an error of \<^verbatim>\<open>encoding/json\<close>.\<close>

fun client_error_text :: "(json_error \<Rightarrow> string) \<Rightarrow> client_error \<Rightarrow> string" where
  "client_error_text jsonErr (SendFailed e) = ''failed to send request: '' @ e"
| "client_error_text jsonErr ConnectionClosed = ''connection closed''"
| "client_error_text jsonErr (ServerError msg) = msg"
| "client_error_text jsonErr (ParseFailed e) = ''failed to parse result: '' @ jsonErr e"

text \<open>Receiving from the response channel in the final \<^verbatim>\<open>select\<close>.\<close>

definition call_receive :: "chan \<Rightarrow> Client \<Rightarrow> (Response \<times> Client) option" where
  "call_receive ch c =
     (case cl_chans c ch of
        [] \<Rightarrow> None
      | resp # rest \<Rightarrow> Some (resp, c\<lparr>cl_chans := (cl_chans c)(ch := rest)\<rparr>))"

text \<open>
  The methods of the client, over the outcome of \<^verbatim>\<open>call\<close> for a method and its parameters: an error of
  the server is returned with its message, a result is decoded.
\<close>

type_synonym caller = "string \<Rightarrow> RawMessage \<Rightarrow> (Response, client_error) result"

definition checked :: "string \<Rightarrow> (Response, client_error) result \<Rightarrow> (Response, client_error) result" where
  "checked pre r = bind_result r (\<lambda>resp.
     case resp_Error resp of
       Some e \<Rightarrow> Inl (ServerError (pre @ err_Message e))
     | None \<Rightarrow> Inr resp)"

definition parsed :: "'r decoder \<Rightarrow> 'r \<Rightarrow> (Response, client_error) result \<Rightarrow> ('r, client_error) result" where
  "parsed de zero r = bind_result r (\<lambda>resp.
     case json_Unmarshal de zero (resp_Result resp) of
       Inl e \<Rightarrow> Inl (ParseFailed e)
     | Inr x \<Rightarrow> Inr x)"

definition Client_Subscribe :: "caller \<Rightarrow> (unit, client_error) result" where
  "Client_Subscribe call = bind_result (checked ''subscribe failed: '' (call MethodSubscribe None)) (\<lambda>_. Inr ())"

definition Client_Ping :: "caller \<Rightarrow> (PingResult, client_error) result" where
  "Client_Ping call =
     parsed unmarshal_PingResult zero_PingResult (checked ''ping failed: '' (call MethodDaemonPing None))"

definition Client_TunnelStart :: "caller \<Rightarrow> string \<Rightarrow> (TunnelStatusResult, client_error) result" where
  "Client_TunnelStart call name =
     parsed unmarshal_StatusResult zero_StatusResult
       (checked [] (call MethodTunnelStart (Some (marshal_NameParams \<lparr>np_Name = name\<rparr>))))"

definition Client_TunnelStop :: "caller \<Rightarrow> string \<Rightarrow> (unit, client_error) result" where
  "Client_TunnelStop call name =
     bind_result (checked [] (call MethodTunnelStop (Some (marshal_NameParams \<lparr>np_Name = name\<rparr>)))) (\<lambda>_. Inr ())"

definition Client_TunnelStatus :: "caller \<Rightarrow> string \<Rightarrow> (TunnelStatusResult, client_error) result" where
  "Client_TunnelStatus call name =
     parsed unmarshal_StatusResult zero_StatusResult
       (checked [] (call MethodTunnelStatus (Some (marshal_NameParams \<lparr>np_Name = name\<rparr>))))"

definition Client_TunnelList :: "caller \<Rightarrow> (TunnelListResult, client_error) result" where
  "Client_TunnelList call =
     parsed unmarshal_ListResult zero_ListResult (checked [] (call MethodTunnelList None))"

definition Client_TunnelRegister :: "caller \<Rightarrow> string \<Rightarrow> string \<Rightarrow> string \<Rightarrow> (TunnelRegisterResult, client_error) result" where
  "Client_TunnelRegister call host remote loc =
     parsed unmarshal_NameParams zero_NameParams
       (checked [] (call MethodTunnelRegister
          (Some (marshal_RegisterParams \<lparr>rp_Host = host, rp_Remote = remote, rp_Local = loc\<rparr>))))"

definition Client_Shutdown :: "caller \<Rightarrow> (unit, client_error) result" where
  "Client_Shutdown call = bind_result (checked [] (call MethodDaemonShutdown None)) (\<lambda>_. Inr ())"

text \<open>\<^verbatim>\<open>IsRunning\<close>: the connection works and the daemon answers the ping.\<close>

definition IsRunning :: "(Client, string) result \<Rightarrow> caller \<Rightarrow> bool" where
  "IsRunning conn call =
     (case conn of
        Inl e \<Rightarrow> False
      | Inr client \<Rightarrow> (case Client_Ping call of Inl e \<Rightarrow> False | Inr r \<Rightarrow> True))"

section \<open>Concurrent calls\<close>

text \<open>
  Where a call is: it has an identifier, or its channel is registered and it is about to send, or it
  waits.  The number of calls so far and the outcomes of the finished ones are part of the state.
\<close>

datatype call_task =
    Registering string string RawMessage
  | Sending string chan string RawMessage
  | Waiting string chan

type_synonym outcome = "string \<times> (Response, client_error) result"

record client_sys =
  cs_client :: Client
  cs_tasks :: "call_task multiset"
  cs_issued :: nat
  cs_results :: "outcome list"

inductive client_step :: "client_sys \<Rightarrow> client_sys \<Rightarrow> bool" where
  cs_call: "call_id (cs_client s) = (i, c) \<Longrightarrow>
     client_step s (s\<lparr>cs_client := c, cs_tasks := add_mset (Registering i method params) (cs_tasks s),
       cs_issued := cs_issued s + 1\<rparr>)"
| cs_register: "cs_tasks s = add_mset (Registering i method params) ts \<Longrightarrow>
     call_register i (cs_client s) = (ch, c) \<Longrightarrow>
     client_step s (s\<lparr>cs_client := c, cs_tasks := add_mset (Sending i ch method params) ts\<rparr>)"
| cs_send: "cs_tasks s = add_mset (Sending i ch method params) ts \<Longrightarrow>
     client_step s (s\<lparr>cs_client := call_send i method params (cs_client s), cs_tasks := add_mset (Waiting i ch) ts\<rparr>)"
| cs_send_error: "cs_tasks s = add_mset (Sending i ch method params) ts \<Longrightarrow>
     client_step s (s\<lparr>cs_client := call_fail i (cs_client s), cs_tasks := ts,
       cs_results := cs_results s @ [(i, Inl (SendFailed e))]\<rparr>)"
| cs_read: "\<not> cl_done (cs_client s) \<Longrightarrow> readLoop_iteration raw (cs_client s) = Some c \<Longrightarrow>
     client_step s (s\<lparr>cs_client := c\<rparr>)"
| cs_read_error: "\<not> cl_done (cs_client s) \<Longrightarrow>
     client_step s (s\<lparr>cs_client := (cs_client s)\<lparr>cl_done := True\<rparr>\<rparr>)"
| cs_response: "cs_tasks s = add_mset (Waiting i ch) ts \<Longrightarrow>
     call_receive ch (cs_client s) = Some (resp, c) \<Longrightarrow>
     client_step s (s\<lparr>cs_client := c, cs_tasks := ts, cs_results := cs_results s @ [(i, Inr resp)]\<rparr>)"
| cs_disconnected: "cs_tasks s = add_mset (Waiting i ch) ts \<Longrightarrow> cl_done (cs_client s) \<Longrightarrow>
     client_step s (s\<lparr>cs_tasks := ts, cs_results := cs_results s @ [(i, Inl ConnectionClosed)]\<rparr>)"
| cs_notification: "cl_notifications (cs_client s) = n # ns \<Longrightarrow>
     client_step s (s\<lparr>cs_client := (cs_client s)\<lparr>cl_notifications := ns\<rparr>\<rparr>)"
| cs_close: "client_step s (s\<lparr>cs_client := Close (cs_client s)\<rparr>)"

definition initial_client :: client_sys where
  "initial_client = \<lparr>cs_client = new_client, cs_tasks = {#}, cs_issued = 0, cs_results = []\<rparr>"

abbreviation client_reach :: "client_sys \<Rightarrow> bool" where
  "client_reach \<equiv> reach (\<lambda>s. s = initial_client) client_step"

end
