(* ===== verification/Client_Props.thy ===== *)
theory Client_Props
  imports Client
begin

text \<open>
  The client's guarantees: its reading loop never blocks, responses go to the call that asked, no
  identifier is used twice, notifications are told from responses; and, composed with the daemon's
  handlers across the wire, what a user of the client sees of the tunnel manager.
\<close>

section \<open>The invariant\<close>

fun task_id :: "call_task \<Rightarrow> string" where
  "task_id (Registering i method params) = i"
| "task_id (Sending i ch method params) = i"
| "task_id (Waiting i ch) = i"

fun task_chan :: "call_task \<Rightarrow> chan option" where
  "task_chan (Registering i method params) = None"
| "task_chan (Sending i ch method params) = Some ch"
| "task_chan (Waiting i ch) = Some ch"

text \<open>Every channel belongs to one identifier and carries only responses with it.\<close>

definition owned :: "(chan \<Rightarrow> string) \<Rightarrow> Client \<Rightarrow> call_task multiset \<Rightarrow> bool" where
  "owned owner c ts \<longleftrightarrow>
     (\<forall>t\<in>#ts. \<forall>ch. task_chan t = Some ch \<longrightarrow> ch < cl_nextchan c \<and> owner ch = task_id t) \<and>
     (\<forall>i ch. map_of (cl_responses c) i = Some ch \<longrightarrow> ch < cl_nextchan c \<and> owner ch = i \<and> cl_chans c ch = []) \<and>
     (\<forall>ch<cl_nextchan c. length (cl_chans c ch) \<le> 1 \<and> (\<forall>r\<in>set (cl_chans c ch). resp_ID r = owner ch))"

text \<open>A call that has its channel can still receive: it is registered, or its response is there.\<close>

definition attended :: "Client \<Rightarrow> call_task \<Rightarrow> bool" where
  "attended c t \<longleftrightarrow>
     (case task_chan t of
        None \<Rightarrow> True
      | Some ch \<Rightarrow> map_of (cl_responses c) (task_id t) = Some ch \<or> cl_chans c ch \<noteq> [])"

definition used_ids :: "client_sys \<Rightarrow> string multiset" where
  "used_ids s = image_mset task_id (cs_tasks s) + mset (map fst (cs_results s))"

definition client_inv :: "client_sys \<Rightarrow> bool" where
  "client_inv s \<longleftrightarrow> (\<exists>owner. owned owner (cs_client s) (cs_tasks s)) \<and>
     length (cl_notifications (cs_client s)) \<le> notification_capacity \<and>
     (\<forall>(i, r)\<in>set (cs_results s). \<forall>resp. r = Inr resp \<longrightarrow> resp_ID resp = i) \<and>
     (cs_issued s < 2 ^ 64 \<longrightarrow> unat (cl_nextID (cs_client s)) = cs_issued s \<and>
        used_ids s = mset (map dec [1..<Suc (cs_issued s)]) \<and>
        (\<forall>t\<in>#cs_tasks s. attended (cs_client s) t))"

lemma client_inv_initial: "client_inv initial_client"
  by (simp add: client_inv_def initial_client_def new_client_def owned_def used_ids_def)

lemma attended_fields [simp]:
  "attended (c\<lparr>cl_nextID := x\<rparr>) t = attended c t"
  "attended (c\<lparr>cl_sent := vs\<rparr>) t = attended c t"
  "attended (c\<lparr>cl_notifications := ns\<rparr>) t = attended c t"
  "attended (c\<lparr>cl_done := b\<rparr>) t = attended c t"
  "attended (c\<lparr>cl_closed := b\<rparr>) t = attended c t"
  "attended c (Registering i method params)"
  by (simp_all add: attended_def split: option.split)

lemma owned_fields [simp]:
  "owned owner (c\<lparr>cl_nextID := x\<rparr>) ts = owned owner c ts"
  "owned owner (c\<lparr>cl_sent := vs\<rparr>) ts = owned owner c ts"
  "owned owner (c\<lparr>cl_notifications := ns\<rparr>) ts = owned owner c ts"
  "owned owner (c\<lparr>cl_done := b\<rparr>) ts = owned owner c ts"
  "owned owner (c\<lparr>cl_closed := b\<rparr>) ts = owned owner c ts"
  by (simp_all add: owned_def)

lemma owned_add [simp]:
  "owned owner c (add_mset t ts) \<longleftrightarrow>
     (\<forall>ch. task_chan t = Some ch \<longrightarrow> ch < cl_nextchan c \<and> owner ch = task_id t) \<and> owned owner c ts"
  by (auto simp: owned_def)

lemma unat_next: "unat (x :: 64 word) + 1 < 2 ^ 64 \<Longrightarrow> unat (x + 1) = unat x + 1"
  by (simp add: unat_word_ariths)

lemma used_ids_distinct:
  assumes "used_ids s = mset (map dec [1..<Suc n])"
  shows "count (used_ids s) i \<le> 1"
proof -
  have "distinct (map dec [1..<Suc n])" by (simp add: distinct_map inj_on_def)
  with assms show ?thesis by (simp add: distinct_count_atmost_1)
qed

lemma other_task_id:
  assumes "used_ids s = mset (map dec [1..<Suc n])" "cs_tasks s = add_mset t ts" "u \<in># ts"
  shows "task_id u \<noteq> task_id t"
proof
  assume eq: "task_id u = task_id t"
  from assms(3) obtain ts' where "ts = add_mset u ts'" by (metis insert_DiffM)
  with assms(2) eq have "2 \<le> count (used_ids s) (task_id t)" by (simp add: used_ids_def)
  with used_ids_distinct[OF assms(1), of "task_id t"] show False by simp
qed

lemma client_inv_call:
  assumes "client_inv s" "call_id (cs_client s) = (i, c)"
  shows "client_inv (s\<lparr>cs_client := c, cs_tasks := add_mset (Registering i method params) (cs_tasks s),
    cs_issued := cs_issued s + 1\<rparr>)"
proof -
  from assms(2) have i: "i = dec (unat (cl_nextID (cs_client s) + 1))"
    and c: "c = (cs_client s)\<lparr>cl_nextID := cl_nextID (cs_client s) + 1\<rparr>" by (simp_all add: call_id_def)
  have "unat (cl_nextID (cs_client s) + 1) = Suc (cs_issued s)" if "Suc (cs_issued s) < 2 ^ 64"
    using assms(1) that unat_next[of "cl_nextID (cs_client s)"] by (simp add: client_inv_def)
  then show ?thesis
    using assms(1) by (auto simp: client_inv_def c i used_ids_def)
qed

lemma client_inv_register:
  assumes "client_inv s" "cs_tasks s = add_mset (Registering i method params) ts"
    "call_register i (cs_client s) = (ch, c)"
  shows "client_inv (s\<lparr>cs_client := c, cs_tasks := add_mset (Sending i ch method params) ts\<rparr>)"
proof -
  let ?c = "cs_client s"
  from assms(3) have ch: "ch = cl_nextchan ?c"
    and c: "c = ?c\<lparr>cl_chans := (cl_chans ?c)(ch := []), cl_nextchan := ch + 1,
        cl_responses := AList.update i ch (cl_responses ?c)\<rparr>" by (auto simp: call_register_def)
  from assms(1,2) obtain owner where "owned owner ?c (add_mset (Registering i method params) ts)"
    by (auto simp: client_inv_def)
  then have "owned (owner(ch := i)) c (add_mset (Sending i ch method params) ts)"
    by (auto simp: owned_def c ch less_Suc_eq)
  moreover have "attended c t"
    if "cs_issued s < 2 ^ 64" "t \<in># add_mset (Sending i ch method params) ts" for t
  proof (cases "t = Sending i ch method params")
    case True
    then show ?thesis by (simp add: attended_def c)
  next
    case False
    with that have t: "t \<in># ts" by simp
    from assms(1) that(1) have "attended ?c t" "used_ids s = mset (map dec [1..<Suc (cs_issued s)])"
      using t assms(2) by (auto simp: client_inv_def)
    moreover from this(2) have "task_id t \<noteq> i" using other_task_id[OF _ assms(2) t] by simp
    moreover have "task_chan t \<noteq> Some ch" using \<open>owned owner ?c _\<close> t by (force simp: owned_def ch)
    ultimately show ?thesis by (auto simp: attended_def c split: option.splits)
  qed
  ultimately have "\<exists>owner. owned owner c (add_mset (Sending i ch method params) ts)"
    and "cs_issued s < 2 ^ 64 \<longrightarrow> (\<forall>t\<in>#add_mset (Sending i ch method params) ts. attended c t)" by blast+
  then show ?thesis using assms(1,2) by (simp add: client_inv_def c used_ids_def del: owned_add)
qed

lemma client_inv_send:
  assumes "client_inv s" "cs_tasks s = add_mset (Sending i ch method params) ts"
  shows "client_inv (s\<lparr>cs_client := call_send i method params (cs_client s), cs_tasks := add_mset (Waiting i ch) ts\<rparr>)"
proof -
  have "attended c (Waiting i ch) = attended c (Sending i ch method params)" for c by (simp add: attended_def)
  with assms show ?thesis by (auto simp: client_inv_def call_send_def used_ids_def)
qed

text \<open>A call that ends leaves the others attended.\<close>

lemma owned_delete: "owned owner c ts \<Longrightarrow> owned owner (c\<lparr>cl_responses := AList.delete i (cl_responses c)\<rparr>) ts"
  by (auto simp: owned_def split: if_splits)

lemma client_inv_send_error:
  assumes "client_inv s" "cs_tasks s = add_mset (Sending i ch method params) ts"
  shows "client_inv (s\<lparr>cs_client := call_fail i (cs_client s), cs_tasks := ts,
    cs_results := cs_results s @ [(i, Inl (SendFailed e))]\<rparr>)"
proof -
  have "attended (call_fail i (cs_client s)) t" if "cs_issued s < 2 ^ 64" "t \<in># ts" for t
  proof -
    from assms that have "attended (cs_client s) t" "used_ids s = mset (map dec [1..<Suc (cs_issued s)])"
      by (auto simp: client_inv_def)
    moreover from this(2) have "task_id t \<noteq> i" using other_task_id[OF _ assms(2) that(2)] by simp
    ultimately show ?thesis by (auto simp: attended_def call_fail_def split: option.splits)
  qed
  with assms show ?thesis by (auto simp: client_inv_def call_fail_def used_ids_def intro: owned_delete)
qed

lemma client_inv_response:
  assumes "client_inv s" "cs_tasks s = add_mset (Waiting i ch) ts" "call_receive ch (cs_client s) = Some (resp, c)"
  shows "client_inv (s\<lparr>cs_client := c, cs_tasks := ts, cs_results := cs_results s @ [(i, Inr resp)]\<rparr>)"
proof -
  let ?c = "cs_client s"
  from assms(3) obtain rest where buf: "cl_chans ?c ch = resp # rest"
    and c: "c = ?c\<lparr>cl_chans := (cl_chans ?c)(ch := rest)\<rparr>"
    by (auto simp: call_receive_def split: list.splits)
  from assms(1,2) obtain owner where own: "owned owner ?c ts" "ch < cl_nextchan ?c" "owner ch = i"
    by (auto simp: client_inv_def)
  with buf have id: "resp_ID resp = i" and "rest = []" by (auto simp: owned_def)
  with own have "owned owner c ts" by (auto simp: owned_def c)
  moreover have "attended c t" if "cs_issued s < 2 ^ 64" "t \<in># ts" for t
  proof -
    from assms that have "attended ?c t" "used_ids s = mset (map dec [1..<Suc (cs_issued s)])"
      by (auto simp: client_inv_def)
    moreover from this(2) have "task_id t \<noteq> i" using other_task_id[OF _ assms(2) that(2)] by simp
    with own that(2) have "task_chan t \<noteq> Some ch" by (auto simp: owned_def)
    ultimately show ?thesis by (auto simp: attended_def c split: option.splits)
  qed
  ultimately show ?thesis using assms(1,2) id by (auto simp: client_inv_def c used_ids_def)
qed

text \<open>The reading loop.\<close>

lemma receive_response_not_blocked: "owned owner c ts \<Longrightarrow> receive_response resp c \<noteq> None"
  by (auto simp: receive_response_def owned_def split: option.splits)

lemma receive_response_inv:
  assumes own: "owned owner c ts" and r: "receive_response resp c = Some c'"
  shows "owned owner c' ts \<and> (\<forall>t\<in>#ts. attended c t \<longrightarrow> attended c' t) \<and>
    cl_nextID c' = cl_nextID c \<and> cl_notifications c' = cl_notifications c"
proof (cases "map_of (cl_responses c) (resp_ID resp)")
  case None
  with assms show ?thesis by (simp add: receive_response_def)
next
  case (Some ch)
  with own have ch: "ch < cl_nextchan c" "owner ch = resp_ID resp" "cl_chans c ch = []" by (auto simp: owned_def)
  with r Some have c': "c' = c\<lparr>cl_chans := (cl_chans c)(ch := [resp]),
      cl_responses := AList.delete (resp_ID resp) (cl_responses c)\<rparr>" by (simp add: receive_response_def)
  have "owned owner c' ts"
    unfolding owned_def
  proof (intro conjI ballI allI impI, goal_cases)
    case (1 t ch')
    with own show ?case by (simp add: owned_def c')
  next
    case (2 t ch')
    with own show ?case by (simp add: owned_def c')
  next
    case (3 i ch')
    with own show ?case by (auto simp: owned_def c' split: if_splits)
  next
    case (4 i ch')
    with own show ?case by (auto simp: owned_def c' split: if_splits)
  next
    case (5 i ch')
    with own ch(2) show ?case by (auto simp: owned_def c' split: if_splits)
  next
    case (6 ch')
    with own show ?case by (simp add: owned_def c')
  next
    case (7 ch' r)
    with own ch(2) show ?case by (auto simp: owned_def c' split: if_splits)
  qed
  moreover have "attended c' t" if "t \<in># ts" "attended c t" for t
    using that own Some by (auto simp: attended_def c' split: option.splits)
  ultimately show ?thesis by (simp add: c')
qed

lemma readLoop_iteration_cases:
  "readLoop_iteration raw c = Some c' \<Longrightarrow>
   (\<exists>resp. receive_response resp c = Some c') \<or> (\<exists>notif. c' = receive_notification notif c) \<or> c' = c"
  unfolding readLoop_iteration_def
  by (simp split: sum.splits if_splits option.splits) blast+

lemma client_inv_read:
  assumes "client_inv s" "readLoop_iteration raw (cs_client s) = Some c"
  shows "client_inv (s\<lparr>cs_client := c\<rparr>)"
proof -
  from assms(1) obtain owner where own: "owned owner (cs_client s) (cs_tasks s)" by (auto simp: client_inv_def)
  consider (response) resp where "receive_response resp (cs_client s) = Some c"
    | (notification) notif where "c = receive_notification notif (cs_client s)" | (other) "c = cs_client s"
    using readLoop_iteration_cases[OF assms(2)] by blast
  then show ?thesis
  proof cases
    case (response resp)
    from receive_response_inv[OF own response] assms(1) show ?thesis
      by (auto simp: client_inv_def used_ids_def)
  next
    case (notification notif)
    with assms(1) show ?thesis
      by (auto simp: client_inv_def used_ids_def receive_notification_def)
  next
    case other
    with assms(1) show ?thesis by simp
  qed
qed

lemma client_step_inv: "client_step s s' \<Longrightarrow> client_inv s \<Longrightarrow> client_inv s'"
proof (induction rule: client_step.induct)
  case (cs_call s i c meth params)
  then show ?case by (rule client_inv_call[rotated])
next
  case (cs_register s i meth params ts ch c)
  then show ?case by (blast intro: client_inv_register)
next
  case (cs_send s i ch meth params ts)
  then show ?case by (blast intro: client_inv_send)
next
  case (cs_send_error s i ch meth params ts e)
  then show ?case by (blast intro: client_inv_send_error)
next
  case (cs_read s raw c)
  then show ?case by (blast intro: client_inv_read)
next
  case (cs_response s i ch ts resp c)
  then show ?case by (blast intro: client_inv_response)
qed (auto simp: client_inv_def used_ids_def Close_def)

interpretation client: invariant_system "\<lambda>s. s = initial_client" client_step client_inv
  by unfold_locales (auto intro: client_inv_initial client_step_inv)

section \<open>Properties of the client\<close>

text \<open>
  C17.  The loop that reads from the daemon never blocks: whatever arrives, in whatever state the calls
  are, the channel it sends to has room.
\<close>

theorem readLoop_never_blocks:
  assumes "client_reach s"
  shows "\<exists>c. readLoop_iteration raw (cs_client s) = Some c"
proof -
  from assms have "client_inv s" by (rule client.reach_inv)
  then obtain owner where "owned owner (cs_client s) (cs_tasks s)" by (auto simp: client_inv_def)
  then have "receive_response resp (cs_client s) \<noteq> None" for resp by (rule receive_response_not_blocked)
  then show ?thesis
    unfolding readLoop_iteration_def by (simp split: sum.split option.split)
qed

text \<open>A client with one call that waits for its response.\<close>

definition sample_client :: client_sys where
  "sample_client = (let c = snd (call_register ''1'' (snd (call_id new_client))) in
     \<lparr>cs_client = call_send ''1'' MethodDaemonPing None c, cs_tasks = {#Waiting ''1'' 0#}, cs_issued = 1, cs_results = []\<rparr>)"

lemma dec_1: "dec 1 = ''1''"
  by code_simp

lemma reach_sample_client: "client_reach sample_client"
proof -
  let ?c1 = "new_client\<lparr>cl_nextID := 1\<rparr>"
  let ?s1 = "\<lparr>cs_client = ?c1, cs_tasks = {#Registering ''1'' MethodDaemonPing None#}, cs_issued = 1, cs_results = []\<rparr>"
  let ?c2 = "snd (call_register ''1'' ?c1)"
  let ?s2 = "\<lparr>cs_client = ?c2, cs_tasks = {#Sending ''1'' 0 MethodDaemonPing None#}, cs_issued = 1, cs_results = []\<rparr>"
  have id: "call_id new_client = (''1'', ?c1)" using dec_1 by (simp add: call_id_def new_client_def)
  have "client_reach initial_client" by (rule reach_init) simp
  moreover have "client_step initial_client ?s1"
    using cs_call[of initial_client "''1''" ?c1 MethodDaemonPing None] id by (simp add: initial_client_def)
  ultimately have "client_reach ?s1" by (rule reach_step)
  moreover have "client_step ?s1 ?s2"
    using cs_register[of ?s1 "''1''" MethodDaemonPing None "{#}" 0 ?c2] by (simp add: call_register_def new_client_def)
  ultimately have "client_reach ?s2" by (rule reach_step)
  moreover have "client_step ?s2 sample_client"
    using cs_send[of ?s2 "''1''" 0 MethodDaemonPing None "{#}"] id by (simp add: sample_client_def Let_def)
  ultimately show ?thesis by (rule reach_step)
qed

theorem readLoop_never_blocks_witness: "\<exists>c. readLoop_iteration JNull (cs_client sample_client) = Some c"
  using readLoop_never_blocks[OF reach_sample_client] .

text \<open>
  C10.  A call that returns a response returns the one with its own identifier; and until the 64-bit
  counter has wrapped around, no identifier is used by two calls, so every call has at most one
  outcome and no call receives the response to another.
\<close>

theorem calls_get_their_response:
  assumes "client_reach s"
  shows "(\<forall>i resp. (i, Inr resp) \<in> set (cs_results s) \<longrightarrow> resp_ID resp = i) \<and>
    (cs_issued s < 2 ^ 64 \<longrightarrow> distinct (map fst (cs_results s)) \<and>
       (\<forall>t\<in>#cs_tasks s. task_id t \<notin> set (map fst (cs_results s))) \<and>
       size (cs_tasks s) + length (cs_results s) = cs_issued s)"
proof -
  from assms have inv: "client_inv s" by (rule client.reach_inv)
  have "distinct (map fst (cs_results s)) \<and> (\<forall>t\<in>#cs_tasks s. task_id t \<notin> set (map fst (cs_results s))) \<and>
      size (cs_tasks s) + length (cs_results s) = cs_issued s" if "cs_issued s < 2 ^ 64"
  proof -
    from inv that have ids: "used_ids s = mset (map dec [1..<Suc (cs_issued s)])" by (simp add: client_inv_def)
    have le: "count (image_mset task_id (cs_tasks s)) i + count (mset (map fst (cs_results s))) i \<le> 1" for i
      using used_ids_distinct[OF ids, of i] by (simp add: used_ids_def)
    have one: "count (mset (map fst (cs_results s))) i = (if i \<in> set (map fst (cs_results s)) then 1 else 0)" for i
    proof (cases "i \<in> set (map fst (cs_results s))")
      case True
      then have "0 < count (mset (map fst (cs_results s))) i" by (metis count_greater_zero_iff set_mset_mset)
      with le[of i] have "count (mset (map fst (cs_results s))) i = 1" by linarith
      with True show ?thesis by (simp only: if_True)
    qed (simp add: count_eq_zero_iff)
    then have dist: "distinct (map fst (cs_results s))" unfolding distinct_count_atmost_1 by blast
    have "task_id t \<notin> set (map fst (cs_results s))" if "t \<in># cs_tasks s" for t
    proof -
      from that have "0 < count (image_mset task_id (cs_tasks s)) (task_id t)" by simp
      with le[of "task_id t"] have "count (mset (map fst (cs_results s))) (task_id t) = 0" by linarith
      then show ?thesis by (metis count_eq_zero_iff set_mset_mset)
    qed
    moreover have "size (used_ids s) = cs_issued s" using ids by simp
    then have "size (cs_tasks s) + length (cs_results s) = cs_issued s" by (simp add: used_ids_def)
    ultimately show ?thesis using dist by blast
  qed
  with inv show ?thesis by (auto simp: client_inv_def)
qed

theorem calls_get_their_response_witness: "size (cs_tasks sample_client) + length (cs_results sample_client) = 1"
  using calls_get_their_response[OF reach_sample_client] by (simp add: sample_client_def Let_def)

text \<open>
  C16.  A response reaches the call that waits for it: as long as the counter has not wrapped around, the
  first response with a waiting call's identifier is what that call receives next.
\<close>

theorem response_reaches_call:
  assumes "client_reach s" "cs_issued s < 2 ^ 64" "Waiting i ch \<in># cs_tasks s" "cl_chans (cs_client s) ch = []"
    "unmarshal_Response zero_Response raw = Inr resp" "resp_ID resp = i"
  shows "\<exists>c c'. readLoop_iteration raw (cs_client s) = Some c \<and> call_receive ch c = Some (resp, c')"
proof -
  from assms(1) have inv: "client_inv s" by (rule client.reach_inv)
  with assms(2,3) have "attended (cs_client s) (Waiting i ch)" and ids: "used_ids s = mset (map dec [1..<Suc (cs_issued s)])"
    by (auto simp: client_inv_def)
  with assms(4) have reg: "map_of (cl_responses (cs_client s)) i = Some ch" by (simp add: attended_def)
  have "i \<in># used_ids s" using assms(3) by (force simp: used_ids_def)
  then have "i \<noteq> []" unfolding ids by auto
  with assms(4-6) reg show ?thesis
    by (simp add: readLoop_iteration_def receive_response_def call_receive_def)
qed

theorem response_reaches_call_witness:
  "\<exists>c c'. readLoop_iteration (marshal_Response (NewResult ''1'' empty_struct)) (cs_client sample_client) = Some c \<and>
     call_receive 0 c = Some (NewResult ''1'' empty_struct, c')"
proof -
  have "response_ok (NewResult ''1'' empty_struct)" by (simp add: NewResult_def valid_utf8_ascii ascii_def)
  from response_codec.decode_enc[OF this]
  show ?thesis
    using response_reaches_call[OF reach_sample_client, of "''1''" 0]
    by (simp add: sample_client_def Let_def call_send_def call_register_def call_id_def new_client_def)
qed

lemma notification_is_no_response:
  "unmarshal_Response zero_Response (marshal_Notification n) = Inr zero_Response"
  by (simp add: unmarshal_Response_def marshal_Notification_def decode_struct_def field_of_def lower_def)

text \<open>
  The reading loop tells the two kinds of messages apart: a notification of the daemon goes to the
  notifications, at the end, or is dropped when a hundred are waiting, and touches no call; a
  response with an identifier never goes there.
\<close>

lemma messages_told_apart:
  assumes "notification_ok n" "not_Method n \<noteq> []" "response_ok r" "resp_ID r \<noteq> []"
  shows "readLoop_iteration (marshal_Notification n) c =
      Some (c\<lparr>cl_notifications := (if length (cl_notifications c) < 100 then cl_notifications c @ [n]
        else cl_notifications c)\<rparr>) \<and>
    readLoop_iteration (marshal_Response r) c = receive_response r c"
proof -
  have "unmarshal_Notification zero_Notification (marshal_Notification n) = Inr n"
    using assms(1) by (rule notification_codec.decode_enc)
  moreover have "unmarshal_Response zero_Response (marshal_Response r) = Inr r"
    using assms(3) by (rule response_codec.decode_enc)
  moreover have "resp_ID zero_Response = []" by (simp add: zero_Response_def)
  ultimately show ?thesis
    using assms(2,4)
    by (simp add: readLoop_iteration_def notification_is_no_response receive_notification_def
        notification_capacity_def)
qed

lemma messages_told_apart_example:
  "readLoop_iteration (marshal_Response (NewResult ''1'' empty_struct)) new_client =
     receive_response (NewResult ''1'' empty_struct) new_client"
  using messages_told_apart[of "NewNotification MethodStatusChanged JNull" "NewResult ''1'' empty_struct" new_client]
  by (simp add: NewNotification_def NewResult_def method_defs valid_utf8_ascii ascii_def)

section \<open>Client and daemon together\<close>

text \<open>
  A call against the daemon: the request is encoded, decoded and handled, and the response comes
  back the same way.  A request that does not decode makes the daemon end the connection.
\<close>

definition daemon_call :: "handler_env \<Rightarrow> conn_id \<Rightarrow> Daemon \<Rightarrow> string \<Rightarrow> caller" where
  "daemon_call env sub d i method params =
     (case unmarshal_Request zero_Request
             (marshal_Request \<lparr>req_ID = i, req_Method = method, req_Params = params\<rparr>) of
        Inl e \<Rightarrow> Inl ConnectionClosed
      | Inr req \<Rightarrow>
          (case unmarshal_Response zero_Response (marshal_Response (fst (handleRequest env sub d req))) of
             Inl e \<Rightarrow> Inl ConnectionClosed
           | Inr resp \<Rightarrow> Inr resp))"

lemma method_utf8 [simp]:
  "valid_utf8 MethodTunnelStatus" "valid_utf8 MethodTunnelList" "valid_utf8 MethodDaemonPing"
  "valid_utf8 MethodTunnelStop" "valid_utf8 MethodTunnelRegister" "valid_utf8 MethodTunnelStart"
  by (simp_all add: method_defs valid_utf8_ascii ascii_def)

lemma daemon_call_eq:
  assumes "valid_utf8 i" "valid_utf8 method"
    and "fst (handleRequest env sub d \<lparr>req_ID = i, req_Method = method, req_Params = params\<rparr>) = resp"
    and "response_ok resp"
  shows "daemon_call env sub d i method params = Inr resp"
proof -
  have "request_ok \<lparr>req_ID = i, req_Method = method, req_Params = params\<rparr>" using assms(1,2) by simp
  from request_codec.decode_enc[OF this] response_codec.decode_enc[OF assms(4)] assms(3)
  show ?thesis by (simp add: daemon_call_def)
qed

text \<open>Tunnels whose strings survive the wire.\<close>

definition wire_ok :: "Manager \<Rightarrow> bool" where
  "wire_ok m \<longleftrightarrow> (\<forall>n p. lookup m n = Some p \<longrightarrow>
     config_ok (mt_Config (m_heap m p)) \<and> valid_utf8 (mt_Error (m_heap m p)))"

lemma known_state_utf8: "known_state st \<Longrightarrow> valid_utf8 st"
  by (auto simp: known_state_def State_defs valid_utf8_ascii ascii_def)

lemma reach_known_state:
  assumes "daemon_reach d" "lookup (d_manager d) n = Some p"
  shows "known_state (status_of (d_manager d) p)"
proof -
  from assms(1) have "mgr_inv (sys_of d)" by (rule mgr.reach_inv)
  with assms(2) show ?thesis by (auto simp: mgr_inv_def sys_of_def cell_ok_def dest: map_okD heap_okD)
qed

text \<open>
  C4.  What \<^verbatim>\<open>TunnelStatus\<close> of the client returns is the state and the error that the tunnel manager has,
  across both encodings and the dispatch, and the server's message for a name it does not know.
\<close>

theorem client_sees_status:
  assumes "daemon_reach d" "wire_ok (d_manager d)" "valid_utf8 i" "valid_utf8 name" "name \<noteq> []"
  shows "Client_TunnelStatus (daemon_call env sub d i) name =
    (case lookup (d_manager d) name of
       None \<Rightarrow> Inl (ServerError ''tunnel not found'')
     | Some p \<Rightarrow> Inr \<lparr>sr_Name = name, sr_Status = status_of (d_manager d) p,
                     sr_Error = mt_Error (m_heap (d_manager d) p)\<rparr>)"
proof -
  let ?req = "\<lparr>req_ID = i, req_Method = MethodTunnelStatus, req_Params = Some (marshal_NameParams \<lparr>np_Name = name\<rparr>)\<rparr>"
  have asks: "asks ?req name" using assms(4,5) by (simp add: asks_def)
  have h: "handleRequest env sub d ?req = handleTunnelStatus d ?req"
    by (simp add: handleRequest_def method_defs)
  show ?thesis
  proof (cases "lookup (d_manager d) name")
    case None
    have "fst (handleRequest env sub d ?req) = NewError i ErrCodeTunnelNotFound ''tunnel not found''"
      unfolding h using status_reports[OF asks assms(1)] None by simp
    moreover have "response_ok (NewError i ErrCodeTunnelNotFound ''tunnel not found'')"
      using assms(3) by (simp add: code_defs valid_utf8_ascii ascii_def)
    ultimately have "daemon_call env sub d i MethodTunnelStatus (Some (marshal_NameParams \<lparr>np_Name = name\<rparr>)) =
        Inr (NewError i ErrCodeTunnelNotFound ''tunnel not found'')"
      using daemon_call_eq[OF assms(3)] by simp
    with None show ?thesis by (simp add: Client_TunnelStatus_def checked_def parsed_def)
  next
    case (Some p)
    let ?r = "\<lparr>sr_Name = name, sr_Status = status_of (d_manager d) p, sr_Error = mt_Error (m_heap (d_manager d) p)\<rparr>"
    have "fst (handleRequest env sub d ?req) = NewResult i (marshal_StatusResult ?r)"
      unfolding h using status_reports[OF asks assms(1)] Some by simp
    moreover have "response_ok (NewResult i (marshal_StatusResult ?r))" using assms(3) by simp
    ultimately have "daemon_call env sub d i MethodTunnelStatus (Some (marshal_NameParams \<lparr>np_Name = name\<rparr>)) =
        Inr (NewResult i (marshal_StatusResult ?r))"
      using daemon_call_eq[OF assms(3)] by simp
    moreover have "status_ok ?r"
      using assms(2,4) Some known_state_utf8[OF reach_known_state[OF assms(1) Some]] by (simp add: wire_ok_def)
    then have "unmarshal_StatusResult zero_StatusResult (marshal_StatusResult ?r) = Inr ?r"
      by (rule status_codec.decode_enc)
    ultimately show ?thesis
      using Some by (simp add: Client_TunnelStatus_def checked_def parsed_def json_Unmarshal_def)
  qed
qed

lemma sample_wire_ok: "wire_ok (d_manager sample_daemon)"
  by (auto simp: wire_ok_def sample_config_def NewManager_def empty_manager_def sample_tunnel_def
      disconnected_tunnel_def valid_utf8_ascii ascii_def split: if_splits)

theorem client_sees_status_witness:
  "Client_TunnelStatus (daemon_call sample_henv 1 sample_daemon ''1'') ''db'' =
     Inr \<lparr>sr_Name = ''db'', sr_Status = StateDisconnected, sr_Error = []\<rparr>"
  using client_sees_status[OF sample_daemon_simps(5) sample_wire_ok, of "''1''" "''db''" sample_henv 1]
  by (simp add: valid_utf8_ascii ascii_def) (simp add: disconnected_tunnel_def)

lemma setcompr2_cong:
  assumes "\<And>x y. P x y \<Longrightarrow> f x y = g x y"
  shows "{f x y | x y. P x y} = {g x y | x y. P x y}"
  using assms by (intro Collect_cong) metis

lemma TunnelList_against_daemon:
  assumes "daemon_reach d" "wire_ok (d_manager d)" "valid_utf8 i" "map_order (he_iter env)"
  shows "\<exists>ts. Client_TunnelList (daemon_call env sub d i) = Inr \<lparr>lr_Tunnels = ts\<rparr> \<and> distinct (map ti_Name ts) \<and>
    set ts = {\<lparr>ti_Name = n, ti_Status = status_of (d_manager d) p, ti_Error = mt_Error (m_heap (d_manager d) p),
               ti_Ephemeral = mt_Ephemeral (m_heap (d_manager d) p), ti_Config = mt_Config (m_heap (d_manager d) p)\<rparr>
             | n p. lookup (d_manager d) n = Some p}"
proof -
  let ?m = "d_manager d" and ?req = "\<lparr>req_ID = i, req_Method = MethodTunnelList, req_Params = None\<rparr>"
  let ?ml = "Manager_List (he_iter env) ?m"
  let ?ts = "map tunnel_info ?ml"
  from assms(1) have list: "distinct (map (tc_Name \<circ> mt_Config) ?ml)"
      "set ?ml = {snapshot (m_heap ?m p) | n p. lookup ?m n = Some p}"
    using Manager_List_complete[of "d_config d" ?m "d_tasks d" "d_calls d", OF _ assms(4)] by (auto simp: sys_of_def)
  from assms(1) have "mgr_inv (sys_of d)" by (rule mgr.reach_inv)
  then have mo: "map_ok ?m" by (simp add: mgr_inv_def sys_of_def)
  have info: "tunnel_info (snapshot (m_heap ?m p)) = \<lparr>ti_Name = n, ti_Status = status_of ?m p,
      ti_Error = mt_Error (m_heap ?m p), ti_Ephemeral = mt_Ephemeral (m_heap ?m p), ti_Config = mt_Config (m_heap ?m p)\<rparr>"
    if "lookup ?m n = Some p" for n p
    using map_okD(2)[OF mo that] by (simp add: tunnel_info_def snapshot_def)
  have "set ?ts = {tunnel_info (snapshot (m_heap ?m p)) | n p. lookup ?m n = Some p}"
    unfolding set_map list(2) by blast
  then have set: "set ?ts = {\<lparr>ti_Name = n, ti_Status = status_of ?m p, ti_Error = mt_Error (m_heap ?m p),
      ti_Ephemeral = mt_Ephemeral (m_heap ?m p), ti_Config = mt_Config (m_heap ?m p)\<rparr> | n p. lookup ?m n = Some p}"
    using setcompr2_cong[of "\<lambda>n p. lookup ?m n = Some p" "\<lambda>n p. tunnel_info (snapshot (m_heap ?m p))", OF info]
    by (rule trans)
  have "info_ok t" if "t \<in> set ?ts" for t
    using that assms(2) map_okD(2)[OF mo] known_state_utf8[OF reach_known_state[OF assms(1)]]
    unfolding set by (auto simp: wire_ok_def)
  then have ok: "list_ok \<lparr>lr_Tunnels = ?ts\<rparr>" by (simp add: list_all_iff del: info_ok.simps)
  have "handleRequest env sub d ?req = handleTunnelList env d ?req" by (simp add: handleRequest_def method_defs)
  then have "daemon_call env sub d i MethodTunnelList None = Inr (NewResult i (marshal_ListResult \<lparr>lr_Tunnels = ?ts\<rparr>))"
    using assms(3) by (intro daemon_call_eq) (simp_all add: handleTunnelList_def)
  then have "Client_TunnelList (daemon_call env sub d i) = Inr \<lparr>lr_Tunnels = ?ts\<rparr>"
    using list_codec.decode_enc[OF ok] by (simp add: Client_TunnelList_def checked_def parsed_def json_Unmarshal_def)
  moreover have "map ti_Name ?ts = map (tc_Name \<circ> mt_Config) ?ml" by (simp add: tunnel_info_def)
  ultimately have "Client_TunnelList (daemon_call env sub d i) = Inr \<lparr>lr_Tunnels = ?ts\<rparr> \<and> distinct (map ti_Name ?ts)"
    using list(1) by (simp only: simp_thms)
  with set show ?thesis by blast
qed

text \<open>
  C5.  What \<^verbatim>\<open>TunnelList\<close> of the client returns lists every tunnel of the manager exactly once, each with
  its name, state, error, kind and configuration as the manager has them.
\<close>

theorem client_sees_all_tunnels:
  assumes "daemon_reach d" "wire_ok (d_manager d)" "valid_utf8 i" "map_order (he_iter env)"
  shows "\<exists>ts. Client_TunnelList (daemon_call env sub d i) = Inr \<lparr>lr_Tunnels = ts\<rparr> \<and> distinct (map ti_Name ts) \<and>
    set ts = {\<lparr>ti_Name = n, ti_Status = status_of (d_manager d) p, ti_Error = mt_Error (m_heap (d_manager d) p),
               ti_Ephemeral = mt_Ephemeral (m_heap (d_manager d) p), ti_Config = mt_Config (m_heap (d_manager d) p)\<rparr>
             | n p. lookup (d_manager d) n = Some p}"
  using assms by (rule TunnelList_against_daemon)

theorem client_sees_all_tunnels_witness:
  "\<exists>ts. Client_TunnelList (daemon_call sample_henv 1 sample_daemon ''1'') = Inr \<lparr>lr_Tunnels = ts\<rparr> \<and> distinct (map ti_Name ts)"
proof -
  have "map_order (he_iter sample_henv)" "valid_utf8 ''1''"
    by (simp_all add: sample_henv_def valid_utf8_ascii ascii_def)
  from client_sees_all_tunnels[OF sample_daemon_simps(5) sample_wire_ok this(2,1)] show ?thesis by blast
qed

end
