(* ===== verification/Go_Print.thy ===== *)
theory Go_Print
  imports Go_Text
begin

text \<open>
  The parts of Go's standard library that the user interface and the commands print with:
  \<^verbatim>\<open>strings.Repeat, Count, ReplaceAll\<close>, slices of strings, \<^verbatim>\<open>utf8.RuneCountInString\<close>, \<^verbatim>\<open>filepath.Dir\<close>,
  and \<^verbatim>\<open>text/tabwriter\<close> with the parameters that \<^verbatim>\<open>gurren ls\<close> uses (minimal width 0, padding 2, pad
  character blank, no flags).  Shown: a table whose lines have the same number of cells is aligned.
\<close>

section \<open>Package strings\<close>

text \<open>\<open>None\<close> is the panic of a negative count, and of a slice beyond the end.\<close>

definition Repeat :: "string \<Rightarrow> int \<Rightarrow> string option" where
  "Repeat s n = (if n < 0 then None else Some (concat (replicate (nat n) s)))"

definition slice_to :: "string \<Rightarrow> int \<Rightarrow> string option" where
  "slice_to s n = (if 0 \<le> n \<and> n \<le> int (length s) then Some (take (nat n) s) else None)"

text \<open>\<^verbatim>\<open>strings.Count\<close> and \<^verbatim>\<open>strings.ReplaceAll\<close> for a non-empty substring.\<close>

function Count :: "string \<Rightarrow> string \<Rightarrow> nat" where
  "Count [] sub = 0"
| "Count (c # s) sub =
     (if sub \<noteq> [] \<and> HasPrefix (c # s) sub then Suc (Count (drop (length sub - 1) s) sub) else Count s sub)"
  by pat_completeness auto
termination by (relation "measure (length \<circ> fst)") auto

function ReplaceAll :: "string \<Rightarrow> string \<Rightarrow> string \<Rightarrow> string" where
  "ReplaceAll [] old new = []"
| "ReplaceAll (c # s) old new =
     (if old \<noteq> [] \<and> HasPrefix (c # s) old then new @ ReplaceAll (drop (length old - 1) s) old new
      else c # ReplaceAll s old new)"
  by pat_completeness auto
termination by (relation "measure (length \<circ> fst)") auto

lemma Count_char: "Count s [c] = count_list s c"
  by (induction s) (auto simp: HasPrefix_iff)

lemma Repeat_nonneg [simp]: "0 \<le> n \<Longrightarrow> Repeat s n = Some (concat (replicate (nat n) s))"
  by (simp add: Repeat_def)

lemma Repeat_length: "Repeat [c] n = Some r \<Longrightarrow> int (length r) = n"
  by (auto simp: Repeat_def split: if_splits)

lemma ReplaceAll_skip:
  assumes "\<And>v. suffix v s \<Longrightarrow> v \<noteq> [] \<Longrightarrow> \<not> HasPrefix (v @ t) old"
  shows "ReplaceAll (s @ t) old new = s @ ReplaceAll t old new"
  using assms
proof (induction s)
  case Nil
  then show ?case by simp
next
  case (Cons c s)
  from Cons.prems[of "c # s"] have "\<not> HasPrefix (c # s @ t) old" by simp
  moreover have "ReplaceAll (s @ t) old new = s @ ReplaceAll t old new"
    using Cons.prems by (intro Cons.IH) (auto intro: suffix_ConsI)
  ultimately show ?case by simp
qed

lemma ReplaceAll_here:
  assumes "old \<noteq> []"
  shows "ReplaceAll (old @ t) old new = new @ ReplaceAll t old new"
  using assms by (cases old) (auto simp: HasPrefix_iff)

section \<open>Package unicode/utf8\<close>

text \<open>Every invalid byte counts as one rune.\<close>

function RuneCount :: "string \<Rightarrow> nat" where
  "RuneCount [] = 0"
| "RuneCount (c # s) = Suc (RuneCount (drop (snd (DecodeRune (c # s)) - 1) s))"
  by pat_completeness auto
termination by (relation "measure length") auto

lemma RuneCount_ascii: "ascii s \<Longrightarrow> RuneCount s = length s"
  by (induction s) (auto simp: ascii_def Let_def)

lemma RuneCount_le_length: "RuneCount s \<le> length s"
proof (induction s rule: RuneCount.induct)
  case 1
  then show ?case by simp
next
  case (2 c s)
  then show ?case by (simp del: DecodeRune.simps)
qed

section \<open>Package path/filepath\<close>

text \<open>\<^verbatim>\<open>filepath.Dir\<close> on Unix: everything up to the last slash, cleaned.\<close>

definition filepath_Dir :: "string \<Rightarrow> string" where
  "filepath_Dir p = Clean (take (nat (LastIndex p ''/'' + 1)) p)"

section \<open>Package text/tabwriter\<close>

text \<open>
  A line is its cells and whether it ended with a newline.  A cell is terminated by a tab; the text
  after the last tab of a line is not part of a column.  \<^verbatim>\<open>writeLines\<close> pads the cells of the columns
  whose widths are known.
\<close>

type_synonym tw_line = "string list \<times> bool"

definition tw_padding :: nat where
  "tw_padding = 2"

fun write_cells :: "nat list \<Rightarrow> string list \<Rightarrow> string" where
  "write_cells ws [] = []"
| "write_cells [] (c # cs) = c @ write_cells [] cs"
| "write_cells (w # ws) (c # cs) = c @ replicate (w - RuneCount c) CHR '' '' @ write_cells ws cs"

definition write_line :: "nat list \<Rightarrow> tw_line \<Rightarrow> string" where
  "write_line ws l = write_cells ws (fst l) @ (if snd l then [CHR 0x0A] else [])"

text \<open>A line has a cell in the column after the known ones.\<close>

definition in_column :: "nat list \<Rightarrow> tw_line \<Rightarrow> bool" where
  "in_column ws l \<longleftrightarrow> length ws + 1 < length (fst l)"

definition column_width :: "nat \<Rightarrow> tw_line list \<Rightarrow> nat" where
  "column_width j block = fold (\<lambda>l. max (RuneCount (fst l ! j) + tw_padding)) block 0"

text \<open>\<^verbatim>\<open>format\<close>: a run of lines with a cell in the next column is one block of that column.\<close>

function tw_format :: "nat list \<Rightarrow> tw_line list \<Rightarrow> string" where
  "tw_format ws [] = []"
| "tw_format ws (l # ls) =
     (if in_column ws l
      then tw_format (ws @ [column_width (length ws) (l # takeWhile (in_column ws) ls)]) (l # takeWhile (in_column ws) ls)
           @ tw_format ws (dropWhile (in_column ws) ls)
      else write_line ws l @ tw_format ws ls)"
  by pat_completeness auto

definition tw_measure :: "nat list \<times> tw_line list \<Rightarrow> nat" where
  "tw_measure p = (\<Sum>l\<leftarrow>snd p. Suc (length (fst l) - length (fst p)))"

lemma sum_list_takeWhile: "(\<Sum>x\<leftarrow>takeWhile P xs. f x) \<le> (\<Sum>x\<leftarrow>xs. f x :: nat)"
  by (induction xs) auto

lemma sum_list_dropWhile: "(\<Sum>x\<leftarrow>dropWhile P xs. f x) \<le> (\<Sum>x\<leftarrow>xs. f x :: nat)"
  by (induction xs) auto

lemma tw_measure_block:
  assumes "in_column ws l"
  shows "tw_measure (ws @ [w], l # takeWhile (in_column ws) ls) < tw_measure (ws, l # ls)"
proof -
  have "(\<Sum>l\<leftarrow>takeWhile (in_column ws) ls. Suc (length (fst l) - Suc (length ws))) \<le>
      (\<Sum>l\<leftarrow>takeWhile (in_column ws) ls. Suc (length (fst l) - length ws))"
    by (intro sum_list_mono) auto
  also have "\<dots> \<le> (\<Sum>l\<leftarrow>ls. Suc (length (fst l) - length ws))" by (rule sum_list_takeWhile)
  finally show ?thesis using assms by (simp add: tw_measure_def in_column_def)
qed

termination tw_format
proof (relation "measure tw_measure", goal_cases)
  case 1
  then show ?case by simp
next
  case (2 ws l ls)
  then show ?case using tw_measure_block by simp
next
  case (3 ws l ls)
  then show ?case
    using sum_list_dropWhile[of "\<lambda>l. Suc (length (fst l) - length ws)" "in_column ws" ls]
    by (simp add: tw_measure_def)
next
  case (4 ws l ls)
  then show ?case by (simp add: tw_measure_def)
qed

text \<open>
  \<^verbatim>\<open>Write\<close> followed by \<^verbatim>\<open>Flush\<close>, over the text: \<open>cell\<close> and \<open>cells\<close> are the current cell and the cells before
  it, \<open>ls\<close> the buffered lines.  A form feed and a line of one cell flush.  (The escape byte 255 of the
  writer does not occur in valid UTF-8.)
\<close>

fun tw_write :: "string \<Rightarrow> string \<Rightarrow> string list \<Rightarrow> tw_line list \<Rightarrow> string" where
  "tw_write [] cell cells ls =
     tw_format [] (ls @ [(cells @ (if cell = [] then [] else [cell]), False)])"
| "tw_write (c # s) cell cells ls =
     (if c = CHR 0x09 \<or> c = CHR 0x0B then tw_write s [] (cells @ [cell]) ls
      else if c = CHR 0x0A \<or> c = CHR 0x0C then
        (if c = CHR 0x0C \<or> cells = []
         then tw_format [] (ls @ [(cells @ [cell], True)]) @ tw_write s [] [] []
         else tw_write s [] [] (ls @ [(cells @ [cell], True)]))
      else tw_write s (cell @ [c]) cells ls)"

definition tabwriter :: "string \<Rightarrow> string" where
  "tabwriter text = tw_write text [] [] []"

section \<open>Aligned tables\<close>

text \<open>A plain cell has none of the bytes that the writer treats specially.\<close>

definition cell_char :: "char \<Rightarrow> bool" where
  "cell_char c \<longleftrightarrow> c \<notin> {CHR 0x09, CHR 0x0B, CHR 0x0A, CHR 0x0C}"

definition plain_cell :: "string \<Rightarrow> bool" where
  "plain_cell s \<longleftrightarrow> list_all cell_char s"

definition row_text :: "string list \<Rightarrow> string" where
  "row_text cells = JoinWith [CHR 0x09] cells @ [CHR 0x0A]"

text \<open>
  The reference: every column but the last is as wide as its widest cell, and two blanks more.
\<close>

definition widest :: "string list list \<Rightarrow> nat \<Rightarrow> nat" where
  "widest rows j = Max ((\<lambda>r. RuneCount (r ! j)) ` set rows)"

definition aligned_table :: "string list list \<Rightarrow> nat \<Rightarrow> string" where
  "aligned_table rows k =
     concat (map (\<lambda>r. write_cells (map (\<lambda>j. widest rows j + 2) [0..<k]) r @ [CHR 0x0A]) rows)"

lemma tw_write_cell:
  "plain_cell u \<Longrightarrow> tw_write (u @ s) cell cells ls = tw_write s (cell @ u) cells ls"
  by (induction u arbitrary: cell) (auto simp: plain_cell_def cell_char_def)

lemma tw_write_row:
  assumes "list_all plain_cell (c # cs)" "cs \<noteq> [] \<or> cells \<noteq> []"
  shows "tw_write (row_text (c # cs) @ s) [] cells ls = tw_write s [] [] (ls @ [(cells @ c # cs, True)])"
  using assms
proof (induction cs arbitrary: c cells)
  case Nil
  then show ?case by (simp add: row_text_def tw_write_cell)
next
  case (Cons d ds)
  have "tw_write (row_text (c # d # ds) @ s) [] cells ls = tw_write (row_text (d # ds) @ s) [] (cells @ [c]) ls"
    using Cons.prems by (simp add: row_text_def tw_write_cell)
  also have "\<dots> = tw_write s [] [] (ls @ [((cells @ [c]) @ d # ds, True)])"
    using Cons.prems by (intro Cons.IH) auto
  finally show ?case by simp
qed

lemma tw_write_rows:
  assumes "\<forall>r\<in>set rows. list_all plain_cell r \<and> 2 \<le> length r"
  shows "tw_write (concat (map row_text rows)) [] [] ls =
    tw_format [] (ls @ map (\<lambda>r. (r, True)) rows @ [([], False)])"
  using assms
proof (induction rows arbitrary: ls)
  case Nil
  then show ?case by simp
next
  case (Cons r rows)
  then obtain c cs where r: "r = c # cs" "cs \<noteq> []" by (cases r) (auto simp: Suc_le_eq)
  with Cons.prems have "list_all plain_cell (c # cs)" by simp
  with r Cons.IH[of "ls @ [(r, True)]"] Cons.prems show ?case by (simp add: tw_write_row)
qed

lemma column_width_Max:
  assumes "block \<noteq> []"
  shows "column_width j block = Max ((\<lambda>l. RuneCount (fst l ! j)) ` set block) + 2"
proof -
  have fold: "fold (\<lambda>l. max (f l)) ls a = Max (insert a (f ` set ls))" for f :: "tw_line \<Rightarrow> nat" and ls a
    using Max.set_eq_fold[of a "map f ls"] by (simp add: fold_map comp_def)
  let ?f = "\<lambda>l. RuneCount (fst l ! j)"
  have "Max (insert 0 ((\<lambda>l. ?f l + 2) ` set block)) = Max ((\<lambda>l. ?f l + 2) ` set block)"
    using assms by (subst Max_insert) auto
  also have "\<dots> = Max (?f ` set block) + 2"
    using assms by (subst Max_add_commute) auto
  finally show ?thesis by (simp add: column_width_def fold tw_padding_def)
qed

lemma tw_format_unknown: "\<forall>l\<in>set ls. \<not> in_column ws l \<Longrightarrow> tw_format ws ls = concat (map (write_line ws) ls)"
  by (induction ls) auto

lemma tw_format_uniform:
  assumes "rows \<noteq> []" "\<forall>r\<in>set rows. length r = Suc k" "length ws \<le> k"
  shows "tw_format ws (map (\<lambda>r. (r, True)) rows) =
    concat (map (\<lambda>r. write_line (ws @ map (\<lambda>j. widest rows j + 2) [length ws..<k]) (r, True)) rows)"
  using assms(3)
proof (induction "k - length ws" arbitrary: ws)
  case 0
  then have "length ws = k" by simp
  with assms(2) show ?case by (subst tw_format_unknown) (auto simp: in_column_def comp_def)
next
  case (Suc n)
  then have less: "length ws < k" by simp
  obtain r rs where rows: "rows = r # rs" using assms(1) by (cases rows) auto
  have all: "\<forall>x\<in>set rows. in_column ws (x, True)" using assms(2) less by (simp add: in_column_def)
  have "column_width (length ws) (map (\<lambda>r. (r, True)) rows) = widest rows (length ws) + 2"
    using assms(1) by (subst column_width_Max) (auto simp: widest_def image_image)
  with all have "tw_format ws (map (\<lambda>r. (r, True)) rows) =
      tw_format (ws @ [widest rows (length ws) + 2]) (map (\<lambda>r. (r, True)) rows)"
    by (simp add: rows takeWhile_eq_all_conv[THEN iffD2] dropWhile_eq_Nil_conv[THEN iffD2])
  also have "\<dots> = concat (map (\<lambda>r. write_line ((ws @ [widest rows (length ws) + 2]) @
      map (\<lambda>j. widest rows j + 2) [length (ws @ [widest rows (length ws) + 2])..<k]) (r, True)) rows)"
    using Suc less by (intro Suc.hyps(1)) auto
  finally show ?case using less by (simp add: upt_conv_Cons)
qed

lemma tw_format_last_empty:
  "tw_format ws (ls @ [([], False)]) = tw_format ws ls"
proof (induction ws ls rule: tw_format.induct)
  case (1 ws)
  then show ?case by (simp add: in_column_def write_line_def)
next
  case (2 ws l ls)
  have tw: "takeWhile (in_column ws) (ls @ [([], False)]) = takeWhile (in_column ws) ls"
    by (induction ls) (auto simp: in_column_def)
  have dw: "dropWhile (in_column ws) (ls @ [([], False)]) = dropWhile (in_column ws) ls @ [([], False)]"
    by (induction ls) (auto simp: in_column_def)
  show ?case using 2 by (simp add: tw dw)
qed

text \<open>The tabwriter aligns a table of plain cells as the reference does.\<close>

lemma tabwriter_aligned:
  assumes "rows \<noteq> []" "0 < k" "\<forall>r\<in>set rows. length r = Suc k \<and> list_all plain_cell r"
  shows "tabwriter (concat (map row_text rows)) = aligned_table rows k"
proof -
  have "tabwriter (concat (map row_text rows)) = tw_format [] (map (\<lambda>r. (r, True)) rows)"
    using assms by (simp add: tabwriter_def tw_write_rows tw_format_last_empty)
  also have "\<dots> = aligned_table rows k"
    using assms by (subst tw_format_uniform[of rows k]) (auto simp: aligned_table_def write_line_def)
  finally show ?thesis .
qed

end
