(* ===== verification/TUI_Styles.thy ===== *)
theory TUI_Styles
  imports Go_Print
begin

text \<open>
  Package \<^verbatim>\<open>internal/tui\<close>, file \<^verbatim>\<open>styles.go\<close>: colours, icons, styles and the two functions that choose an
  indicator for a tunnel.  A lipgloss style is the sequence of the calls that build it; what lipgloss
  makes of a style and a text is a parameter of everything that draws.
\<close>

section \<open>The library lipgloss\<close>

datatype Position = Left | Center | Right | Top

datatype style_call =
    Foreground string
  | Background string
  | Bold bool
  | Width int
  | Height int
  | Align Position
  | Padding int int
  | MarginBottom int
  | RoundedBorder
  | BorderForeground string

type_synonym Style = "style_call list"

definition NewStyle :: Style where
  "NewStyle = []"

record lipgloss =
  Render :: "Style \<Rightarrow> string \<Rightarrow> string"
  text_width :: "string \<Rightarrow> int"
  Place :: "int \<Rightarrow> int \<Rightarrow> Position \<Rightarrow> Position \<Rightarrow> string \<Rightarrow> string"
  JoinHorizontal :: "Position \<Rightarrow> string list \<Rightarrow> string"
  JoinVertical :: "Position \<Rightarrow> string list \<Rightarrow> string"

section \<open>Colours\<close>

definition colorBg :: string where "colorBg = ''#282c34''"
definition colorBgLight :: string where "colorBgLight = ''#2c313a''"
definition colorBorder :: string where "colorBorder = ''#3b3f4c''"
definition colorFg :: string where "colorFg = ''#abb2bf''"
definition colorBlue :: string where "colorBlue = ''#61afef''"
definition colorGreen :: string where "colorGreen = ''#98c379''"
definition colorOrange :: string where "colorOrange = ''#d19a66''"
definition colorRed :: string where "colorRed = ''#e86671''"
definition colorGrey :: string where "colorGrey = ''#7f848e''"
definition colorLightGrey :: string where "colorLightGrey = ''#9da5b4''"
definition colorCyan :: string where "colorCyan = ''#56b6c2''"
definition colorPurple :: string where "colorPurple = ''#c678dd''"

section \<open>Icons\<close>

text \<open>The UTF-8 bytes of the constants; several of them are empty strings in the source.\<close>

definition IconConnected :: string where "IconConnected = [CHR 0xEF, CHR 0x80, CHR 0x8C]"
definition IconDisconnected :: string where "IconDisconnected = [CHR 0xEF, CHR 0x84, CHR 0x8C]"
definition IconConnecting :: string where "IconConnecting = [CHR 0xEF, CHR 0x84, CHR 0x90]"
definition IconError :: string where "IconError = [CHR 0xEF, CHR 0x80, CHR 0x8D]"
definition IconTunnel :: string where "IconTunnel = [CHR 0xF3, CHR 0xB0, CHR 0x9B, CHR 0xB3]"
definition IconDetails :: string where "IconDetails = []"
definition IconUser :: string where "IconUser = []"
definition IconHost :: string where "IconHost = [CHR 0xF3, CHR 0xB0, CHR 0x92, CHR 0x8B]"
definition IconPort :: string where "IconPort = [CHR 0xF3, CHR 0xB0, CHR 0x99, CHR 0x9C]"
definition IconLocal :: string where "IconLocal = [CHR 0xF3, CHR 0xB0, CHR 0x8C, CHR 0x98]"
definition IconRemote :: string where "IconRemote = [CHR 0xF3, CHR 0xB0, CHR 0x92, CHR 0x8D]"
definition IconStatus :: string where "IconStatus = []"
definition IconEphemeral :: string where "IconEphemeral = []"
definition IconName :: string where "IconName = []"

section \<open>Styles\<close>

definition panelStyle :: Style where "panelStyle = NewStyle @ [RoundedBorder, BorderForeground colorBorder]"
definition focusedPanelStyle :: Style where "focusedPanelStyle = NewStyle @ [RoundedBorder, BorderForeground colorBlue]"
definition panelTitleStyle :: Style where "panelTitleStyle = NewStyle @ [Foreground colorBlue, Bold True, Padding 0 1]"
definition normalStyle :: Style where "normalStyle = NewStyle @ [Foreground colorFg]"
definition mutedStyle :: Style where "mutedStyle = NewStyle @ [Foreground colorGrey]"
definition secondaryStyle :: Style where "secondaryStyle = NewStyle @ [Foreground colorLightGrey]"
definition selectedStyle :: Style where "selectedStyle = NewStyle @ [Foreground colorBlue, Bold True]"
definition labelStyle :: Style where "labelStyle = NewStyle @ [Foreground colorGrey, Width 16]"
definition valueStyle :: Style where "valueStyle = NewStyle @ [Foreground colorFg]"
definition statusConnectedStyle :: Style where "statusConnectedStyle = NewStyle @ [Foreground colorGreen]"
definition statusDisconnectedStyle :: Style where "statusDisconnectedStyle = NewStyle @ [Foreground colorGrey]"
definition statusConnectingStyle :: Style where "statusConnectingStyle = NewStyle @ [Foreground colorOrange]"
definition statusErrorStyle :: Style where "statusErrorStyle = NewStyle @ [Foreground colorRed]"
definition cursorStyle :: Style where "cursorStyle = NewStyle @ [Foreground colorBlue, Bold True]"
definition selectedItemStyle :: Style where "selectedItemStyle = NewStyle @ [Background colorBgLight, Foreground colorBlue]"
definition normalItemStyle :: Style where "normalItemStyle = NewStyle @ [Foreground colorFg]"
definition ephemeralStyle :: Style where "ephemeralStyle = NewStyle @ [Foreground colorPurple]"
definition statusBarStyle :: Style where "statusBarStyle = NewStyle @ [Foreground colorGrey]"
definition helpKeyStyle :: Style where "helpKeyStyle = NewStyle @ [Foreground colorLightGrey]"
definition helpDescStyle :: Style where "helpDescStyle = NewStyle @ [Foreground colorGrey]"
definition toastErrorStyle :: Style where "toastErrorStyle = NewStyle @ [Foreground colorRed]"
definition toastSuccessStyle :: Style where "toastSuccessStyle = NewStyle @ [Foreground colorGreen]"
definition emptyStateStyle :: Style where "emptyStateStyle = NewStyle @ [Foreground colorGrey, Align Center]"
definition emptyStateTitleStyle :: Style where "emptyStateTitleStyle = NewStyle @ [Foreground colorLightGrey, Bold True, MarginBottom 1]"
definition emptyStateCodeStyle :: Style where "emptyStateCodeStyle = NewStyle @ [Foreground colorCyan]"

section \<open>Indicators\<close>

definition StatusIcon :: "lipgloss \<Rightarrow> bool \<Rightarrow> bool \<Rightarrow> bool \<Rightarrow> string" where
  "StatusIcon lg connected connecting hasError =
     (if hasError then Render lg statusErrorStyle IconError
      else if connecting then Render lg statusConnectingStyle IconConnecting
      else if connected then Render lg statusConnectedStyle IconConnected
      else Render lg statusDisconnectedStyle IconDisconnected)"

definition StatusText :: "lipgloss \<Rightarrow> bool \<Rightarrow> bool \<Rightarrow> bool \<Rightarrow> string" where
  "StatusText lg connected connecting hasError =
     (if hasError then Render lg statusErrorStyle ''Error''
      else if connecting then Render lg statusConnectingStyle ''Connecting''
      else if connected then Render lg statusConnectedStyle ''Connected''
      else Render lg statusDisconnectedStyle ''Disconnected'')"

lemmas status_style_defs = statusErrorStyle_def statusConnectingStyle_def statusConnectedStyle_def
  statusDisconnectedStyle_def NewStyle_def colorRed_def colorOrange_def colorGreen_def colorGrey_def

text \<open>A lipgloss without colours, for examples: styles are ignored, widths are counted in runes.\<close>

definition plain_lipgloss :: lipgloss where
  "plain_lipgloss = \<lparr>Render = (\<lambda>st s. s), text_width = (\<lambda>s. int (RuneCount s)), Place = (\<lambda>w h a b s. s),
     JoinHorizontal = (\<lambda>p ss. concat ss), JoinVertical = (\<lambda>p ss. JoinWith [CHR 0x0A] ss)\<rparr>"

end
