(* ===== verification/TUI_Panels.thy ===== *)
theory TUI_Panels
  imports TUI_Styles SSH_Hosts Tunnel
begin

text \<open>
  Package \<^verbatim>\<open>internal/tui\<close>, files \<^verbatim>\<open>keys.go\<close>, \<^verbatim>\<open>statusbar.go\<close>, \<^verbatim>\<open>details.go\<close> and \<^verbatim>\<open>tunnel_list.go\<close>: key bindings and
  the three panels.  The libraries \<^verbatim>\<open>bubbles/list\<close> and \<^verbatim>\<open>bubbles/key\<close> are a record of operations over a type
  of list models, keys and commands.  Functions that slice or repeat return \<open>None\<close> where Go panics.
\<close>

section \<open>Key bindings\<close>

text \<open>A \<^verbatim>\<open>key.Binding\<close>: what \<^verbatim>\<open>key.WithKeys\<close> and \<^verbatim>\<open>key.WithHelp\<close> were called with.\<close>

record Binding =
  WithKeys :: "string list"
  WithHelp :: "string \<times> string"

record KeyMap =
  km_Up :: Binding
  km_Down :: Binding
  km_Toggle :: Binding
  km_Filter :: Binding
  km_Quit :: Binding

definition DefaultKeyMap :: KeyMap where
  "DefaultKeyMap = \<lparr>
     km_Up = \<lparr>WithKeys = [''k'', ''up''], WithHelp = (''j/k'', ''navigate'')\<rparr>,
     km_Down = \<lparr>WithKeys = [''j'', ''down''], WithHelp = (''j/k'', ''navigate'')\<rparr>,
     km_Toggle = \<lparr>WithKeys = [''enter''], WithHelp = (''enter'', ''toggle'')\<rparr>,
     km_Filter = \<lparr>WithKeys = [''/''], WithHelp = (''/'', ''filter'')\<rparr>,
     km_Quit = \<lparr>WithKeys = [''q'', ''ctrl+c''], WithHelp = (''q'', ''quit'')\<rparr>\<rparr>"

definition ShortHelp :: "KeyMap \<Rightarrow> Binding list" where
  "ShortHelp k = [km_Up k, km_Toggle k, km_Filter k, km_Quit k]"

definition FullHelp :: "KeyMap \<Rightarrow> Binding list list" where
  "FullHelp k = [[km_Up k, km_Down k], [km_Toggle k, km_Filter k], [km_Quit k]]"

section \<open>The tunnel item\<close>

record TunnelItem =
  it_Name :: string
  it_Host :: string
  it_Status :: State
  it_Error :: string
  it_Ephemeral :: bool
  it_Local :: string
  it_Remote :: string

definition FilterValue :: "TunnelItem \<Rightarrow> string" where
  "FilterValue t = it_Name t"

definition Title :: "TunnelItem \<Rightarrow> string" where
  "Title t = it_Name t"

definition Description :: "TunnelItem \<Rightarrow> string" where
  "Description t = it_Local t @ '' -> '' @ it_Remote t"

record TunnelDelegate =
  ShowEphemeral :: bool

definition NewTunnelDelegate :: TunnelDelegate where
  "NewTunnelDelegate = \<lparr>ShowEphemeral = True\<rparr>"

definition delegate_Height :: "TunnelDelegate \<Rightarrow> int" where
  "delegate_Height d = 1"

definition delegate_Spacing :: "TunnelDelegate \<Rightarrow> int" where
  "delegate_Spacing d = 0"

definition delegate_Update :: "TunnelDelegate \<Rightarrow> 'm \<Rightarrow> 'l \<Rightarrow> 'c option" where
  "delegate_Update d msg m = None"

section \<open>The library bubbles\<close>

text \<open>
  A \<^verbatim>\<open>list.Item\<close> is an interface value: a \<open>TunnelItem\<close>, or something else, which the type assertions of
  the code skip.  \<open>'l\<close> is the list model, \<open>'k\<close> a key message, \<open>'c\<close> a command of the library; a nil
  command is \<open>None\<close>.
\<close>

datatype Item = ItemTunnel TunnelItem | ItemOther

datatype FilterState = Unfiltered | Filtering | FilterApplied

datatype list_setting =
    SetShowTitle bool
  | SetShowStatusBar bool
  | SetShowHelp bool
  | SetFilteringEnabled bool
  | DisableQuitKeybindings
  | FilterInput_PromptStyle Style
  | FilterInput_TextStyle Style
  | FilterInput_Cursor_Style Style
  | Styles_NoItems Style

record ('l, 'k, 'c) bubbles =
  list_New :: "Item list \<Rightarrow> TunnelDelegate \<Rightarrow> int \<Rightarrow> int \<Rightarrow> 'l"
  list_set :: "list_setting \<Rightarrow> 'l \<Rightarrow> 'l"
  list_SetSize :: "int \<Rightarrow> int \<Rightarrow> 'l \<Rightarrow> 'l"
  list_SetItems :: "Item list \<Rightarrow> 'l \<Rightarrow> 'l \<times> 'c option"
  list_Update :: "'k \<Rightarrow> 'l \<Rightarrow> 'l \<times> 'c option"
  list_SelectedItem :: "'l \<Rightarrow> Item option"
  list_Index :: "'l \<Rightarrow> int"
  list_FilterState :: "'l \<Rightarrow> FilterState"
  list_Items :: "'l \<Rightarrow> Item list"
  list_View :: "'l \<Rightarrow> string"
  key_Matches :: "'k \<Rightarrow> Binding \<Rightarrow> bool"
  key_Help :: "Binding \<Rightarrow> string \<times> string"

section \<open>Rendering an item\<close>

definition delegate_Render :: "lipgloss \<Rightarrow> ('l, 'k, 'c) bubbles \<Rightarrow> TunnelDelegate \<Rightarrow> 'l \<Rightarrow> int \<Rightarrow> Item \<Rightarrow> string" where
  "delegate_Render lg bb d m index item =
     (case item of
        ItemOther \<Rightarrow> []
      | ItemTunnel t \<Rightarrow>
          let isSelected = (index = list_Index bb m);
              statusIcon = StatusIcon lg (it_Status t = StateConnected) (it_Status t = StateConnecting)
                             (it_Status t = StateError);
              name = (if it_Ephemeral t \<and> ShowEphemeral d
                      then it_Name t @ '' '' @ Render lg ephemeralStyle IconEphemeral else it_Name t)
          in (if isSelected then Render lg cursorStyle ''> '' else ''  '') @ statusIcon @ '' '' @
             (if isSelected then Render lg selectedStyle name else Render lg normalStyle name))"

section \<open>The list panel\<close>

record 'l TunnelListPanel =
  lp_list :: 'l
  lp_width :: int
  lp_height :: int

definition panel_settings :: "list_setting list" where
  "panel_settings =
     [SetShowTitle False, SetShowStatusBar False, SetShowHelp False, SetFilteringEnabled True,
      DisableQuitKeybindings,
      FilterInput_PromptStyle (NewStyle @ [Foreground colorBlue]),
      FilterInput_TextStyle (NewStyle @ [Foreground colorFg]),
      FilterInput_Cursor_Style (NewStyle @ [Foreground colorBlue]),
      Styles_NoItems mutedStyle]"

definition NewTunnelListPanel :: "('l, 'k, 'c) bubbles \<Rightarrow> 'l TunnelListPanel" where
  "NewTunnelListPanel bb =
     (let l = fold (list_set bb) panel_settings (list_New bb [] NewTunnelDelegate 0 0)
      in \<lparr>lp_list = l, lp_width = 0, lp_height = 0\<rparr>)"

definition panel_SetSize :: "('l, 'k, 'c) bubbles \<Rightarrow> int \<Rightarrow> int \<Rightarrow> 'l TunnelListPanel \<Rightarrow> 'l TunnelListPanel" where
  "panel_SetSize bb w h p =
     (let contentW = (if w - 2 < 0 then 0 else w - 2);
          contentH = (if h - 2 < 0 then 0 else h - 2)
      in p\<lparr>lp_width := w, lp_height := h, lp_list := list_SetSize bb contentW contentH (lp_list p)\<rparr>)"

text \<open>\<^verbatim>\<open>SetItems\<close> drops the command that the list returns.\<close>

definition panel_SetItems :: "('l, 'k, 'c) bubbles \<Rightarrow> TunnelItem list \<Rightarrow> 'l TunnelListPanel \<Rightarrow> 'l TunnelListPanel" where
  "panel_SetItems bb items p = p\<lparr>lp_list := fst (list_SetItems bb (map ItemTunnel items) (lp_list p))\<rparr>"

definition panel_Update :: "('l, 'k, 'c) bubbles \<Rightarrow> 'k \<Rightarrow> 'l TunnelListPanel \<Rightarrow> 'l TunnelListPanel \<times> 'c option" where
  "panel_Update bb msg p =
     (let (l, cmd) = list_Update bb msg (lp_list p) in (p\<lparr>lp_list := l\<rparr>, cmd))"

definition panel_SelectedItem :: "('l, 'k, 'c) bubbles \<Rightarrow> 'l TunnelListPanel \<Rightarrow> TunnelItem option" where
  "panel_SelectedItem bb p =
     (case list_SelectedItem bb (lp_list p) of
        None \<Rightarrow> None
      | Some item \<Rightarrow> (case item of ItemTunnel t \<Rightarrow> Some t | ItemOther \<Rightarrow> None))"

definition panel_SelectedIndex :: "('l, 'k, 'c) bubbles \<Rightarrow> 'l TunnelListPanel \<Rightarrow> int" where
  "panel_SelectedIndex bb p = list_Index bb (lp_list p)"

definition panel_Filtering :: "('l, 'k, 'c) bubbles \<Rightarrow> 'l TunnelListPanel \<Rightarrow> bool" where
  "panel_Filtering bb p \<longleftrightarrow> list_FilterState bb (lp_list p) = Filtering"

definition panel_View :: "lipgloss \<Rightarrow> ('l, 'k, 'c) bubbles \<Rightarrow> 'l TunnelListPanel \<Rightarrow> string" where
  "panel_View lg bb p =
     Render lg (panelStyle @ [Width (lp_width p), Height (lp_height p)]) (list_View bb (lp_list p))"

fun tunnel_items :: "Item list \<Rightarrow> TunnelItem list" where
  "tunnel_items [] = []"
| "tunnel_items (ItemTunnel t # items) = t # tunnel_items items"
| "tunnel_items (ItemOther # items) = tunnel_items items"

definition panel_Items :: "('l, 'k, 'c) bubbles \<Rightarrow> 'l TunnelListPanel \<Rightarrow> TunnelItem list" where
  "panel_Items bb p = tunnel_items (list_Items bb (lp_list p))"

lemma tunnel_items_map [simp]: "tunnel_items (map ItemTunnel ts) = ts"
  by (induction ts) auto

section \<open>The details panel\<close>

record DetailsPanel =
  dp_width :: int
  dp_height :: int

definition NewDetailsPanel :: DetailsPanel where
  "NewDetailsPanel = \<lparr>dp_width = 0, dp_height = 0\<rparr>"

definition details_SetSize :: "int \<Rightarrow> int \<Rightarrow> DetailsPanel \<Rightarrow> DetailsPanel" where
  "details_SetSize w h d = d\<lparr>dp_width := w, dp_height := h\<rparr>"

definition renderEmpty :: "lipgloss \<Rightarrow> int \<Rightarrow> int \<Rightarrow> string" where
  "renderEmpty lg width height =
     Place lg width height Center Center (Render lg mutedStyle ''No tunnel selected'')"

definition renderRow :: "lipgloss \<Rightarrow> string \<Rightarrow> string \<Rightarrow> string \<Rightarrow> string" where
  "renderRow lg icon label val =
     Render lg mutedStyle icon @ '' '' @ Render lg labelStyle label @ Render lg valueStyle val"

definition renderRowValue :: "lipgloss \<Rightarrow> string \<Rightarrow> string \<Rightarrow> string \<Rightarrow> string" where
  "renderRowValue lg icon label styledValue =
     (if icon = [] then ''  '' @ Render lg labelStyle label @ styledValue
      else Render lg mutedStyle icon @ '' '' @ Render lg labelStyle label @ styledValue)"

definition detail_lines :: "lipgloss \<Rightarrow> TunnelItem \<Rightarrow> string list" where
  "detail_lines lg item =
     (let (user, host, port) = tui_parseHost (it_Host item);
          connected = (it_Status item = StateConnected);
          connecting = (it_Status item = StateConnecting);
          hasError = (it_Status item = StateError);
          statusIcon = StatusIcon lg connected connecting hasError;
          statusText = StatusText lg connected connecting hasError
      in [renderRow lg IconName ''Name'' (it_Name item), [],
          renderRow lg IconStatus ''Status'' (statusIcon @ '' '' @ statusText)] @
         (if it_Error item \<noteq> []
          then [[], renderRowValue lg [] ''Error'' (Render lg statusErrorStyle (it_Error item))] else []) @
         (if it_Ephemeral item
          then [[], Render lg ephemeralStyle (IconEphemeral @ '' Ephemeral (ad-hoc)'')] else []) @
         [[]] @
         (if user \<noteq> [] then [renderRow lg IconUser ''User'' user] else []) @
         [renderRow lg IconHost ''Host'' host] @
         (if port \<noteq> [] \<and> port \<noteq> ''22'' then [renderRow lg IconPort ''Port'' port] else []) @
         [[], renderRow lg IconLocal ''Local'' (it_Local item), renderRow lg IconRemote ''Remote'' (it_Remote item)])"

definition renderDetails :: "lipgloss \<Rightarrow> TunnelItem \<Rightarrow> int \<Rightarrow> int \<Rightarrow> string option" where
  "renderDetails lg item width height =
     (let content = JoinWith [CHR 0x0A] (detail_lines lg item);
          lineCount = int (Count content [CHR 0x0A]) + 1
      in if lineCount < height
         then map_option (\<lambda>r. content @ r) (Repeat [CHR 0x0A] (height - lineCount))
         else Some content)"

definition details_View :: "lipgloss \<Rightarrow> DetailsPanel \<Rightarrow> TunnelItem option \<Rightarrow> string option" where
  "details_View lg d item =
     (let contentWidth = (if dp_width d - 2 < 0 then 0 else dp_width d - 2);
          contentHeight = (if dp_height d - 2 < 0 then 0 else dp_height d - 2);
          content = (case item of
                       None \<Rightarrow> Some (renderEmpty lg contentWidth contentHeight)
                     | Some t \<Rightarrow> renderDetails lg t contentWidth contentHeight)
      in map_option (Render lg (panelStyle @ [Width (dp_width d), Height (dp_height d)])) content)"

section \<open>The status bar\<close>

datatype ToastType = ToastError | ToastSuccess | ToastInfo

text \<open>Five seconds, in nanoseconds.\<close>

definition toastDuration :: int where
  "toastDuration = 5 * 1000000000"

record StatusBar =
  sb_width :: int
  sb_keys :: KeyMap
  sb_toast :: string
  sb_toastTy :: ToastType

definition NewStatusBar :: "KeyMap \<Rightarrow> StatusBar" where
  "NewStatusBar keys = \<lparr>sb_width = 0, sb_keys = keys, sb_toast = [], sb_toastTy = ToastError\<rparr>"

definition SetWidth :: "int \<Rightarrow> StatusBar \<Rightarrow> StatusBar" where
  "SetWidth w s = s\<lparr>sb_width := w\<rparr>"

definition SetToast :: "string \<Rightarrow> ToastType \<Rightarrow> StatusBar \<Rightarrow> StatusBar" where
  "SetToast msg ty s = s\<lparr>sb_toast := msg, sb_toastTy := ty\<rparr>"

definition ClearToast :: "StatusBar \<Rightarrow> StatusBar" where
  "ClearToast s = s\<lparr>sb_toast := []\<rparr>"

definition HasToast :: "StatusBar \<Rightarrow> bool" where
  "HasToast s \<longleftrightarrow> sb_toast s \<noteq> []"

definition help_text :: "lipgloss \<Rightarrow> ('l, 'k, 'c) bubbles \<Rightarrow> StatusBar \<Rightarrow> string" where
  "help_text lg bb s =
     JoinWith ''  '' (concat (map (\<lambda>binding.
       let (key, desc) = key_Help bb binding
       in if key \<noteq> [] \<and> desc \<noteq> []
          then [Render lg helpKeyStyle key @ '' '' @ Render lg helpDescStyle desc] else [])
       (ShortHelp (sb_keys s))))"

definition render_toast :: "lipgloss \<Rightarrow> ToastType \<Rightarrow> string \<Rightarrow> string" where
  "render_toast lg ty msg =
     (case ty of
        ToastError \<Rightarrow> Render lg toastErrorStyle (IconError @ '' '' @ msg)
      | ToastSuccess \<Rightarrow> Render lg toastSuccessStyle (IconConnected @ '' '' @ msg)
      | ToastInfo \<Rightarrow> Render lg secondaryStyle msg)"

definition bar_View :: "lipgloss \<Rightarrow> ('l, 'k, 'c) bubbles \<Rightarrow> StatusBar \<Rightarrow> string option" where
  "bar_View lg bb s =
     (if sb_width s = 0 then Some []
      else
        let helpText = help_text lg bb s
        in if sb_toast s = [] then Some (Render lg (statusBarStyle @ [Width (sb_width s)]) helpText)
           else
             let toastText = render_toast lg (sb_toastTy s) (sb_toast s);
                 helpWidth = text_width lg helpText;
                 toastWidth = text_width lg toastText;
                 availableWidth = sb_width s
             in if helpWidth + toastWidth + 4 \<le> availableWidth
                then map_option (\<lambda>r. helpText @ r @ toastText) (Repeat '' '' (availableWidth - helpWidth - toastWidth))
                else if toastWidth < availableWidth
                then Some (Render lg (NewStyle @ [Width availableWidth, Align Right]) toastText)
                else
                  let maxLen = availableWidth - 3
                  in if 0 < maxLen \<and> maxLen < int (length (sb_toast s))
                     then map_option (\<lambda>t. render_toast lg (sb_toastTy s) (t @ ''...'')) (slice_to (sb_toast s) maxLen)
                     else Some toastText)"

section \<open>No panel panics\<close>

lemma renderDetails_total: "\<exists>v. renderDetails lg item width height = Some v"
  by (auto simp: renderDetails_def Let_def)

lemma details_View_total: "\<exists>v. details_View lg d item = Some v"
proof (cases item)
  case None
  then show ?thesis by (simp add: details_View_def Let_def)
next
  case (Some t)
  then show ?thesis
    using renderDetails_total[of lg t] by (auto simp: details_View_def Let_def split: option.split)
qed

lemma bar_View_total: "\<exists>v. bar_View lg bb s = Some v"
  by (auto simp: bar_View_def Let_def slice_to_def)

text \<open>The details fill the panel: at least as many lines as it is high.\<close>

lemma renderDetails_fills:
  assumes "renderDetails lg item width height = Some v"
  shows "height \<le> int (count_list v (CHR 0x0A)) + 1"
proof -
  let ?c = "JoinWith [CHR 0x0A] (detail_lines lg item)"
  let ?k = "int (count_list ?c (CHR 0x0A)) + 1"
  have rep: "count_list (concat (replicate n [x])) x = n" for n and x :: char by (induction n) auto
  show ?thesis
  proof (cases "?k < height")
    case True
    with assms have "v = ?c @ concat (replicate (nat (height - ?k)) [CHR 0x0A])"
      by (simp add: renderDetails_def Count_char Let_def)
    with True show ?thesis by (simp only: rep count_list_append)
  next
    case False
    with assms show ?thesis by (simp add: renderDetails_def Count_char Let_def)
  qed
qed

end
