(* ===== verification/TUI_Model.thy ===== *)
theory TUI_Model
  imports TUI_Panels Client_Props
begin

text \<open>
  Package \<^verbatim>\<open>internal/tui\<close>, file \<^verbatim>\<open>tui.go\<close>: the model of the terminal interface, its update function, its
  view, what its commands do when the runtime runs them, and the transition system in which the
  runtime runs commands concurrently and hands messages to the update function one at a time.
\<close>

section \<open>State, messages and commands\<close>

text \<open>The libraries, the texts of JSON errors and the environment variables.\<close>

record ('l, 'k, 'c) tui_lib =
  tl_lipgloss :: lipgloss
  tl_bubbles :: "('l, 'k, 'c) bubbles"
  tl_jsonErr :: "json_error \<Rightarrow> string"
  tl_getenv :: getenv

record 'l Model =
  md_listPanel :: "'l TunnelListPanel"
  md_detailsPanel :: DetailsPanel
  md_statusBar :: StatusBar
  md_keys :: KeyMap
  md_width :: int
  md_height :: int
  md_err :: "client_error option"

text \<open>
  The messages that \<^verbatim>\<open>Update\<close> distinguishes.  \<open>OtherMsg\<close> is any other message of the libraries, such as
  the filter results of the list; \<open>NilMsg\<close> is what a command without a message returns.
\<close>

datatype 'k Msg =
    WindowSizeMsg int int
  | KeyMsg 'k
  | tunnelsLoadedMsg "TunnelItem list"
  | tunnelStatusChangedMsg string State string
  | notificationMsg Notification
  | errorMsg client_error
  | hideToastMsg
  | OtherMsg
  | NilMsg

text \<open>
  Commands.  A nil command is the empty list, and \<^verbatim>\<open>tea.Batch\<close> the concatenation: the runtime runs the
  members concurrently.  The closure of \<^verbatim>\<open>toggleTunnel\<close> has captured the model, of which it reads the list
  panel.
\<close>

datatype ('l, 'c) Cmd =
    Quit
  | loadTunnels
  | listenForNotifications
  | toggleTunnel "'l TunnelListPanel" string
  | HideToastCmd
  | ListCmd 'c

definition cmd_of :: "'c option \<Rightarrow> ('l, 'c) Cmd list" where
  "cmd_of c = (case c of None \<Rightarrow> [] | Some x \<Rightarrow> [ListCmd x])"

definition New_Model :: "('l, 'k, 'c) tui_lib \<Rightarrow> 'l Model" where
  "New_Model lib =
     \<lparr>md_listPanel = NewTunnelListPanel (tl_bubbles lib), md_detailsPanel = NewDetailsPanel,
      md_statusBar = NewStatusBar DefaultKeyMap, md_keys = DefaultKeyMap, md_width = 0, md_height = 0,
      md_err = None\<rparr>"

definition Init :: "('l, 'c) Cmd list" where
  "Init = [loadTunnels] @ [listenForNotifications]"

section \<open>What the commands do\<close>

definition item_of :: "TunnelInfo \<Rightarrow> TunnelItem" where
  "item_of t = \<lparr>it_Name = ti_Name t, it_Host = tc_Host (ti_Config t), it_Status = ti_Status t,
     it_Error = ti_Error t, it_Ephemeral = ti_Ephemeral t, it_Local = tc_Local (ti_Config t),
     it_Remote = tc_Remote (ti_Config t)\<rparr>"

definition run_loadTunnels :: "caller \<Rightarrow> 'k Msg" where
  "run_loadTunnels call =
     (case Client_TunnelList call of
        Inl e \<Rightarrow> errorMsg e
      | Inr result \<Rightarrow> tunnelsLoadedMsg (map item_of (lr_Tunnels result)))"

text \<open>Receiving from the client's notifications; \<open>None\<close> when the channel is closed.\<close>

definition run_listen :: "Notification option \<Rightarrow> 'k Msg" where
  "run_listen received = (case received of None \<Rightarrow> NilMsg | Some notif \<Rightarrow> notificationMsg notif)"

text \<open>\<^verbatim>\<open>tea.Tick\<close>: the delay and the message after it.\<close>

definition run_HideToast :: "int \<times> 'k Msg" where
  [simp]: "run_HideToast = (toastDuration, hideToastMsg)"

fun current_status :: "string \<Rightarrow> TunnelItem list \<Rightarrow> State" where
  "current_status name [] = []"
| "current_status name (t # ts) = (if it_Name t = name then it_Status t else current_status name ts)"

definition run_toggle :: "('l, 'k, 'c) bubbles \<Rightarrow> 'l TunnelListPanel \<Rightarrow> string \<Rightarrow> caller \<Rightarrow> 'k Msg" where
  "run_toggle bb panel name call =
     (if IsActive (current_status name (panel_Items bb panel))
      then (case Client_TunnelStop call name of Inl e \<Rightarrow> errorMsg e | Inr _ \<Rightarrow> NilMsg)
      else (case Client_TunnelStart call name of Inl e \<Rightarrow> errorMsg e | Inr _ \<Rightarrow> NilMsg))"

section \<open>Update\<close>

text \<open>Go's division truncates; a negative width is below 25 after either division.\<close>

definition updateLayout :: "('l, 'k, 'c) bubbles \<Rightarrow> 'l Model \<Rightarrow> 'l Model" where
  "updateLayout bb m =
     (let statusBarHeight = 1;
          contentHeight = md_height m - statusBarHeight;
          listWidth = md_width m div 3;
          listWidth = (if listWidth < 25 then 25 else listWidth);
          listWidth = (if listWidth > 50 then 50 else listWidth);
          listWidth = (if listWidth > md_width m then md_width m else listWidth);
          detailsWidth = md_width m - listWidth;
          detailsWidth = (if detailsWidth < 0 then 0 else detailsWidth)
      in m\<lparr>md_listPanel := panel_SetSize bb listWidth contentHeight (md_listPanel m),
           md_detailsPanel := details_SetSize detailsWidth contentHeight (md_detailsPanel m),
           md_statusBar := SetWidth (md_width m) (md_statusBar m)\<rparr>)"

definition Update_key :: "('l, 'k, 'c) bubbles \<Rightarrow> 'k \<Rightarrow> 'l Model \<Rightarrow> 'l Model \<times> ('l, 'c) Cmd list" where
  "Update_key bb msg m =
     (let to_list = (let (p, cmd) = panel_Update bb msg (md_listPanel m)
                     in (m\<lparr>md_listPanel := p\<rparr>, cmd_of cmd))
      in if panel_Filtering bb (md_listPanel m) then to_list
         else if key_Matches bb msg (km_Quit (md_keys m)) then (m, [Quit])
         else if key_Matches bb msg (km_Up (md_keys m)) \<or> key_Matches bb msg (km_Down (md_keys m)) then to_list
         else if key_Matches bb msg (km_Filter (md_keys m)) then to_list
         else if key_Matches bb msg (km_Toggle (md_keys m)) then
           (case panel_SelectedItem bb (md_listPanel m) of
              Some selected \<Rightarrow> (m, [toggleTunnel (md_listPanel m) (it_Name selected)])
            | None \<Rightarrow> (m, []))
         else (m, []))"

text \<open>The loop over the items: the first one of the name is changed, and whether there is one.\<close>

fun set_status :: "string \<Rightarrow> State \<Rightarrow> string \<Rightarrow> TunnelItem list \<Rightarrow> TunnelItem list \<times> bool" where
  "set_status name status err [] = ([], False)"
| "set_status name status err (t # ts) =
     (if it_Name t = name then (t\<lparr>it_Status := status, it_Error := err\<rparr> # ts, True)
      else let (ts', found) = set_status name status err ts in (t # ts', found))"

definition Update_status ::
  "('l, 'k, 'c) bubbles \<Rightarrow> string \<Rightarrow> State \<Rightarrow> string \<Rightarrow> 'l Model \<Rightarrow> 'l Model \<times> ('l, 'c) Cmd list" where
  "Update_status bb name status err m =
     (let (items, found) = set_status name status err (panel_Items bb (md_listPanel m));
          toast = (found \<and> status = StateError \<and> err \<noteq> []);
          m = (if toast then m\<lparr>md_statusBar := SetToast err ToastError (md_statusBar m)\<rparr> else m);
          cmds = (if toast then [HideToastCmd] else [])
      in (m\<lparr>md_listPanel := panel_SetItems bb items (md_listPanel m)\<rparr>, cmds))"

definition Update_notification ::
  "('l, 'k, 'c) bubbles \<Rightarrow> Notification \<Rightarrow> 'l Model \<Rightarrow> 'l Model \<times> ('l, 'c) Cmd list" where
  "Update_notification bb msg m =
     (if not_Method msg = MethodStatusChanged then
        (case json_Unmarshal unmarshal_StatusResult zero_StatusResult (not_Params msg) of
           Inr params \<Rightarrow>
             (let (newModel, updateCmd) = Update_status bb (sr_Name params) (sr_Status params) (sr_Error params) m
              in (newModel, [listenForNotifications] @ updateCmd))
         | Inl e \<Rightarrow> (m, [listenForNotifications]))
      else (m, [listenForNotifications]))"

fun Update :: "('l, 'k, 'c) tui_lib \<Rightarrow> 'k Msg \<Rightarrow> 'l Model \<Rightarrow> 'l Model \<times> ('l, 'c) Cmd list" where
  "Update lib (WindowSizeMsg w h) m =
     (updateLayout (tl_bubbles lib) (m\<lparr>md_width := w, md_height := h\<rparr>), [])"
| "Update lib (KeyMsg msg) m = Update_key (tl_bubbles lib) msg m"
| "Update lib (tunnelsLoadedMsg tunnels) m =
     (m\<lparr>md_listPanel := panel_SetItems (tl_bubbles lib) tunnels (md_listPanel m)\<rparr>, [])"
| "Update lib (tunnelStatusChangedMsg name status err) m = Update_status (tl_bubbles lib) name status err m"
| "Update lib (notificationMsg msg) m = Update_notification (tl_bubbles lib) msg m"
| "Update lib (errorMsg err) m =
     (m\<lparr>md_statusBar := SetToast (client_error_text (tl_jsonErr lib) err) ToastError (md_statusBar m)\<rparr>, [HideToastCmd])"
| "Update lib hideToastMsg m = (m\<lparr>md_statusBar := ClearToast (md_statusBar m)\<rparr>, [])"
| "Update lib OtherMsg m = (m, [])"
| "Update lib NilMsg m = (m, [])"

section \<open>View\<close>

definition example_text :: string where
  "example_text = JoinWith [CHR 0x0A]
     [''[[tunnels]]'',
      ''name = '' @ [CHR 0x22] @ ''production-db'' @ [CHR 0x22],
      ''host = '' @ [CHR 0x22] @ ''user@bastion.example.com'' @ [CHR 0x22],
      ''remote = '' @ [CHR 0x22] @ ''db.internal:5432'' @ [CHR 0x22],
      ''local = '' @ [CHR 0x22] @ ''localhost:5432'' @ [CHR 0x22]]"

definition config_help_path :: "getenv \<Rightarrow> string" where
  "config_help_path getenv =
     (case UserHomeDir getenv of
        Inr home \<Rightarrow> filepath_Join [home, ''.config'', ''gurren'', ''config.toml'']
      | Inl e \<Rightarrow> ''~/.config/gurren/config.toml'')"

definition renderEmptyState :: "('l, 'k, 'c) tui_lib \<Rightarrow> 'l Model \<Rightarrow> string option" where
  "renderEmptyState lib m =
     (let lg = tl_lipgloss lib;
          nl = [CHR 0x0A];
          content =
            Render lg emptyStateTitleStyle ''No tunnels configured'' @ nl @ nl @
            Render lg mutedStyle ''Create a config file at:'' @ nl @
            Render lg emptyStateCodeStyle (config_help_path (tl_getenv lib)) @ nl @ nl @
            Render lg mutedStyle ''Example:'' @ nl @
            Render lg emptyStateCodeStyle example_text @ nl @ nl @
            Render lg mutedStyle ''Or use ad-hoc connections:'' @ nl @
            Render lg emptyStateCodeStyle ''gurren connect --host user@bastion --remote db:5432 --local :5432'';
          centered = Place lg (md_width m) (md_height m - 1) Center Center content
      in map_option (\<lambda>statusBar. JoinVertical lg Left [centered, statusBar])
           (bar_View lg (tl_bubbles lib) (md_statusBar m)))"

definition View :: "('l, 'k, 'c) tui_lib \<Rightarrow> 'l Model \<Rightarrow> string option" where
  "View lib m =
     (let lg = tl_lipgloss lib; bb = tl_bubbles lib
      in if md_width m = 0 \<or> md_height m = 0 then Some []
         else if panel_Items bb (md_listPanel m) = [] \<and> \<not> panel_Filtering bb (md_listPanel m)
         then renderEmptyState lib m
         else
           (case details_View lg (md_detailsPanel m) (panel_SelectedItem bb (md_listPanel m)) of
              None \<Rightarrow> None
            | Some detailsView \<Rightarrow>
                (let panels = JoinHorizontal lg Top [panel_View lg bb (md_listPanel m), detailsView]
                 in map_option (\<lambda>statusBar. JoinVertical lg Left [panels, statusBar])
                      (bar_View lg bb (md_statusBar m)))))"

text \<open>
  \<^verbatim>\<open>Run\<close>: \<open>run\<close> is the outcome of \<^verbatim>\<open>tea.Program.Run\<close> on the new model, \<open>None\<close> without an error.
\<close>

definition Run :: "('l, 'k, 'c) tui_lib \<Rightarrow> caller \<Rightarrow> ('l Model \<Rightarrow> string option) \<Rightarrow> string option" where
  "Run lib call run =
     (case Client_Subscribe call of
        Inl e \<Rightarrow> Some (''failed to subscribe to notifications: '' @ client_error_text (tl_jsonErr lib) e)
      | Inr _ \<Rightarrow> run (New_Model lib))"

section \<open>The running program\<close>

text \<open>
  The runtime: commands that run, messages that were sent but not handled yet, the client's channel
  of notifications, which holds 100 and drops what finds it full.  The history records what was received into
  the channel and what was dropped, which notifications were handled, the list that was loaded and the
  notifications handled since.
\<close>

record ('l, 'k, 'c) tui_sys =
  ts_model :: "'l Model"
  ts_cmds :: "('l, 'c) Cmd multiset"
  ts_msgs :: "'k Msg multiset"
  ts_queue :: "Notification list"
  ts_closed :: bool
  ts_quit :: bool
  ts_received :: "Notification list"
  ts_dropped :: "Notification list"
  ts_handled :: "Notification list"
  ts_loaded :: "TunnelItem list"
  ts_since :: "Notification list"

definition tui_initial :: "('l, 'k, 'c) tui_lib \<Rightarrow> ('l, 'k, 'c) tui_sys" where
  "tui_initial lib = \<lparr>ts_model = New_Model lib, ts_cmds = mset Init, ts_msgs = {#}, ts_queue = [],
     ts_closed = False, ts_quit = False, ts_received = [], ts_dropped = [], ts_handled = [], ts_loaded = [], ts_since = []\<rparr>"

text \<open>Handling one message.\<close>

fun record_msg :: "'k Msg \<Rightarrow> ('l, 'k, 'c) tui_sys \<Rightarrow> ('l, 'k, 'c) tui_sys" where
  "record_msg (tunnelsLoadedMsg tunnels) s = s\<lparr>ts_loaded := tunnels, ts_since := []\<rparr>"
| "record_msg (notificationMsg n) s = s\<lparr>ts_handled := ts_handled s @ [n], ts_since := ts_since s @ [n]\<rparr>"
| "record_msg _ s = s"

definition handle :: "('l, 'k, 'c) tui_lib \<Rightarrow> 'k Msg \<Rightarrow> ('l, 'k, 'c) tui_sys \<Rightarrow> ('l, 'k, 'c) tui_sys" where
  "handle lib msg s =
     (let (m, cmds) = Update lib msg (ts_model s)
      in record_msg msg (s\<lparr>ts_model := m, ts_cmds := ts_cmds s + mset cmds\<rparr>))"

inductive tui_step :: "('l, 'k, 'c) tui_lib \<Rightarrow> ('l, 'k, 'c) tui_sys \<Rightarrow> ('l, 'k, 'c) tui_sys \<Rightarrow> bool"
  for lib :: "('l, 'k, 'c) tui_lib" where
  tui_key: "\<not> ts_quit s \<Longrightarrow> tui_step lib s (handle lib (KeyMsg k) s)"
| tui_resize: "\<not> ts_quit s \<Longrightarrow> 0 \<le> w \<Longrightarrow> 0 \<le> h \<Longrightarrow> tui_step lib s (handle lib (WindowSizeMsg w h) s)"
| tui_other: "\<not> ts_quit s \<Longrightarrow> tui_step lib s (handle lib OtherMsg s)"
| tui_handle: "\<not> ts_quit s \<Longrightarrow> ts_msgs s = add_mset msg msgs \<Longrightarrow>
     tui_step lib s (handle lib msg (s\<lparr>ts_msgs := msgs\<rparr>))"
| tui_receive: "\<not> ts_closed s \<Longrightarrow> length (ts_queue s) < notification_capacity \<Longrightarrow>
     tui_step lib s (s\<lparr>ts_queue := ts_queue s @ [n], ts_received := ts_received s @ [n]\<rparr>)"
| tui_drop: "\<not> ts_closed s \<Longrightarrow> notification_capacity \<le> length (ts_queue s) \<Longrightarrow>
     tui_step lib s (s\<lparr>ts_dropped := ts_dropped s @ [n]\<rparr>)"
| tui_disconnect: "tui_step lib s (s\<lparr>ts_closed := True\<rparr>)"
| tui_load: "ts_cmds s = add_mset loadTunnels cmds \<Longrightarrow>
     tui_step lib s (s\<lparr>ts_cmds := cmds, ts_msgs := add_mset (run_loadTunnels call) (ts_msgs s)\<rparr>)"
| tui_listen: "ts_cmds s = add_mset listenForNotifications cmds \<Longrightarrow> ts_queue s = n # ns \<Longrightarrow>
     tui_step lib s (s\<lparr>ts_cmds := cmds, ts_queue := ns, ts_msgs := add_mset (run_listen (Some n)) (ts_msgs s)\<rparr>)"
| tui_listen_closed: "ts_cmds s = add_mset listenForNotifications cmds \<Longrightarrow> ts_queue s = [] \<Longrightarrow> ts_closed s \<Longrightarrow>
     tui_step lib s (s\<lparr>ts_cmds := cmds, ts_msgs := add_mset (run_listen None) (ts_msgs s)\<rparr>)"
| tui_toggle: "ts_cmds s = add_mset (toggleTunnel p name) cmds \<Longrightarrow>
     tui_step lib s (s\<lparr>ts_cmds := cmds, ts_msgs := add_mset (run_toggle (tl_bubbles lib) p name call) (ts_msgs s)\<rparr>)"
| tui_tick: "ts_cmds s = add_mset HideToastCmd cmds \<Longrightarrow>
     tui_step lib s (s\<lparr>ts_cmds := cmds, ts_msgs := add_mset (snd run_HideToast) (ts_msgs s)\<rparr>)"
| tui_list_cmd: "ts_cmds s = add_mset (ListCmd c) cmds \<Longrightarrow>
     tui_step lib s (s\<lparr>ts_cmds := cmds, ts_msgs := add_mset OtherMsg (ts_msgs s)\<rparr>)"
| tui_quit: "ts_cmds s = add_mset Quit cmds \<Longrightarrow>
     tui_step lib s (s\<lparr>ts_cmds := cmds, ts_quit := True\<rparr>)"

abbreviation tui_reach :: "('l, 'k, 'c) tui_lib \<Rightarrow> ('l, 'k, 'c) tui_sys \<Rightarrow> bool" where
  "tui_reach lib \<equiv> reach (\<lambda>s. s = tui_initial lib) (tui_step lib)"

end
