(* ===== verification/TUI_Inv.thy ===== *)
theory TUI_Inv
  imports TUI_Model
begin

text \<open>
  The invariants of the terminal interface: what the list library promises, what each message does to
  the items, the one listener, the sizes of the panels, and the reference for what the list shows.
\<close>

section \<open>What the list library promises\<close>

text \<open>
  \<^verbatim>\<open>SetItems\<close> replaces the items and \<^verbatim>\<open>Items\<close> returns them; sizes, settings and keys change the cursor, the
  page or the filter, but not the items; the selected item is one of them.
\<close>

definition list_laws :: "('l, 'k, 'c) bubbles \<Rightarrow> bool" where
  "list_laws bb \<longleftrightarrow>
     (\<forall>xs l. list_Items bb (fst (list_SetItems bb xs l)) = xs) \<and>
     (\<forall>k l. list_Items bb (fst (list_Update bb k l)) = list_Items bb l) \<and>
     (\<forall>w h l. list_Items bb (list_SetSize bb w h l) = list_Items bb l) \<and>
     (\<forall>x l. list_Items bb (list_set bb x l) = list_Items bb l) \<and>
     (\<forall>xs d w h. list_Items bb (list_New bb xs d w h) = xs) \<and>
     (\<forall>l x. list_SelectedItem bb l = Some x \<longrightarrow> x \<in> set (list_Items bb l))"

lemma list_lawsD:
  assumes "list_laws bb"
  shows "list_Items bb (fst (list_SetItems bb xs l)) = xs"
    and "list_Items bb (fst (list_Update bb k l)) = list_Items bb l"
    and "list_Items bb (list_SetSize bb w h l) = list_Items bb l"
    and "list_Items bb (list_set bb x l) = list_Items bb l"
    and "list_Items bb (list_New bb xs d w h) = xs"
    and "list_SelectedItem bb l = Some item \<Longrightarrow> item \<in> set (list_Items bb l)"
  using assms by (simp_all add: list_laws_def)

lemma panel_laws:
  assumes "list_laws bb"
  shows "panel_Items bb (panel_SetItems bb ts p) = ts"
    and "panel_Items bb (fst (panel_Update bb k p)) = panel_Items bb p"
    and "panel_Items bb (panel_SetSize bb w h p) = panel_Items bb p"
    and "panel_Items bb (NewTunnelListPanel bb) = []"
proof -
  show "panel_Items bb (panel_SetItems bb ts p) = ts"
    by (simp add: panel_Items_def panel_SetItems_def list_lawsD(1)[OF assms])
  show "panel_Items bb (fst (panel_Update bb k p)) = panel_Items bb p"
    using list_lawsD(2)[OF assms, of k "lp_list p"]
    by (simp add: panel_Items_def panel_Update_def split_beta)
  show "panel_Items bb (panel_SetSize bb w h p) = panel_Items bb p"
    by (simp add: panel_Items_def panel_SetSize_def list_lawsD(3)[OF assms] Let_def)
  have "list_Items bb (fold (list_set bb) xs l) = list_Items bb l" for xs l
    by (induction xs arbitrary: l) (simp_all add: list_lawsD(4)[OF assms])
  then show "panel_Items bb (NewTunnelListPanel bb) = []"
    by (simp add: panel_Items_def NewTunnelListPanel_def list_lawsD(5)[OF assms])
qed

lemma in_tunnel_items: "ItemTunnel t \<in> set items \<longleftrightarrow> t \<in> set (tunnel_items items)"
  by (induction items rule: tunnel_items.induct) auto

lemma selected_in_items:
  assumes "list_laws bb" "panel_SelectedItem bb p = Some t"
  shows "t \<in> set (panel_Items bb p)"
proof -
  from assms(2) have "list_SelectedItem bb (lp_list p) = Some (ItemTunnel t)"
    by (auto simp: panel_SelectedItem_def split: option.splits Item.splits)
  from list_lawsD(6)[OF assms(1) this] show ?thesis by (simp add: panel_Items_def in_tunnel_items)
qed

section \<open>A list for examples\<close>

text \<open>A list of items with a cursor; the slash starts filtering, up and down move.\<close>

type_synonym sample_list = "Item list \<times> nat \<times> FilterState"

fun sample_key :: "string \<Rightarrow> sample_list \<Rightarrow> sample_list" where
  "sample_key k (items, i, fs) =
     (if k = ''/'' then (items, i, Filtering)
      else if k = ''j'' \<and> Suc i < length items then (items, Suc i, fs)
      else if k = ''k'' then (items, i - 1, fs)
      else (items, i, fs))"

definition sample_bubbles :: "(sample_list, string, unit) bubbles" where
  "sample_bubbles = \<lparr>list_New = (\<lambda>items d w h. (items, 0, Unfiltered)), list_set = (\<lambda>x l. l),
     list_SetSize = (\<lambda>w h l. l), list_SetItems = (\<lambda>items l. ((items, snd l), None)),
     list_Update = (\<lambda>k l. (sample_key k l, None)),
     list_SelectedItem = (\<lambda>(items, i, fs). if i < length items then Some (items ! i) else None),
     list_Index = (\<lambda>(items, i, fs). int i), list_FilterState = (\<lambda>(items, i, fs). fs),
     list_Items = (\<lambda>(items, i, fs). items), list_View = (\<lambda>(items, i, fs). []),
     key_Matches = (\<lambda>k b. k \<in> set (WithKeys b)), key_Help = WithHelp\<rparr>"

lemma sample_key_items [simp]: "fst (sample_key k l) = fst l"
  by (cases l) auto

lemma sample_laws: "list_laws sample_bubbles"
  by (auto simp: list_laws_def sample_bubbles_def split: if_splits prod.splits)

definition sample_tui :: "(sample_list, string, unit) tui_lib" where
  "sample_tui = \<lparr>tl_lipgloss = plain_lipgloss, tl_bubbles = sample_bubbles, tl_jsonErr = (\<lambda>e. ''json''),
     tl_getenv = (\<lambda>v. [])\<rparr>"

lemma sample_tui_simps [simp]:
  "tl_bubbles sample_tui = sample_bubbles" "tl_lipgloss sample_tui = plain_lipgloss"
  by (simp_all add: sample_tui_def)

section \<open>What a message does to the list\<close>

definition apply_notification :: "Notification \<Rightarrow> TunnelItem list \<Rightarrow> TunnelItem list" where
  "apply_notification n items =
     (if not_Method n = MethodStatusChanged then
        (case json_Unmarshal unmarshal_StatusResult zero_StatusResult (not_Params n) of
           Inr p \<Rightarrow> fst (set_status (sr_Name p) (sr_Status p) (sr_Error p) items)
         | Inl e \<Rightarrow> items)
      else items)"

fun items_after :: "'k Msg \<Rightarrow> TunnelItem list \<Rightarrow> TunnelItem list" where
  "items_after (tunnelsLoadedMsg ts) items = ts"
| "items_after (tunnelStatusChangedMsg n st e) items = fst (set_status n st e items)"
| "items_after (notificationMsg n) items = apply_notification n items"
| "items_after _ items = items"

lemma Update_status_items:
  "list_laws bb \<Longrightarrow> panel_Items bb (md_listPanel (fst (Update_status bb n st e m))) =
     fst (set_status n st e (panel_Items bb (md_listPanel m)))"
  by (simp add: Update_status_def panel_laws Let_def split: prod.split)

lemma Update_key_items:
  "list_laws bb \<Longrightarrow> panel_Items bb (md_listPanel (fst (Update_key bb k m))) = panel_Items bb (md_listPanel m)"
  using panel_laws(2)[of bb k "md_listPanel m"]
  by (auto simp: Update_key_def Let_def split: prod.split option.split)

lemma Update_items:
  assumes "list_laws (tl_bubbles lib)"
  shows "panel_Items (tl_bubbles lib) (md_listPanel (fst (Update lib msg m))) =
    items_after msg (panel_Items (tl_bubbles lib) (md_listPanel m))"
proof (cases msg)
  case (notificationMsg n)
  then show ?thesis
    using Update_status_items[OF assms]
    by (simp add: Update_notification_def apply_notification_def split_beta split: sum.split)
qed (simp_all add: Update_status_items Update_key_items panel_laws updateLayout_def Let_def assms)

lemma set_status_names [simp]: "map it_Name (fst (set_status n st e items)) = map it_Name items"
  by (induction items) (auto simp: split_beta)

lemma set_status_found: "snd (set_status n st e items) \<longleftrightarrow> n \<in> it_Name ` set items"
  by (induction items) (auto simp: split_beta)

section \<open>One listener\<close>

fun is_notification :: "'k Msg \<Rightarrow> bool" where
  "is_notification (notificationMsg n) = True"
| "is_notification _ = False"

fun is_status_msg :: "'k Msg \<Rightarrow> bool" where
  "is_status_msg (tunnelStatusChangedMsg n st e) = True"
| "is_status_msg _ = False"

definition listeners :: "('l, 'c) Cmd multiset \<Rightarrow> nat" where
  "listeners cmds = count cmds listenForNotifications"

lemma listeners_simps [simp]:
  "listeners {#} = 0" "listeners (A + B) = listeners A + listeners B"
  "listeners (add_mset c A) = (if c = listenForNotifications then 1 else 0) + listeners A"
  by (simp_all add: listeners_def)

lemma Update_status_listeners: "listeners (mset (snd (Update_status bb n st e m))) = 0"
  by (simp add: Update_status_def Let_def split: prod.split)

lemma Update_key_listeners: "listeners (mset (snd (Update_key bb k m))) = 0"
  by (auto simp: Update_key_def cmd_of_def Let_def split: prod.split option.split)

lemma Update_listeners:
  "listeners (mset (snd (Update lib msg m))) = (if is_notification msg then 1 else 0)"
proof (cases msg)
  case (notificationMsg n)
  then show ?thesis
    using Update_status_listeners[of "tl_bubbles lib"]
    by (simp add: Update_notification_def split_beta split: sum.split)
qed (simp_all add: Update_status_listeners Update_key_listeners)

text \<open>
  The notification between the listener and \<^verbatim>\<open>Update\<close>, at most one; nothing is lost or reordered.
\<close>

definition listening :: "('l, 'k, 'c) tui_sys \<Rightarrow> Notification list \<Rightarrow> bool" where
  "listening s inflight \<longleftrightarrow>
     filter_mset is_notification (ts_msgs s) = mset (map notificationMsg inflight) \<and>
     ts_received s = ts_handled s @ inflight @ ts_queue s \<and>
     length (ts_queue s) \<le> notification_capacity \<and>
     listeners (ts_cmds s) + length inflight \<le> 1 \<and>
     (\<not> ts_closed s \<or> ts_queue s \<noteq> [] \<longrightarrow> listeners (ts_cmds s) + length inflight = 1)"

definition mirrors :: "('l, 'k, 'c) tui_lib \<Rightarrow> ('l, 'k, 'c) tui_sys \<Rightarrow> bool" where
  "mirrors lib s \<longleftrightarrow> panel_Items (tl_bubbles lib) (md_listPanel (ts_model s)) = fold apply_notification (ts_since s) (ts_loaded s)"

definition tui_inv :: "('l, 'k, 'c) tui_lib \<Rightarrow> ('l, 'k, 'c) tui_sys \<Rightarrow> bool" where
  "tui_inv lib s \<longleftrightarrow> (\<exists>inflight. listening s inflight) \<and>
     (\<forall>msg\<in>#ts_msgs s. \<not> is_status_msg msg) \<and>
     (list_laws (tl_bubbles lib) \<longrightarrow> mirrors lib s)"

lemma handle_fields:
  "ts_model (handle lib msg s) = fst (Update lib msg (ts_model s))"
  "ts_cmds (handle lib msg s) = ts_cmds s + mset (snd (Update lib msg (ts_model s)))"
  "ts_msgs (handle lib msg s) = ts_msgs s" "ts_queue (handle lib msg s) = ts_queue s"
  "ts_closed (handle lib msg s) = ts_closed s" "ts_quit (handle lib msg s) = ts_quit s"
  "ts_received (handle lib msg s) = ts_received s"
  by (cases msg; simp add: handle_def split: prod.split)+

lemma handle_history:
  "ts_handled (handle lib msg s) = ts_handled s @ (case msg of notificationMsg n \<Rightarrow> [n] | _ \<Rightarrow> [])"
  "ts_loaded (handle lib msg s) = (case msg of tunnelsLoadedMsg ts \<Rightarrow> ts | _ \<Rightarrow> ts_loaded s)"
  "ts_since (handle lib msg s) =
     (case msg of tunnelsLoadedMsg ts \<Rightarrow> [] | notificationMsg n \<Rightarrow> ts_since s @ [n] | _ \<Rightarrow> ts_since s)"
  by (cases msg; simp add: handle_def split: prod.split)+

lemma handle_mirrors:
  assumes "list_laws (tl_bubbles lib)" "mirrors lib s" "\<not> is_status_msg msg"
  shows "mirrors lib (handle lib msg s)"
  using assms
  by (cases msg) (simp_all add: mirrors_def handle_fields handle_history Update_items del: Update.simps)

lemma listening_other:
  assumes "listening s inflight" "\<not> is_notification msg"
  shows "listening (handle lib msg s) inflight"
  using assms by (cases msg) (simp_all add: listening_def handle_fields handle_history Update_listeners del: Update.simps)

lemma listening_notification:
  assumes "listening s inflight" "ts_msgs s = add_mset (notificationMsg n) msgs"
  shows "listening (handle lib (notificationMsg n) (s\<lparr>ts_msgs := msgs\<rparr>)) []"
proof -
  from assms have ms: "add_mset (notificationMsg n) (filter_mset is_notification msgs) = mset (map notificationMsg inflight)"
    and len: "listeners (ts_cmds s) + length inflight \<le> 1" by (auto simp: listening_def)
  have "inflight \<noteq> []" using ms by auto
  with len obtain n' where infl: "inflight = [n']" and l0: "listeners (ts_cmds s) = 0"
    by (cases inflight) auto
  with ms have "n' = n" "filter_mset is_notification msgs = {#}" by auto
  with assms(1) infl l0 show ?thesis
    by (simp add: listening_def handle_fields handle_history Update_listeners del: Update.simps)
qed

lemma add_mset_member: "M = add_mset x N \<Longrightarrow> x \<in># M" by simp

lemma handle_inv:
  assumes inv: "tui_inv lib s" and "\<not> is_notification msg" "\<not> is_status_msg msg"
  shows "tui_inv lib (handle lib msg s)"
  using assms listening_other[OF _ assms(2)] handle_mirrors[OF _ _ assms(3)]
  unfolding tui_inv_def by (metis handle_fields(3))

lemma tui_handle_inv:
  assumes inv: "tui_inv lib s" and msgs: "ts_msgs s = add_mset msg msgs"
  shows "tui_inv lib (handle lib msg (s\<lparr>ts_msgs := msgs\<rparr>))"
proof -
  have nst: "\<not> is_status_msg msg" "\<forall>x\<in>#msgs. \<not> is_status_msg x" using inv msgs by (auto simp: tui_inv_def)
  have mir: "list_laws (tl_bubbles lib) \<longrightarrow> mirrors lib (handle lib msg (s\<lparr>ts_msgs := msgs\<rparr>))"
    using inv handle_mirrors[OF _ _ nst(1), of lib "s\<lparr>ts_msgs := msgs\<rparr>"] by (auto simp: tui_inv_def mirrors_def)
  from inv obtain inflight where l: "listening s inflight" by (auto simp: tui_inv_def)
  have "\<exists>inflight. listening (handle lib msg (s\<lparr>ts_msgs := msgs\<rparr>)) inflight"
  proof (cases "is_notification msg")
    case True
    then obtain n where "msg = notificationMsg n" by (cases msg) auto
    with listening_notification[OF l] msgs show ?thesis by blast
  next
    case False
    with l msgs have "listening (s\<lparr>ts_msgs := msgs\<rparr>) inflight" by (simp add: listening_def)
    from listening_other[OF this False] show ?thesis by blast
  qed
  with mir nst show ?thesis by (simp add: tui_inv_def handle_fields)
qed

text \<open>A command that is no listener leaves a message that is no notification.\<close>

lemma command_inv:
  assumes inv: "tui_inv lib s" and cmds: "ts_cmds s = add_mset c cmds"
    and "c \<noteq> listenForNotifications" "\<not> is_notification msg" "\<not> is_status_msg msg"
  shows "tui_inv lib (s\<lparr>ts_cmds := cmds, ts_msgs := add_mset msg (ts_msgs s)\<rparr>)"
  using assms by (auto simp: tui_inv_def listening_def mirrors_def)

lemma run_msgs [simp]:
  "\<not> is_notification (run_loadTunnels call)" "\<not> is_status_msg (run_loadTunnels call)"
  "\<not> is_notification (run_toggle bb p name call)" "\<not> is_status_msg (run_toggle bb p name call)"
  by (auto simp: run_loadTunnels_def run_toggle_def split: sum.split)

lemma tui_step_inv: "tui_step lib s t \<Longrightarrow> tui_inv lib s \<Longrightarrow> tui_inv lib t"
proof (induction rule: tui_step.induct)
  case (tui_receive s n)
  then show ?case by (auto simp: tui_inv_def listening_def mirrors_def)
next
  case (tui_drop s n)
  then show ?case by (auto simp: tui_inv_def listening_def mirrors_def)
next
  case (tui_disconnect s)
  then show ?case by (auto simp: tui_inv_def listening_def mirrors_def)
next
  case (tui_listen s cmds n ns)
  then obtain inflight where l: "listening s inflight" by (auto simp: tui_inv_def)
  with tui_listen.hyps have "inflight = []" "listeners cmds = 0" by (auto simp: listening_def)
  with l tui_listen.hyps have "listening (s\<lparr>ts_cmds := cmds, ts_queue := ns,
      ts_msgs := add_mset (run_listen (Some n)) (ts_msgs s)\<rparr>) [n]"
    by (simp add: listening_def run_listen_def)
  with tui_listen show ?case by (auto simp: tui_inv_def mirrors_def run_listen_def)
next
  case (tui_listen_closed s cmds)
  then show ?case by (auto simp: tui_inv_def listening_def mirrors_def run_listen_def)
next
  case (tui_quit s cmds)
  then show ?case by (auto simp: tui_inv_def listening_def mirrors_def)
qed (auto intro: handle_inv tui_handle_inv command_inv)

lemma tui_inv_initial: "tui_inv lib (tui_initial lib)"
  by (auto simp: tui_inv_def listening_def mirrors_def tui_initial_def Init_def New_Model_def panel_laws)

interpretation tui: invariant_system "\<lambda>s. s = tui_initial lib" "tui_step lib" "tui_inv lib"
  by unfold_locales (auto intro: tui_inv_initial tui_step_inv)

section \<open>Layout\<close>

definition layout_ok :: "'l Model \<Rightarrow> bool" where
  "layout_ok m \<longleftrightarrow>
     sb_width (md_statusBar m) = md_width m \<and>
     lp_width (md_listPanel m) + dp_width (md_detailsPanel m) = md_width m \<and>
     0 \<le> lp_width (md_listPanel m) \<and> lp_width (md_listPanel m) \<le> 50 \<and> 0 \<le> dp_width (md_detailsPanel m) \<and>
     (25 \<le> md_width m \<longrightarrow> 25 \<le> lp_width (md_listPanel m)) \<and>
     lp_height (md_listPanel m) = dp_height (md_detailsPanel m) \<and>
     lp_height (md_listPanel m) \<le> md_height m"

lemma updateLayout_ok: "0 \<le> md_width m \<Longrightarrow> layout_ok (updateLayout bb m)"
  by (auto simp: layout_ok_def updateLayout_def panel_SetSize_def details_SetSize_def SetWidth_def Let_def)

text \<open>Other messages change no size.\<close>

definition sizes :: "'l Model \<Rightarrow> int list" where
  "sizes m = [md_width m, md_height m, lp_width (md_listPanel m), lp_height (md_listPanel m),
     dp_width (md_detailsPanel m), dp_height (md_detailsPanel m), sb_width (md_statusBar m)]"

lemma layout_ok_sizes: "sizes m = sizes m' \<Longrightarrow> layout_ok m \<longleftrightarrow> layout_ok m'"
  by (auto simp: sizes_def layout_ok_def)

lemma Update_status_sizes: "sizes (fst (Update_status bb n st e m)) = sizes m"
  by (simp add: Update_status_def sizes_def panel_SetItems_def SetToast_def Let_def split: prod.split)

lemma Update_key_sizes: "sizes (fst (Update_key bb k m)) = sizes m"
  by (simp add: Update_key_def sizes_def panel_Update_def Let_def split: prod.split option.split)

lemma Update_sizes: "\<nexists>w h. msg = WindowSizeMsg w h \<Longrightarrow> sizes (fst (Update lib msg m)) = sizes m"
proof (cases msg)
  case (notificationMsg n)
  then show ?thesis
    using Update_status_sizes[of "tl_bubbles lib"]
    by (simp add: Update_notification_def split_beta split: sum.split)
qed (simp_all add: Update_status_sizes Update_key_sizes,
  simp_all add: sizes_def panel_SetItems_def SetToast_def ClearToast_def)

lemma Update_layout:
  assumes "layout_ok m" "\<And>w h. msg = WindowSizeMsg w h \<Longrightarrow> 0 \<le> w"
  shows "layout_ok (fst (Update lib msg m))"
proof (cases "\<exists>w h. msg = WindowSizeMsg w h")
  case True
  then obtain w h where "msg = WindowSizeMsg w h" by blast
  with assms(2) show ?thesis by (simp add: updateLayout_ok)
next
  case False
  with Update_sizes assms(1) layout_ok_sizes show ?thesis by blast
qed

text \<open>No command sends a window size: those come from the terminal.\<close>

fun is_resize :: "'k Msg \<Rightarrow> bool" where
  "is_resize (WindowSizeMsg w h) = True"
| "is_resize _ = False"

definition layout_inv :: "('l, 'k, 'c) tui_sys \<Rightarrow> bool" where
  "layout_inv s \<longleftrightarrow> layout_ok (ts_model s) \<and> (\<forall>msg\<in>#ts_msgs s. \<not> is_resize msg)"

lemma run_msgs_resize [simp]:
  "\<not> is_resize (run_loadTunnels call)" "\<not> is_resize (run_toggle bb p name call)" "\<not> is_resize (run_listen r)"
  by (auto simp: run_loadTunnels_def run_toggle_def run_listen_def split: sum.split option.split)

lemma handle_layout:
  "layout_inv s \<Longrightarrow> (\<And>w h. msg = WindowSizeMsg w h \<Longrightarrow> 0 \<le> w) \<Longrightarrow> layout_inv (handle lib msg s)"
  using Update_layout[of "ts_model s" msg lib] by (auto simp: layout_inv_def handle_fields)

lemma layout_step: "tui_step lib s t \<Longrightarrow> layout_inv s \<Longrightarrow> layout_inv t"
proof (induction rule: tui_step.induct)
  case (tui_handle s msg msgs)
  then have "layout_inv (s\<lparr>ts_msgs := msgs\<rparr>)" "\<not> is_resize msg" by (auto simp: layout_inv_def)
  then show ?case by (auto intro: handle_layout)
next
  case (tui_key s k)
  then show ?case by (blast intro: handle_layout)
next
  case (tui_resize s w h)
  then show ?case by (auto intro: handle_layout)
next
  case (tui_other s)
  then show ?case by (blast intro: handle_layout)
qed (auto simp: layout_inv_def)

lemma layout_initial: "layout_inv (tui_initial lib)"
  by (simp add: layout_inv_def layout_ok_def tui_initial_def New_Model_def NewTunnelListPanel_def
      NewDetailsPanel_def NewStatusBar_def)

interpretation tui_layout: invariant_system "\<lambda>s. s = tui_initial lib" "tui_step lib" layout_inv
  by unfold_locales (auto intro: layout_initial layout_step)

section \<open>The latest notification wins\<close>

text \<open>What a notification says of a tunnel, and what a sequence of them says last.\<close>

definition news :: "string \<Rightarrow> Notification \<Rightarrow> (State \<times> string) option" where
  "news name n =
     (if not_Method n = MethodStatusChanged then
        (case json_Unmarshal unmarshal_StatusResult zero_StatusResult (not_Params n) of
           Inr p \<Rightarrow> if sr_Name p = name then Some (sr_Status p, sr_Error p) else None
         | Inl e \<Rightarrow> None)
      else None)"

definition latest :: "Notification list \<Rightarrow> TunnelItem \<Rightarrow> TunnelItem" where
  "latest ns t =
     (case filter (\<lambda>x. x \<noteq> None) (map (news (it_Name t)) ns) of
        [] \<Rightarrow> t
      | xs \<Rightarrow> (case the (last xs) of (st, e) \<Rightarrow> t\<lparr>it_Status := st, it_Error := e\<rparr>))"

lemma set_status_distinct:
  assumes "distinct (map it_Name items)"
  shows "fst (set_status n st e items) =
    map (\<lambda>t. if it_Name t = n then t\<lparr>it_Status := st, it_Error := e\<rparr> else t) items"
  using assms by (induction items) (auto simp: split_beta image_iff intro!: map_idI[symmetric])

lemma apply_notification_news:
  assumes "distinct (map it_Name items)"
  shows "apply_notification n items =
    map (\<lambda>t. case news (it_Name t) n of None \<Rightarrow> t | Some (st, e) \<Rightarrow> t\<lparr>it_Status := st, it_Error := e\<rparr>) items"
  using assms
  by (auto simp: apply_notification_def news_def set_status_distinct split: sum.split intro!: map_idI[symmetric])

lemma latest_Name [simp]: "it_Name (latest ns t) = it_Name t"
  by (simp add: latest_def split: list.split prod.split)

lemma latest_snoc:
  "latest (ns @ [n]) t =
     (case news (it_Name t) n of None \<Rightarrow> latest ns t | Some (st, e) \<Rightarrow> (latest ns t)\<lparr>it_Status := st, it_Error := e\<rparr>)"
  by (auto simp: latest_def split: list.split prod.split option.split)

lemma fold_apply_latest:
  assumes "distinct (map it_Name items)"
  shows "fold apply_notification ns items = map (latest ns) items"
proof (induction ns rule: rev_induct)
  case Nil
  then show ?case by (simp add: latest_def)
next
  case (snoc n ns)
  from assms have "distinct (map it_Name (map (latest ns) items))" by (simp add: comp_def)
  from apply_notification_news[OF this] snoc show ?case by (simp add: latest_snoc)
qed

end
