(* ===== verification/TUI_Props.thy ===== *)
theory TUI_Props
  imports TUI_Inv
begin

text \<open>
  The guarantees of the terminal interface: notifications are handled in order and none is lost, the
  list shows the loaded tunnels with the latest notification of each, a key toggles the selected tunnel,
  panels stay within the terminal, the view is never without a result; and where it falls short.
\<close>

section \<open>Examples\<close>

definition sample_item :: "State \<Rightarrow> TunnelItem" where
  "sample_item st = \<lparr>it_Name = ''db'', it_Host = ''me@bastion'', it_Status = st, it_Error = [],
     it_Ephemeral = False, it_Local = '':15432'', it_Remote = ''db:5432''\<rparr>"

definition sample_news :: Notification where
  "sample_news = NewNotification MethodStatusChanged
     (marshal_StatusResult \<lparr>sr_Name = ''db'', sr_Status = StateConnected, sr_Error = []\<rparr>)"

lemma news_sample_item:
  "apply_notification sample_news [sample_item StateDisconnected] = [sample_item StateConnected]"
proof -
  let ?r = "\<lparr>sr_Name = ''db'', sr_Status = StateConnected, sr_Error = []\<rparr>"
  have "status_ok ?r" by (simp add: State_defs valid_utf8_ascii ascii_def)
  then have "unmarshal_StatusResult zero_StatusResult (marshal_StatusResult ?r) = Inr ?r"
    by (rule status_codec.decode_enc)
  then show ?thesis
    by (simp add: apply_notification_def sample_news_def NewNotification_def json_Unmarshal_def sample_item_def)
qed

text \<open>Steps of a run, one after the other.\<close>

lemma tui_reach_handle:
  "tui_reach lib s \<Longrightarrow> \<not> ts_quit s \<Longrightarrow> ts_msgs s = add_mset msg msgs \<Longrightarrow>
   tui_reach lib (handle lib msg (s\<lparr>ts_msgs := msgs\<rparr>))"
  by (blast intro: reach_step tui_handle)

lemma two_steps: "r x y \<Longrightarrow> r y z \<Longrightarrow> r\<^sup>*\<^sup>* x z"
  by (rule rtranclp.rtrancl_into_rtrancl) (rule r_into_rtranclp)

section \<open>Notifications\<close>

text \<open>
  C12.  The interface loses no notification and keeps their order: what the channel of the client took is what
  the interface has handled, then at most one notification on its way to \<^verbatim>\<open>Update\<close>, then what waits in the
  channel, never more than its 100 places (the client drops a notification that finds them all taken).  As long as the
  connection is open or something waits, exactly one listener is running or that one notification is on
  its way: listening never stops and is never doubled.
\<close>

theorem notifications_in_order:
  assumes "tui_reach lib s"
  shows "\<exists>inflight. ts_received s = ts_handled s @ inflight @ ts_queue s \<and>
    length (ts_queue s) \<le> notification_capacity \<and>
    filter_mset is_notification (ts_msgs s) = mset (map notificationMsg inflight) \<and>
    count (ts_cmds s) listenForNotifications + length inflight \<le> 1 \<and>
    (\<not> ts_closed s \<or> ts_queue s \<noteq> [] \<longrightarrow> count (ts_cmds s) listenForNotifications + length inflight = 1)"
proof -
  from assms have "tui_inv lib s" by (rule tui.reach_inv)
  then show ?thesis unfolding tui_inv_def listening_def listeners_def by blast
qed

theorem notifications_in_order_witness:
  "\<exists>inflight. length inflight \<le> 1 \<and> count (ts_cmds (tui_initial sample_tui)) listenForNotifications + length inflight = 1"
proof -
  have "tui_reach sample_tui (tui_initial sample_tui)" by (simp add: reach_init)
  from notifications_in_order[OF this] show ?thesis by (force simp: tui_initial_def)
qed

text \<open>
  C11.  What the list shows: the tunnels that were loaded, in the loaded order, each with the state and
  the error of the latest notification about it that was handled since, and as it was loaded when there is
  none.  Keys, resizing, toasts, and messages of other tunnels change nothing of it.
\<close>

theorem list_shows_latest:
  assumes "tui_reach lib s" "list_laws (tl_bubbles lib)" "distinct (map it_Name (ts_loaded s))"
  shows "panel_Items (tl_bubbles lib) (md_listPanel (ts_model s)) = map (latest (ts_since s)) (ts_loaded s)"
proof -
  from assms(1) have "tui_inv lib s" by (rule tui.reach_inv)
  with assms(2) have "mirrors lib s" by (simp add: tui_inv_def)
  with fold_apply_latest[OF assms(3)] show ?thesis by (simp add: mirrors_def)
qed

text \<open>
  A run in which the list is loaded before a notification: \<open>call\<close> answers the request for the list.
\<close>

definition sample_call :: caller where
  "sample_call method params = Inr (NewResult ''1'' (marshal_ListResult
     \<lparr>lr_Tunnels = [\<lparr>ti_Name = ''db'', ti_Status = StateDisconnected, ti_Error = [], ti_Ephemeral = False,
        ti_Config = \<lparr>tc_Name = ''db'', tc_Host = ''me@bastion'', tc_Remote = ''db:5432'', tc_Local = '':15432''\<rparr>\<rparr>]\<rparr>))"

lemma load_sample: "run_loadTunnels sample_call = tunnelsLoadedMsg [sample_item StateDisconnected]"
proof -
  let ?l = "\<lparr>lr_Tunnels = [\<lparr>ti_Name = ''db'', ti_Status = StateDisconnected, ti_Error = [], ti_Ephemeral = False,
        ti_Config = \<lparr>tc_Name = ''db'', tc_Host = ''me@bastion'', tc_Remote = ''db:5432'', tc_Local = '':15432''\<rparr>\<rparr>]\<rparr>"
  have "list_ok ?l" by (simp add: State_defs valid_utf8_ascii ascii_def)
  then have "unmarshal_ListResult zero_ListResult (marshal_ListResult ?l) = Inr ?l"
    by (rule list_codec.decode_enc)
  then show ?thesis
    by (simp add: run_loadTunnels_def sample_call_def Client_TunnelList_def checked_def parsed_def NewResult_def
        json_Unmarshal_def item_of_def sample_item_def)
qed

text \<open>The state after loading, while the notification of \<open>sample_news\<close> is on its way as well.\<close>

definition racing :: "('l, 'k, 'c) tui_lib \<Rightarrow> ('l, 'k, 'c) tui_sys" where
  "racing lib = (tui_initial lib)\<lparr>ts_cmds := {#}, ts_received := [sample_news],
     ts_msgs := {#tunnelsLoadedMsg [sample_item StateDisconnected], notificationMsg sample_news#}\<rparr>"

lemma racing_reach: "tui_reach lib (racing lib)"
proof -
  let ?s0 = "tui_initial lib"
  let ?s1 = "?s0\<lparr>ts_cmds := {#listenForNotifications#}, ts_msgs := {#run_loadTunnels sample_call#}\<rparr>"
  let ?s2 = "?s1\<lparr>ts_queue := [sample_news], ts_received := [sample_news]\<rparr>"
  have "tui_reach lib ?s0" by (simp add: reach_init)
  moreover have "tui_step lib ?s0 ?s1"
    using tui_load[of ?s0 "{#listenForNotifications#}" lib sample_call] by (simp add: tui_initial_def Init_def)
  ultimately have "tui_reach lib ?s1" by (rule reach_step)
  moreover have "tui_step lib ?s1 ?s2"
    using tui_receive[of ?s1 lib sample_news] by (simp add: tui_initial_def notification_capacity_def)
  ultimately have "tui_reach lib ?s2" by (rule reach_step)
  moreover have "tui_step lib ?s2 (racing lib)"
    using tui_listen[of ?s2 "{#}" sample_news "[]" lib]
    by (simp add: tui_initial_def racing_def load_sample run_listen_def add_mset_commute)
  ultimately show ?thesis by (rule reach_step)
qed

definition news_last :: "('l, 'k, 'c) tui_lib \<Rightarrow> ('l, 'k, 'c) tui_sys" where
  "news_last lib =
     (let s1 = handle lib (tunnelsLoadedMsg [sample_item StateDisconnected])
                 ((racing lib)\<lparr>ts_msgs := {#notificationMsg sample_news#}\<rparr>)
      in handle lib (notificationMsg sample_news) (s1\<lparr>ts_msgs := {#}\<rparr>))"

definition list_last :: "('l, 'k, 'c) tui_lib \<Rightarrow> ('l, 'k, 'c) tui_sys" where
  "list_last lib =
     (let s1 = handle lib (notificationMsg sample_news)
                 ((racing lib)\<lparr>ts_msgs := {#tunnelsLoadedMsg [sample_item StateDisconnected]#}\<rparr>)
      in handle lib (tunnelsLoadedMsg [sample_item StateDisconnected]) (s1\<lparr>ts_msgs := {#}\<rparr>))"

lemma racing_fields: "\<not> ts_quit (racing lib)"
  "ts_msgs (racing lib) = {#tunnelsLoadedMsg [sample_item StateDisconnected], notificationMsg sample_news#}"
  by (simp_all add: racing_def tui_initial_def)

lemma news_last_reach: "tui_reach lib (news_last lib)"
proof -
  have "tui_reach lib (handle lib (tunnelsLoadedMsg [sample_item StateDisconnected])
      ((racing lib)\<lparr>ts_msgs := {#notificationMsg sample_news#}\<rparr>))"
    by (rule tui_reach_handle[OF racing_reach]) (simp_all add: racing_fields)
  then show ?thesis
    unfolding news_last_def Let_def by (rule tui_reach_handle) (simp_all add: handle_fields racing_fields)
qed

lemma list_last_reach: "tui_reach lib (list_last lib)"
proof -
  have "tui_reach lib (handle lib (notificationMsg sample_news)
      ((racing lib)\<lparr>ts_msgs := {#tunnelsLoadedMsg [sample_item StateDisconnected]#}\<rparr>))"
    by (rule tui_reach_handle[OF racing_reach]) (simp_all add: racing_fields add_mset_commute)
  then show ?thesis
    unfolding list_last_def Let_def by (rule tui_reach_handle) (simp_all add: handle_fields racing_fields)
qed

lemma last_history:
  "ts_loaded (news_last lib) = [sample_item StateDisconnected]" "ts_since (news_last lib) = [sample_news]"
  "ts_loaded (list_last lib) = [sample_item StateDisconnected]" "ts_since (list_last lib) = []"
  "ts_received (list_last lib) = [sample_news]" "ts_handled (list_last lib) = [sample_news]"
  "ts_msgs (list_last lib) = {#}" "ts_queue (list_last lib) = []"
  by (simp_all add: news_last_def list_last_def handle_fields handle_history racing_def tui_initial_def Let_def
      del: Update.simps)

lemma latest_sample: "latest [sample_news] (sample_item StateDisconnected) = sample_item StateConnected"
  using news_sample_item fold_apply_latest[of "[sample_item StateDisconnected]" "[sample_news]"] by simp

theorem list_shows_latest_witness:
  "panel_Items sample_bubbles (md_listPanel (ts_model (news_last sample_tui))) = [sample_item StateConnected]"
  using list_shows_latest[OF news_last_reach, of sample_tui] sample_laws by (simp add: last_history latest_sample)

text \<open>
  C39.  The list that was loaded can overwrite newer news: the request for the list and the listener run
  concurrently, so a notification that the daemon sent after it had answered the request can be handled
  first, and is lost.  There is a run after which every notification is handled, nothing is on its way, the
  last thing the daemon said about the tunnel is that it is connected, and the list shows it disconnected.
\<close>

theorem late_list_hides_change:
  assumes "list_laws (tl_bubbles lib)"
  shows "\<exists>s. tui_reach lib s \<and> ts_received s = [sample_news] \<and> ts_handled s = ts_received s \<and>
    ts_msgs s = {#} \<and> ts_queue s = [] \<and> latest (ts_received s) (sample_item StateDisconnected) = sample_item StateConnected \<and>
    panel_Items (tl_bubbles lib) (md_listPanel (ts_model s)) = [sample_item StateDisconnected]"
proof -
  from list_last_reach have "tui_inv lib (list_last lib)" by (rule tui.reach_inv)
  with assms have "mirrors lib (list_last lib)" by (simp add: tui_inv_def)
  then have "panel_Items (tl_bubbles lib) (md_listPanel (ts_model (list_last lib))) = [sample_item StateDisconnected]"
    by (simp add: mirrors_def last_history)
  with list_last_reach[of lib] latest_sample show ?thesis
    by (intro exI[of _ "list_last lib"]) (simp add: last_history)
qed

theorem late_list_hides_change_witness:
  "\<exists>s. tui_reach sample_tui s \<and> ts_msgs s = {#} \<and>
     panel_Items sample_bubbles (md_listPanel (ts_model s)) = [sample_item StateDisconnected]"
  using late_list_hides_change[of sample_tui] sample_laws by auto

section \<open>Interface and daemon together\<close>

text \<open>
  C15.  Loading shows the tunnels of the manager: against a daemon in any reachable state, the request for
  the list, its answer across the wire and \<^verbatim>\<open>Update\<close> leave a list with exactly the manager's tunnels, each
  once, with the manager's state, error and addresses.
\<close>

theorem load_shows_manager:
  assumes "daemon_reach d" "wire_ok (d_manager d)" "valid_utf8 i" "map_order (he_iter env)"
    and "list_laws (tl_bubbles lib)"
  shows "\<exists>items. panel_Items (tl_bubbles lib) (md_listPanel (fst (Update lib
      (run_loadTunnels (daemon_call env sub d i)) m))) = items \<and> distinct (map it_Name items) \<and>
    set items = {let mt = m_heap (d_manager d) p; c = mt_Config mt
      in \<lparr>it_Name = n, it_Host = tc_Host c, it_Status = mt_Status mt, it_Error = mt_Error mt,
          it_Ephemeral = mt_Ephemeral mt, it_Local = tc_Local c, it_Remote = tc_Remote c\<rparr>
      | n p. lookup (d_manager d) n = Some p}"
proof -
  from TunnelList_against_daemon[OF assms(1-4)] obtain ts
    where call: "Client_TunnelList (daemon_call env sub d i) = Inr \<lparr>lr_Tunnels = ts\<rparr>"
      and dist: "distinct (map ti_Name ts)"
      and ts: "set ts = {\<lparr>ti_Name = n, ti_Status = status_of (d_manager d) p, ti_Error = mt_Error (m_heap (d_manager d) p),
               ti_Ephemeral = mt_Ephemeral (m_heap (d_manager d) p), ti_Config = mt_Config (m_heap (d_manager d) p)\<rparr>
             | n p. lookup (d_manager d) n = Some p}" by blast
  have "Update lib (run_loadTunnels (daemon_call env sub d i)) m = Update lib (tunnelsLoadedMsg (map item_of ts)) m"
    using call by (simp add: run_loadTunnels_def)
  then have "panel_Items (tl_bubbles lib) (md_listPanel (fst (Update lib
      (run_loadTunnels (daemon_call env sub d i)) m))) = map item_of ts"
    using Update_items[OF assms(5)] by (simp del: Update.simps)
  moreover have "map it_Name (map item_of ts) = map ti_Name ts" by (simp add: item_of_def)
  moreover have "set (map item_of ts) = {item_of \<lparr>ti_Name = n, ti_Status = status_of (d_manager d) p,
        ti_Error = mt_Error (m_heap (d_manager d) p), ti_Ephemeral = mt_Ephemeral (m_heap (d_manager d) p),
        ti_Config = mt_Config (m_heap (d_manager d) p)\<rparr> | n p. lookup (d_manager d) n = Some p}"
    unfolding set_map ts by blast
  ultimately show ?thesis using dist by (simp add: item_of_def Let_def comp_def)
qed

theorem load_shows_manager_witness:
  "\<exists>items. panel_Items sample_bubbles (md_listPanel (fst (Update sample_tui
     (run_loadTunnels (daemon_call sample_henv 1 sample_daemon ''1'')) (New_Model sample_tui)))) = items \<and>
     distinct (map it_Name items)"
proof -
  have "map_order (he_iter sample_henv)" "valid_utf8 ''1''" "list_laws (tl_bubbles sample_tui)"
    by (simp_all add: sample_henv_def valid_utf8_ascii ascii_def sample_laws)
  from load_shows_manager[OF sample_daemon_simps(5) sample_wire_ok this(2,1,3)] show ?thesis by auto
qed

section \<open>Keys\<close>

lemma current_status_distinct:
  "distinct (map it_Name ts) \<Longrightarrow> t \<in> set ts \<Longrightarrow> current_status (it_Name t) ts = it_Status t"
  by (induction ts) (auto simp: image_iff)

text \<open>
  C22.  The key of the binding Toggle, outside of filtering and when it is no key of another binding,
  issues one command for the selected tunnel, and the model stays as it is.  Whenever that command
  runs, it asks the daemon to stop the tunnel if the item that was shown selected was active, and to start
  it otherwise, and reports only a failure; with nothing selected there is no command.
\<close>

theorem enter_toggles_selected:
  assumes "list_laws (tl_bubbles lib)" "distinct (map it_Name (panel_Items (tl_bubbles lib) (md_listPanel m)))"
    and "\<not> panel_Filtering (tl_bubbles lib) (md_listPanel m)"
    and "key_Matches (tl_bubbles lib) k (km_Toggle (md_keys m))"
    and "\<forall>b\<in>{km_Quit (md_keys m), km_Up (md_keys m), km_Down (md_keys m), km_Filter (md_keys m)}. \<not> key_Matches (tl_bubbles lib) k b"
  shows "case panel_SelectedItem (tl_bubbles lib) (md_listPanel m) of
      None \<Rightarrow> Update lib (KeyMsg k) m = (m, [])
    | Some t \<Rightarrow> \<exists>p. Update lib (KeyMsg k) m = (m, [toggleTunnel p (it_Name t)]) \<and>
        (\<forall>call. (run_toggle (tl_bubbles lib) p (it_Name t) call :: 'k Msg) =
          (let failed = (if IsActive (it_Status t) then map_sum id (\<lambda>_. ()) (Client_TunnelStop call (it_Name t))
                         else map_sum id (\<lambda>_. ()) (Client_TunnelStart call (it_Name t)))
           in case failed of Inl e \<Rightarrow> errorMsg e | Inr _ \<Rightarrow> NilMsg))"
proof (cases "panel_SelectedItem (tl_bubbles lib) (md_listPanel m)")
  case None
  with assms(3-5) show ?thesis by (simp add: Update_key_def)
next
  case (Some t)
  from selected_in_items[OF assms(1) Some] have "t \<in> set (panel_Items (tl_bubbles lib) (md_listPanel m))" .
  from current_status_distinct[OF assms(2) this] Some assms(3-5) show ?thesis
    by (auto simp: Update_key_def run_toggle_def Let_def split: sum.split)
qed

definition loaded_model :: "State \<Rightarrow> sample_list Model" where
  "loaded_model st = fst (Update sample_tui (tunnelsLoadedMsg [sample_item st]) (New_Model sample_tui))"

lemma loaded_model_fields:
  "lp_list (md_listPanel (loaded_model st)) = ([ItemTunnel (sample_item st)], 0, Unfiltered)"
  "md_keys (loaded_model st) = DefaultKeyMap"
  by (simp_all add: loaded_model_def New_Model_def NewTunnelListPanel_def panel_SetItems_def panel_settings_def
      sample_bubbles_def)

theorem enter_toggles_selected_witness:
  "\<exists>p. Update sample_tui (KeyMsg ''enter'') (loaded_model StateConnected) =
     (loaded_model StateConnected, [toggleTunnel p ''db''])"
proof -
  have "panel_SelectedItem sample_bubbles (md_listPanel (loaded_model StateConnected)) = Some (sample_item StateConnected)"
    by (simp add: panel_SelectedItem_def loaded_model_fields) (simp add: sample_bubbles_def)
  then show ?thesis
    using enter_toggles_selected[of sample_tui "loaded_model StateConnected" "''enter''"]
    by (simp add: sample_laws panel_Items_def panel_Filtering_def loaded_model_fields DefaultKeyMap_def
        sample_item_def[of StateConnected] del: Update.simps) (auto simp: sample_bubbles_def simp del: Update.simps)
qed

section \<open>Layout and view\<close>

text \<open>
  C23.  In every reachable state the two panels share the terminal's width exactly, neither is negative,
  the list has at most 50 columns and at least 25 in a terminal that has them, the status bar has the full
  width, and both panels have the same height, which leaves room for the status bar.
\<close>

theorem layout_bounds:
  assumes "tui_reach lib s"
  shows "let m = ts_model s; lw = lp_width (md_listPanel m); dw = dp_width (md_detailsPanel m)
    in lw + dw = md_width m \<and> 0 \<le> lw \<and> lw \<le> 50 \<and> 0 \<le> dw \<and> (25 \<le> md_width m \<longrightarrow> 25 \<le> lw) \<and>
       sb_width (md_statusBar m) = md_width m \<and> lp_height (md_listPanel m) = dp_height (md_detailsPanel m) \<and>
       lp_height (md_listPanel m) \<le> md_height m"
proof -
  from assms have "layout_inv s" by (rule tui_layout.reach_inv)
  then show ?thesis by (simp add: layout_inv_def layout_ok_def Let_def)
qed

theorem layout_bounds_witness:
  "let s = handle sample_tui (WindowSizeMsg 100 30) (tui_initial sample_tui); m = ts_model s
   in lp_width (md_listPanel m) + dp_width (md_detailsPanel m) = 100"
proof -
  have "tui_reach sample_tui (handle sample_tui (WindowSizeMsg 100 30) (tui_initial sample_tui))"
    by (rule reach_step[OF reach_init]) (auto intro: tui_resize simp: tui_initial_def)
  from layout_bounds[OF this] show ?thesis
    by (simp add: handle_fields Let_def updateLayout_def)
qed

text \<open>
  C36.  The view always has a result: whatever the size of the terminal, the selection, the toast and the
  library's measurements, no slice is out of range and no repetition is negative.
\<close>

theorem View_never_panics:
  "\<exists>v. View lib m = Some v"
proof -
  obtain b where b: "bar_View (tl_lipgloss lib) (tl_bubbles lib) (md_statusBar m) = Some b"
    using bar_View_total by blast
  obtain v where v: "details_View (tl_lipgloss lib) (md_detailsPanel m)
      (panel_SelectedItem (tl_bubbles lib) (md_listPanel m)) = Some v" using details_View_total by blast
  show ?thesis by (simp add: View_def renderEmptyState_def b v Let_def)
qed

section \<open>Toasts\<close>

text \<open>
  A truncated toast is wider than the terminal: with a library that measures runes, an error message
  of printable ASCII that is too long for a bar of more than three columns is cut to the width less three,
  and then gets three dots and, before it, the icon and a blank: two columns too many.
\<close>

lemma truncated_toast_too_wide:
  assumes "3 < sb_width s" "sb_toastTy s = ToastError" "ascii (sb_toast s)"
    and "sb_width s \<le> int (length (sb_toast s))"
  shows "\<exists>v. bar_View plain_lipgloss bb s = Some v \<and> text_width plain_lipgloss v = sb_width s + 2"
proof -
  have icon: "RuneCount (IconError @ u) = Suc (RuneCount u)" for u
    by (simp add: IconError_def decode3_def in_range_def tail_bits_def RuneError_def Let_def)
  have asc: "ascii (take n (sb_toast s) @ ''...'')" for n
    using assms(3) by (auto simp: ascii_def list_all_iff dest: in_set_takeD)
  have blank: "RuneCount (CHR '' '' # u) = Suc (RuneCount u)" for u by simp
  have w: "text_width plain_lipgloss (render_toast plain_lipgloss ToastError u) = int (RuneCount u) + 2" for u
    by (simp add: plain_lipgloss_def render_toast_def icon blank del: RuneCount.simps)
  have tw: "text_width plain_lipgloss (render_toast plain_lipgloss ToastError (sb_toast s)) = int (length (sb_toast s)) + 2"
    using assms(3) by (simp add: w RuneCount_ascii)
  have "0 \<le> text_width plain_lipgloss (help_text plain_lipgloss bb s)" by (simp add: plain_lipgloss_def)
  moreover have "sb_toast s \<noteq> []" using assms(1,4) by auto
  ultimately have "bar_View plain_lipgloss bb s =
      Some (render_toast plain_lipgloss ToastError (take (nat (sb_width s - 3)) (sb_toast s) @ ''...''))"
    using assms tw by (simp add: bar_View_def slice_to_def Let_def)
  moreover have "RuneCount (take (nat (sb_width s - 3)) (sb_toast s) @ ''...'') = nat (sb_width s)"
    using assms(1,4) RuneCount_ascii[OF asc] by simp
  ultimately show ?thesis using assms(1) by (simp add: w)
qed

lemma truncated_toast_too_wide_example:
  "\<exists>v. bar_View plain_lipgloss sample_bubbles
      ((NewStatusBar DefaultKeyMap)\<lparr>sb_width := 10, sb_toast := ''connection closed''\<rparr>) = Some v \<and>
     text_width plain_lipgloss v = 12"
  using truncated_toast_too_wide[of "(NewStatusBar DefaultKeyMap)\<lparr>sb_width := 10, sb_toast := ''connection closed''\<rparr>" sample_bubbles]
  by (simp add: NewStatusBar_def ascii_def)

text \<open>
  The timer of an earlier toast removes a later one: when an error is handled while a timer is
  running, a run can continue so that the message of that error is gone again although as many timers are
  still running as before it was shown.
\<close>

lemma toast_cleared_early:
  assumes "tui_reach lib s" "\<not> ts_quit s" "ts_msgs s = add_mset (errorMsg e) msgs" "HideToastCmd \<in># ts_cmds s"
  shows "\<exists>t u. (tui_step lib)\<^sup>*\<^sup>* s t \<and> sb_toast (md_statusBar (ts_model t)) = client_error_text (tl_jsonErr lib) e \<and>
    (tui_step lib)\<^sup>*\<^sup>* t u \<and> sb_toast (md_statusBar (ts_model u)) = [] \<and>
    count (ts_cmds u) HideToastCmd = count (ts_cmds s) HideToastCmd"
proof -
  let ?s1 = "handle lib (errorMsg e) (s\<lparr>ts_msgs := msgs\<rparr>)"
  let ?s2 = "?s1\<lparr>ts_cmds := ts_cmds s, ts_msgs := add_mset hideToastMsg msgs\<rparr>"
  let ?s3 = "handle lib hideToastMsg (?s2\<lparr>ts_msgs := msgs\<rparr>)"
  have s1: "tui_step lib s ?s1" by (rule tui_handle) (simp_all add: assms)
  have "tui_step lib ?s1 ?s2" using tui_tick[of ?s1 "ts_cmds s" lib] by (simp add: handle_fields)
  moreover have "tui_step lib ?s2 ?s3" by (rule tui_handle) (simp_all add: assms handle_fields)
  ultimately have s3: "(tui_step lib)\<^sup>*\<^sup>* ?s1 ?s3" by (rule two_steps)
  have "sb_toast (md_statusBar (ts_model ?s1)) = client_error_text (tl_jsonErr lib) e"
    by (simp add: handle_fields SetToast_def)
  moreover have "sb_toast (md_statusBar (ts_model ?s3)) = []" "ts_cmds ?s3 = ts_cmds s"
    by (simp_all add: handle_fields ClearToast_def)
  ultimately show ?thesis using s1 s3 by (metis r_into_rtranclp)
qed

lemma enter_loaded:
  "Update sample_tui (KeyMsg ''enter'') (loaded_model st) =
     (loaded_model st, [toggleTunnel (md_listPanel (loaded_model st)) ''db''])"
  by (simp add: Update_key_def panel_Filtering_def panel_SelectedItem_def loaded_model_fields DefaultKeyMap_def
      sample_bubbles_def sample_item_def Let_def split: prod.split)

lemma toggle_fails: "run_toggle bb p name (\<lambda>_ _. Inl ConnectionClosed) = errorMsg ConnectionClosed"
  by (simp add: run_toggle_def Client_TunnelStop_def Client_TunnelStart_def checked_def parsed_def)

text \<open>Pressing enter while the connection is down leaves one more error to handle.\<close>

lemma failing_toggle:
  assumes "tui_reach sample_tui s" "\<not> ts_quit s" "ts_model s = loaded_model st"
  shows "tui_reach sample_tui (s\<lparr>ts_msgs := add_mset (errorMsg ConnectionClosed) (ts_msgs s)\<rparr>)"
proof -
  let ?t = "toggleTunnel (md_listPanel (loaded_model st)) ''db''"
  let ?s1 = "s\<lparr>ts_cmds := add_mset ?t (ts_cmds s)\<rparr>"
  have same: "s\<lparr>ts_model := loaded_model st, ts_cmds := add_mset ?t (ts_cmds s)\<rparr> = ?s1"
    using assms(3) by (cases s) simp
  have "tui_step sample_tui s (s\<lparr>ts_model := loaded_model st, ts_cmds := add_mset ?t (ts_cmds s)\<rparr>)"
    using tui_key[of s sample_tui "''enter''"] assms by (simp add: handle_def enter_loaded del: Update.simps)
  then have "tui_step sample_tui s ?s1" unfolding same .
  with assms(1) have "tui_reach sample_tui ?s1" by (rule reach_step)
  moreover have "tui_step sample_tui ?s1 (s\<lparr>ts_msgs := add_mset (errorMsg ConnectionClosed) (ts_msgs s)\<rparr>)"
    using tui_toggle[of ?s1 _ _ "ts_cmds s" sample_tui "\<lambda>_ _. Inl ConnectionClosed"] by (simp add: toggle_fails)
  ultimately show ?thesis by (rule reach_step)
qed

lemma error_and_timer:
  "\<exists>s. tui_reach sample_tui s \<and> \<not> ts_quit s \<and> ts_msgs s = {#errorMsg ConnectionClosed#} \<and> HideToastCmd \<in># ts_cmds s"
proof -
  let ?err = "errorMsg ConnectionClosed"
  let ?s0 = "(tui_initial sample_tui)\<lparr>ts_cmds := {#listenForNotifications#},
    ts_msgs := {#tunnelsLoadedMsg [sample_item StateDisconnected]#}\<rparr>"
  let ?s1 = "?s0\<lparr>ts_model := loaded_model StateDisconnected, ts_msgs := {#}, ts_loaded := [sample_item StateDisconnected]\<rparr>"
  let ?s2 = "?s1\<lparr>ts_msgs := {#?err, ?err#}\<rparr>"
  let ?s3 = "handle sample_tui ?err (?s2\<lparr>ts_msgs := {#?err#}\<rparr>)"
  have "tui_step sample_tui (tui_initial sample_tui) ?s0"
    using tui_load[of "tui_initial sample_tui" "{#listenForNotifications#}" sample_tui sample_call]
    by (simp add: tui_initial_def Init_def load_sample)
  then have "tui_reach sample_tui ?s0" by (blast intro: reach_step reach_init)
  moreover have "tui_step sample_tui ?s0 ?s1"
    using tui_handle[of ?s0 "tunnelsLoadedMsg [sample_item StateDisconnected]" "{#}" sample_tui]
    by (simp add: tui_initial_def handle_def loaded_model_def)
  ultimately have "tui_reach sample_tui ?s1" by (rule reach_step)
  from failing_toggle[OF this, of StateDisconnected] have "tui_reach sample_tui (?s1\<lparr>ts_msgs := {#?err#}\<rparr>)"
    by (simp add: tui_initial_def)
  from failing_toggle[OF this, of StateDisconnected] have "tui_reach sample_tui ?s2"
    by (simp add: tui_initial_def)
  then have "tui_reach sample_tui ?s3" by (rule tui_reach_handle) (simp_all add: tui_initial_def)
  then show ?thesis by (intro exI[of _ ?s3]) (simp add: handle_fields tui_initial_def)
qed

lemma toast_cleared_early_example:
  "\<exists>s t u. tui_reach sample_tui s \<and> (tui_step sample_tui)\<^sup>*\<^sup>* s t \<and>
     sb_toast (md_statusBar (ts_model t)) = ''connection closed'' \<and>
     (tui_step sample_tui)\<^sup>*\<^sup>* t u \<and> sb_toast (md_statusBar (ts_model u)) = [] \<and> HideToastCmd \<in># ts_cmds u"
proof -
  from error_and_timer obtain s where s: "tui_reach sample_tui s" "\<not> ts_quit s"
    "ts_msgs s = {#errorMsg ConnectionClosed#}" "HideToastCmd \<in># ts_cmds s" by blast
  from toast_cleared_early[OF s] s(1,4) show ?thesis
    by (metis client_error_text.simps(2) count_eq_zero_iff)
qed

end
