(* ===== verification/Commands.thy ===== *)
theory Commands
  imports TUI_Model "HOL-Library.State_Monad"
begin

text \<open>
  Package \<^verbatim>\<open>internal/cmd\<close> and \<^verbatim>\<open>main.go\<close>: the commands of the program as functions of a state monad over the
  world: what the command prints and does, in order, the files it writes, and everything outside (the
  daemon and other processes), which answers through the fields of an environment.  Flags and arguments
  are what the cobra library has parsed.  The part of \<^verbatim>\<open>connect\<close> that waits is a transition system.
\<close>

section \<open>The world\<close>

datatype event =
    Stdout string
  | StdoutJSON "TunnelInfo list"
  | Stderr string
  | Log string
  | Requested string RawMessage
  | Started "string list"
  | Ran "string list"
  | MadeDir string
  | Wrote string string
  | Removed string

record 'd world =
  w_events :: "event list"
  w_files :: "string \<Rightarrow> string option"
  w_outside :: 'd

text \<open>
  The operating system and the daemon: dialling the socket, a request and its answer, starting and
  running processes, what happens during 100 ms of sleep; failures of file operations are an error text.
\<close>

record 'd system =
  sy_getenv :: getenv
  sy_isPrint :: "nat \<Rightarrow> bool"
  sy_jsonErr :: "json_error \<Rightarrow> string"
  sy_Dial :: "'d \<Rightarrow> string \<Rightarrow> (unit, string) result"
  sy_call :: "string \<Rightarrow> RawMessage \<Rightarrow> 'd \<Rightarrow> (Response, client_error) result \<times> 'd"
  sy_Sleep :: "'d \<Rightarrow> 'd"
  sy_Start :: "string list \<Rightarrow> 'd \<Rightarrow> string option \<times> 'd"
  sy_Run :: "string list \<Rightarrow> 'd \<Rightarrow> (string \<times> string option) \<times> 'd"
  sy_Executable :: "(string, string) result"
  sy_EvalSymlinks :: "string \<Rightarrow> (string, string) result"
  sy_MkdirAll :: "string \<Rightarrow> string option"
  sy_WriteFile :: "string \<Rightarrow> string option"
  sy_Remove :: "string \<Rightarrow> string option"
  sy_StatFails :: "string \<Rightarrow> bool"
  sy_Encode :: "string option"

type_synonym ('d, 'a) cmd = "('d world, 'a) state"

text \<open>How a command ends: it returns, or the process exits with a code.\<close>

datatype ending = Returned | Exited nat

abbreviation ret :: "'a \<Rightarrow> ('d, 'a) cmd" where
  "ret \<equiv> State_Monad.return"

definition emit :: "event \<Rightarrow> ('d, unit) cmd" where
  "emit e = State (\<lambda>w. ((), w\<lparr>w_events := w_events w @ [e]\<rparr>))"

definition outside :: "('d \<Rightarrow> 'a \<times> 'd) \<Rightarrow> ('d, 'a) cmd" where
  "outside f = State (\<lambda>w. let (x, d) = f (w_outside w) in (x, w\<lparr>w_outside := d\<rparr>))"

definition put_file :: "string \<Rightarrow> string option \<Rightarrow> ('d, unit) cmd" where
  "put_file path content = State (\<lambda>w. ((), w\<lparr>w_files := (w_files w)(path := content)\<rparr>))"

definition line :: "string \<Rightarrow> string" where
  "line s = s @ [CHR 0x0A]"

text \<open>\<^verbatim>\<open>fmt.Println\<close> and \<^verbatim>\<open>log.Fatalf\<close>.\<close>

definition Println :: "string \<Rightarrow> ('d, unit) cmd" where
  "Println s = emit (Stdout (line s))"

definition Fatal :: "string \<Rightarrow> ('d, ending) cmd" where
  "Fatal s = do { emit (Log s); ret (Exited 1) }"

definition Eprintln_exit :: "string \<Rightarrow> ('d, ending) cmd" where
  "Eprintln_exit s = do { emit (Stderr (line s)); ret (Exited 1) }"

section \<open>The client as the commands use it\<close>

definition daemon_Connect :: "'d system \<Rightarrow> ('d, (Client, string) result) cmd" where
  "daemon_Connect sy = outside (\<lambda>d. (Connect (sy_getenv sy) (sy_MkdirAll sy) (sy_Dial sy d), d))"

definition request :: "'d system \<Rightarrow> string \<Rightarrow> RawMessage \<Rightarrow> ('d, (Response, client_error) result) cmd" where
  "request sy meth params = do { emit (Requested meth params); outside (sy_call sy meth params) }"

definition name_params :: "string \<Rightarrow> RawMessage" where
  "name_params name = Some (marshal_NameParams \<lparr>np_Name = name\<rparr>)"

definition do_TunnelStart :: "'d system \<Rightarrow> string \<Rightarrow> ('d, (TunnelStatusResult, client_error) result) cmd" where
  "do_TunnelStart sy name = do {
     r \<leftarrow> request sy MethodTunnelStart (name_params name);
     ret (Client_TunnelStart (\<lambda>_ _. r) name) }"

definition do_TunnelStop :: "'d system \<Rightarrow> string \<Rightarrow> ('d, (unit, client_error) result) cmd" where
  "do_TunnelStop sy name = do {
     r \<leftarrow> request sy MethodTunnelStop (name_params name);
     ret (Client_TunnelStop (\<lambda>_ _. r) name) }"

definition do_TunnelList :: "'d system \<Rightarrow> ('d, (TunnelListResult, client_error) result) cmd" where
  "do_TunnelList sy = do { r \<leftarrow> request sy MethodTunnelList None; ret (Client_TunnelList (\<lambda>_ _. r)) }"

definition do_TunnelRegister ::
  "'d system \<Rightarrow> string \<Rightarrow> string \<Rightarrow> string \<Rightarrow> ('d, (TunnelRegisterResult, client_error) result) cmd" where
  "do_TunnelRegister sy host remote loc = do {
     r \<leftarrow> request sy MethodTunnelRegister
            (Some (marshal_RegisterParams \<lparr>rp_Host = host, rp_Remote = remote, rp_Local = loc\<rparr>));
     ret (Client_TunnelRegister (\<lambda>_ _. r) host remote loc) }"

definition do_Subscribe :: "'d system \<Rightarrow> ('d, (unit, client_error) result) cmd" where
  "do_Subscribe sy = do { r \<leftarrow> request sy MethodSubscribe None; ret (Client_Subscribe (\<lambda>_ _. r)) }"

definition do_Ping :: "'d system \<Rightarrow> ('d, (PingResult, client_error) result) cmd" where
  "do_Ping sy = do { r \<leftarrow> request sy MethodDaemonPing None; ret (Client_Ping (\<lambda>_ _. r)) }"

definition do_Shutdown :: "'d system \<Rightarrow> ('d, (unit, client_error) result) cmd" where
  "do_Shutdown sy = do { r \<leftarrow> request sy MethodDaemonShutdown None; ret (Client_Shutdown (\<lambda>_ _. r)) }"

definition daemon_IsRunning :: "'d system \<Rightarrow> ('d, bool) cmd" where
  "daemon_IsRunning sy = do {
     conn \<leftarrow> daemon_Connect sy;
     (case conn of
        Inl e \<Rightarrow> ret False
      | Inr c \<Rightarrow> do { r \<leftarrow> request sy MethodDaemonPing None; ret (IsRunning conn (\<lambda>_ _. r)) }) }"

definition err_text :: "'d system \<Rightarrow> client_error \<Rightarrow> string" where
  "err_text sy = client_error_text (sy_jsonErr sy)"

section \<open>Starting the service in the background\<close>

text \<open>The polling loop with the number of polls left; \<open>None\<close> is the nil error.\<close>

primrec poll_service :: "'d system \<Rightarrow> nat \<Rightarrow> ('d, string option) cmd" where
  "poll_service sy 0 = ret (Some ''service did not start in time'')"
| "poll_service sy (Suc n) = do {
     outside (\<lambda>d. ((), sy_Sleep sy d));
     running \<leftarrow> daemon_IsRunning sy;
     (if running then ret None else poll_service sy n) }"

definition start_process :: "'d system \<Rightarrow> string list \<Rightarrow> ('d, string option) cmd" where
  "start_process sy args = do { emit (Started args); outside (sy_Start sy args) }"

definition startServiceBackground :: "'d system \<Rightarrow> ('d, string option) cmd" where
  "startServiceBackground sy =
     (case sy_Executable sy of
        Inl e \<Rightarrow> ret (Some (''failed to get executable path: '' @ e))
      | Inr exePath \<Rightarrow> do {
          err \<leftarrow> start_process sy [exePath, ''service'', ''start''];
          (case err of
             Some e \<Rightarrow> ret (Some (''failed to start service: '' @ e))
           | None \<Rightarrow> poll_service sy 20) })"

definition startServiceInBackground :: "'d system \<Rightarrow> ('d, string option) cmd" where
  "startServiceInBackground sy =
     (case sy_Executable sy of
        Inl e \<Rightarrow> ret (Some (''failed to get executable path: '' @ e))
      | Inr exePath \<Rightarrow> do {
          err \<leftarrow> start_process sy [exePath, ''service'', ''start'', ''--foreground''];
          (case err of
             Some e \<Rightarrow> ret (Some (''failed to start service: '' @ e))
           | None \<Rightarrow> poll_service sy 20) })"

text \<open>The first lines of \<^verbatim>\<open>runRoot\<close> and \<^verbatim>\<open>runConnect\<close>.\<close>

definition ensure_running :: "'d system \<Rightarrow> ('d, string option) cmd" where
  "ensure_running sy = do {
     running \<leftarrow> daemon_IsRunning sy;
     (if running then ret None else startServiceBackground sy) }"

section \<open>The root command\<close>

text \<open>\<open>program\<close> is the outcome of running the terminal program on a model.\<close>

definition runRoot :: "('l, 'k, 'c) tui_lib \<Rightarrow> ('l Model \<Rightarrow> string option) \<Rightarrow> 'd system \<Rightarrow> ('d, ending) cmd" where
  "runRoot lib program sy = do {
     err \<leftarrow> ensure_running sy;
     (case err of
        Some e \<Rightarrow> Fatal (''Failed to start service: '' @ e)
      | None \<Rightarrow> do {
          conn \<leftarrow> daemon_Connect sy;
          (case conn of
             Inl e \<Rightarrow> Fatal (''Failed to connect to service: '' @ e)
           | Inr client \<Rightarrow> do {
               r \<leftarrow> request sy MethodSubscribe None;
               (case Run lib (\<lambda>_ _. r) program of
                  Some e \<Rightarrow> Fatal (''TUI error: '' @ e)
                | None \<Rightarrow> ret Returned) }) }) }"

section \<open>The command connect\<close>

record connect_flags =
  fl_host :: string
  fl_remote :: string
  fl_local :: string

text \<open>The name of the tunnel: the argument, or what registering an ad-hoc tunnel returns.\<close>

definition connect_name :: "'d system \<Rightarrow> connect_flags \<Rightarrow> string list \<Rightarrow> ('d, ending + string) cmd" where
  "connect_name sy fl args =
     (case args of
        name # _ \<Rightarrow> ret (Inr name)
      | [] \<Rightarrow>
          if fl_host fl = [] \<or> fl_remote fl = [] \<or> fl_local fl = [] then do {
            x \<leftarrow> Fatal ''When not using a named tunnel, --host, --remote, and --local are required'';
            ret (Inl x) }
          else do {
            result \<leftarrow> do_TunnelRegister sy (fl_host fl) (fl_remote fl) (fl_local fl);
            (case result of
               Inl e \<Rightarrow> do { x \<leftarrow> Fatal (''Failed to register tunnel: '' @ err_text sy e); ret (Inl x) }
             | Inr res \<Rightarrow> do {
                 emit (Stdout (line (''Registered ad-hoc tunnel: '' @ np_Name res)));
                 ret (Inr (np_Name res)) }) })"

definition print_details :: "'d system \<Rightarrow> string \<Rightarrow> TunnelInfo list \<Rightarrow> ('d, unit) cmd" where
  "print_details sy name tunnels =
     (case find (\<lambda>t. ti_Name t = name) tunnels of
        None \<Rightarrow> ret ()
      | Some t \<Rightarrow> do {
          emit (Stdout (line (''Tunnel '' @ Quote (sy_isPrint sy) name @ '' connected.'')));
          emit (Stdout (line (''  '' @ tc_Local (ti_Config t) @ '' -> '' @ tc_Remote (ti_Config t) @
            '' (via '' @ tc_Host (ti_Config t) @ '')''))) })"

text \<open>Everything before the wait: an ending, or the name of the tunnel to wait for.\<close>

definition connect_begin :: "'d system \<Rightarrow> connect_flags \<Rightarrow> string list \<Rightarrow> ('d, ending + string) cmd" where
  "connect_begin sy fl args = do {
     err \<leftarrow> ensure_running sy;
     (case err of
        Some e \<Rightarrow> do { x \<leftarrow> Fatal (''Failed to start service: '' @ e); ret (Inl x) }
      | None \<Rightarrow> do {
          conn \<leftarrow> daemon_Connect sy;
          (case conn of
             Inl e \<Rightarrow> do { x \<leftarrow> Fatal (''Failed to connect to service: '' @ e); ret (Inl x) }
           | Inr client \<Rightarrow> do {
               named \<leftarrow> connect_name sy fl args;
               (case named of
                  Inl x \<Rightarrow> ret (Inl x)
                | Inr name \<Rightarrow> do {
                    started \<leftarrow> do_TunnelStart sy name;
                    (case started of
                       Inl e \<Rightarrow> do { x \<leftarrow> Fatal (''Failed to start tunnel: '' @ err_text sy e); ret (Inl x) }
                     | Inr _ \<Rightarrow> do {
                         listed \<leftarrow> do_TunnelList sy;
                         (case listed of
                            Inl e \<Rightarrow> emit (Log (''Warning: couldn't fetch tunnel details: '' @ err_text sy e))
                          | Inr l \<Rightarrow> print_details sy name (lr_Tunnels l));
                         Println ''Press Ctrl+C to disconnect.'';
                         subscribed \<leftarrow> do_Subscribe sy;
                         (case subscribed of
                            Inl e \<Rightarrow> emit (Log (''Warning: couldn't subscribe to notifications: '' @ err_text sy e))
                          | Inr _ \<Rightarrow> ret ());
                         ret (Inr name) }) }) }) }) }"

text \<open>
  The wait.  \<^verbatim>\<open>sigCh\<close> holds one signal; the goroutine reads notifications until one says that the tunnel is
  no longer active, sets \<^verbatim>\<open>disconnectedByRemote\<close> and then closes \<^verbatim>\<open>doneCh\<close>.  \<open>cw_read\<close> and \<open>cw_signalled\<close> are
  history.
\<close>

datatype reader = Reading | Closing | ReaderDone

datatype waiter = AtSelect | AfterSelect | Ended

record 'd connect_sys =
  cw_world :: "'d world"
  cw_waiter :: waiter
  cw_reader :: reader
  cw_signal :: bool
  cw_done :: bool
  cw_byRemote :: bool
  cw_queue :: "Notification list"
  cw_closed :: bool
  cw_read :: "Notification list"
  cw_signalled :: bool

definition says_inactive :: "string \<Rightarrow> Notification \<Rightarrow> bool" where
  "says_inactive name notif \<longleftrightarrow>
     not_Method notif = MethodStatusChanged \<and>
     (case json_Unmarshal unmarshal_StatusResult zero_StatusResult (not_Params notif) of
        Inl e \<Rightarrow> False
      | Inr params \<Rightarrow> sr_Name params = name \<and> \<not> IsActive (sr_Status params))"

definition connect_interrupted :: "'d system \<Rightarrow> string \<Rightarrow> ('d, unit) cmd" where
  "connect_interrupted sy name = do {
     emit (Stdout ([CHR 0x0A] @ line ''Disconnecting...''));
     stopped \<leftarrow> do_TunnelStop sy name;
     (case stopped of
        Inl e \<Rightarrow> emit (Log (''Warning: failed to stop tunnel: '' @ err_text sy e))
      | Inr _ \<Rightarrow> ret ()) }"

definition connect_finish :: "'d system \<Rightarrow> string \<Rightarrow> bool \<Rightarrow> ('d, unit) cmd" where
  "connect_finish sy name byRemote =
     (if byRemote then ret ()
      else emit (Stdout (line (''Tunnel '' @ Quote (sy_isPrint sy) name @ '' disconnected.''))))"

inductive connect_step :: "'d system \<Rightarrow> string \<Rightarrow> 'd connect_sys \<Rightarrow> 'd connect_sys \<Rightarrow> bool"
  for sy :: "'d system" and name :: string where
  cw_interrupt: "connect_step sy name s (s\<lparr>cw_signal := True, cw_signalled := True\<rparr>)"
| cw_receive: "\<not> cw_closed s \<Longrightarrow> length (cw_queue s) < notification_capacity \<Longrightarrow>
     connect_step sy name s (s\<lparr>cw_queue := cw_queue s @ [n]\<rparr>)"
| cw_drop: "\<not> cw_closed s \<Longrightarrow> notification_capacity \<le> length (cw_queue s) \<Longrightarrow> connect_step sy name s s"
| cw_disconnect: "connect_step sy name s (s\<lparr>cw_closed := True\<rparr>)"
| cw_others: "connect_step sy name s (s\<lparr>cw_world := (cw_world s)\<lparr>w_outside := d\<rparr>\<rparr>)"
| cw_take: "cw_reader s = Reading \<Longrightarrow> cw_queue s = n # ns \<Longrightarrow>
     connect_step sy name s (s\<lparr>cw_queue := ns, cw_read := cw_read s @ [n],
       cw_byRemote := (cw_byRemote s \<or> says_inactive name n),
       cw_reader := (if says_inactive name n then Closing else Reading)\<rparr>)"
| cw_close: "cw_reader s = Closing \<Longrightarrow> connect_step sy name s (s\<lparr>cw_done := True, cw_reader := ReaderDone\<rparr>)"
| cw_range_ends: "cw_reader s = Reading \<Longrightarrow> cw_queue s = [] \<Longrightarrow> cw_closed s \<Longrightarrow>
     connect_step sy name s (s\<lparr>cw_reader := ReaderDone\<rparr>)"
| cw_select_signal: "cw_waiter s = AtSelect \<Longrightarrow> cw_signal s \<Longrightarrow>
     connect_step sy name s (s\<lparr>cw_waiter := AfterSelect, cw_signal := False,
       cw_world := snd (run_state (connect_interrupted sy name) (cw_world s))\<rparr>)"
| cw_select_done: "cw_waiter s = AtSelect \<Longrightarrow> cw_done s \<Longrightarrow>
     connect_step sy name s (s\<lparr>cw_waiter := AfterSelect,
       cw_world := snd (run_state (emit (Stdout ([CHR 0x0A] @ line ''Tunnel disconnected.''))) (cw_world s))\<rparr>)"
| cw_finish: "cw_waiter s = AfterSelect \<Longrightarrow>
     connect_step sy name s (s\<lparr>cw_waiter := Ended,
       cw_world := snd (run_state (connect_finish sy name (cw_byRemote s)) (cw_world s))\<rparr>)"

definition connect_initial :: "'d world \<Rightarrow> 'd connect_sys" where
  "connect_initial w = \<lparr>cw_world = w, cw_waiter = AtSelect, cw_reader = Reading, cw_signal = False,
     cw_done = False, cw_byRemote = False, cw_queue = [], cw_closed = False, cw_read = [], cw_signalled = False\<rparr>"

section \<open>The commands ls and disconnect\<close>

definition ls_status :: "TunnelInfo \<Rightarrow> string" where
  "ls_status t =
     (if ti_Status t = ''error'' \<and> ti_Error t \<noteq> [] then ''error: '' @ ti_Error t else ti_Status t)"

definition ls_row :: "TunnelInfo \<Rightarrow> string" where
  "ls_row t = ti_Name t @ [CHR 0x09] @ ls_status t @ [CHR 0x09] @ tc_Local (ti_Config t) @ [CHR 0x09] @
     tc_Remote (ti_Config t) @ [CHR 0x0A]"

definition ls_header :: string where
  "ls_header = line (''NAME'' @ [CHR 0x09] @ ''STATUS'' @ [CHR 0x09] @ ''LOCAL'' @ [CHR 0x09] @ ''REMOTE'')"

definition not_running_text :: string where
  "not_running_text = ''Error: service not running. Start with 'gurren service start'' @ [CHR 0x27]"

definition runLs :: "'d system \<Rightarrow> bool \<Rightarrow> ('d, ending) cmd" where
  "runLs sy jsonOutput = do {
     conn \<leftarrow> daemon_Connect sy;
     (case conn of
        Inl e \<Rightarrow> Eprintln_exit not_running_text
      | Inr client \<Rightarrow> do {
          result \<leftarrow> do_TunnelList sy;
          (case result of
             Inl e \<Rightarrow> Eprintln_exit (''Error: '' @ err_text sy e)
           | Inr l \<Rightarrow>
               if jsonOutput then
                 (case sy_Encode sy of
                    Some e \<Rightarrow> Eprintln_exit (''Error: '' @ e)
                  | None \<Rightarrow> do { emit (StdoutJSON (lr_Tunnels l)); ret Returned })
               else if lr_Tunnels l = [] then do { Println ''No tunnels configured''; ret Returned }
               else do {
                 emit (Stdout (tabwriter (ls_header @ concat (map ls_row (lr_Tunnels l)))));
                 ret Returned }) }) }"

definition runDisconnect :: "'d system \<Rightarrow> string \<Rightarrow> ('d, ending) cmd" where
  "runDisconnect sy name = do {
     conn \<leftarrow> daemon_Connect sy;
     (case conn of
        Inl e \<Rightarrow> Eprintln_exit not_running_text
      | Inr client \<Rightarrow> do {
          stopped \<leftarrow> do_TunnelStop sy name;
          (case stopped of
             Inl e \<Rightarrow> Eprintln_exit (''Error: '' @ err_text sy e)
           | Inr _ \<Rightarrow> do {
               emit (Stdout (line (''Tunnel '' @ Quote (sy_isPrint sy) name @ '' disconnected'')));
               ret Returned }) }) }"

end
