(* ===== verification/Service.thy ===== *)
theory Service
  imports Commands
begin

text \<open>
  Package \<^verbatim>\<open>internal/cmd\<close>, file \<^verbatim>\<open>service.go\<close> with the embedded \<^verbatim>\<open>gurren.service\<close>, and \<^verbatim>\<open>main.go\<close>: starting, stopping and
  querying the service, its systemd unit, and the process that runs it in the foreground.
\<close>

section \<open>Stopping and querying\<close>

definition runServiceStop :: "'d system \<Rightarrow> ('d, ending) cmd" where
  "runServiceStop sy = do {
     conn \<leftarrow> daemon_Connect sy;
     (case conn of
        Inl e \<Rightarrow> do { Println ''Service is not running''; ret Returned }
      | Inr client \<Rightarrow> do {
          stopped \<leftarrow> do_Shutdown sy;
          (case stopped of
             Inl e \<Rightarrow> Eprintln_exit (''Error: '' @ err_text sy e)
           | Inr _ \<Rightarrow> do { Println ''Service stopped''; ret Returned }) }) }"

definition runServiceStatus :: "'d system \<Rightarrow> ('d, ending) cmd" where
  "runServiceStatus sy = do {
     conn \<leftarrow> daemon_Connect sy;
     (case conn of
        Inl e \<Rightarrow> do { Println ''Service is not running''; ret (Exited 1) }
      | Inr client \<Rightarrow> do {
          result \<leftarrow> do_Ping sy;
          (case result of
             Inl e \<Rightarrow> Eprintln_exit (''Error: '' @ err_text sy e)
           | Inr res \<Rightarrow> do {
               emit (Stdout (line (''Service is running (version '' @ pr_Version res @ '')'')));
               ret Returned }) }) }"

section \<open>Starting\<close>

text \<open>
  In the foreground the command loads the configuration and starts the daemon, whose state is then
  the result; it goes on serving.  \<^verbatim>\<open>Daemon.Start\<close> asks once more whether a daemon is running.
\<close>

definition runServiceStart ::
  "'v viper \<Rightarrow> (string \<Rightarrow> bool) \<Rightarrow> socket_env \<Rightarrow> tty \<Rightarrow> 'd system \<Rightarrow> bool \<Rightarrow> ('d, ending + Daemon) cmd" where
  "runServiceStart v stat_ok se tty sy serviceForeground = do {
     running \<leftarrow> daemon_IsRunning sy;
     (if running then do { Println ''Service is already running''; ret (Inl Returned) }
      else if \<not> serviceForeground then do {
        err \<leftarrow> startServiceInBackground sy;
        (case err of
           Some e \<Rightarrow> do { x \<leftarrow> Fatal (''Failed to start service: '' @ e); ret (Inl x) }
         | None \<Rightarrow> do { Println ''Service started''; ret (Inl Returned) }) }
      else
        (case Load v stat_ok (sy_getenv sy) of
           Inl e \<Rightarrow> do { x \<leftarrow> Fatal (''Error loading config: '' @ e); ret (Inl x) }
         | Inr cfg \<Rightarrow> do {
             again \<leftarrow> daemon_IsRunning sy;
             (case Daemon_Start se again (Daemon.New cfg tty) of
                (Some e, d) \<Rightarrow> do { x \<leftarrow> Fatal (''Error starting service: '' @ e); ret (Inl x) }
              | (None, d) \<Rightarrow> ret (Inr d)) })) }"

text \<open>
  What the goroutines of a running daemon do: accept and serve connections, answer single requests, run the tunnels,
  deliver their notifications, and run the shutdowns that \<^verbatim>\<open>daemon.shutdown\<close> started.
\<close>

inductive daemon_step :: "((string, ptr) gomap \<Rightarrow> (string, ptr) gomap) \<Rightarrow> Daemon \<Rightarrow> Daemon \<Rightarrow> bool"
  for iter :: "(string, ptr) gomap \<Rightarrow> (string, ptr) gomap" where
  ds_request: "handleRequest env sub d req = (resp, d') \<Longrightarrow> daemon_step iter d d'"
| ds_connection: "d_listener d = Some True \<Longrightarrow> daemon_step iter d (handleConnection sub incoming d)"
| ds_tunnels: "mgr_step (sys_of d) (m, ts, d_calls d) \<Longrightarrow> daemon_step iter d (d\<lparr>d_manager := m, d_tasks := ts\<rparr>)"
| ds_notify: "d_tasks d = add_mset (Notify cb change) ts \<Longrightarrow>
     daemon_step iter d (call_onChange env cb change (d\<lparr>d_tasks := ts\<rparr>))"
| ds_shutdown: "0 < d_shutdowns d \<Longrightarrow>
     daemon_step iter d (Shutdown iter (d\<lparr>d_shutdowns := d_shutdowns d - 1\<rparr>))"

text \<open>
  The process in the foreground: its main goroutine, the channel of capacity 1 into which the
  runtime puts the signals, dropping one that finds it full, and the daemon.  The main goroutine receives
  a signal, shuts the daemon down and returns, which ends the process and all other goroutines.
  Signals come from outside; the label of a step says whether it is one.
\<close>

datatype main_pc = MainWaiting | MainStopping | MainReturned

datatype cause = Signal | Internal

record process =
  pr_main :: main_pc
  pr_sigCh :: nat
  pr_daemon :: Daemon
  pr_stdout :: string

definition foreground :: "Daemon \<Rightarrow> process" where
  "foreground d = \<lparr>pr_main = MainWaiting, pr_sigCh = 0, pr_daemon = d, pr_stdout = []\<rparr>"

inductive process_step :: "((string, ptr) gomap \<Rightarrow> (string, ptr) gomap) \<Rightarrow> cause \<Rightarrow> process \<Rightarrow> process \<Rightarrow> bool"
  for iter :: "(string, ptr) gomap \<Rightarrow> (string, ptr) gomap" where
  ps_signal: "pr_main p \<noteq> MainReturned \<Longrightarrow>
     process_step iter Signal p (if pr_sigCh p < 1 then p\<lparr>pr_sigCh := pr_sigCh p + 1\<rparr> else p)"
| ps_receive: "pr_main p = MainWaiting \<Longrightarrow> 0 < pr_sigCh p \<Longrightarrow>
     process_step iter Internal p (p\<lparr>pr_main := MainStopping, pr_sigCh := pr_sigCh p - 1,
       pr_stdout := pr_stdout p @ [CHR 0x0A] @ line ''Shutting down...''\<rparr>)"
| ps_stop: "pr_main p = MainStopping \<Longrightarrow>
     process_step iter Internal p (p\<lparr>pr_main := MainReturned, pr_daemon := Shutdown iter (pr_daemon p)\<rparr>)"
| ps_daemon: "pr_main p \<noteq> MainReturned \<Longrightarrow> daemon_step iter (pr_daemon p) d \<Longrightarrow>
     process_step iter Internal p (p\<lparr>pr_daemon := d\<rparr>)"

inductive_cases process_stepE: "process_step iter c p q"

section \<open>The systemd unit\<close>

definition serviceFileTemplate :: string where
  "serviceFileTemplate =
     line ''[Unit]'' @
     line ''Description=Gurren SSH Tunnel Manager'' @
     line ''After=network.target'' @
     line '''' @
     line ''[Service]'' @
     line ''Type=simple'' @
     line ''ExecStart={{EXEC_PATH}} service start --foreground'' @
     line ''Restart=on-failure'' @
     line ''RestartSec=5'' @
     line '''' @
     line ''[Install]'' @
     line ''WantedBy=default.target''"

definition run_command :: "'d system \<Rightarrow> string list \<Rightarrow> ('d, string \<times> string option) cmd" where
  "run_command sy args = do { emit (Ran args); outside (sy_Run sy args) }"

definition systemdAvailable :: "'d system \<Rightarrow> ('d, bool) cmd" where
  "systemdAvailable sy = do {
     res \<leftarrow> run_command sy [''systemctl'', ''--user'', ''--version''];
     ret (snd res = None) }"

definition systemdServicePath :: "getenv \<Rightarrow> (string, string) result" where
  "systemdServicePath getenv =
     (case UserHomeDir getenv of
        Inl e \<Rightarrow> Inl (''unable to get home directory: '' @ e)
      | Inr home \<Rightarrow> Inr (filepath_Join [home, ''.config'', ''systemd'', ''user'', ''gurren.service'']))"

definition systemdReload :: "'d system \<Rightarrow> ('d, string option) cmd" where
  "systemdReload sy = do {
     res \<leftarrow> run_command sy [''systemctl'', ''--user'', ''daemon-reload''];
     ret (snd res) }"

text \<open>File operations: on success the file is there, or gone.\<close>

definition os_MkdirAll :: "'d system \<Rightarrow> string \<Rightarrow> ('d, string option) cmd" where
  "os_MkdirAll sy path =
     (case sy_MkdirAll sy path of
        Some e \<Rightarrow> ret (Some e)
      | None \<Rightarrow> do { emit (MadeDir path); ret None })"

definition os_WriteFile :: "'d system \<Rightarrow> string \<Rightarrow> string \<Rightarrow> ('d, string option) cmd" where
  "os_WriteFile sy path content =
     (case sy_WriteFile sy path of
        Some e \<Rightarrow> ret (Some e)
      | None \<Rightarrow> do { emit (Wrote path content); put_file path (Some content); ret None })"

definition os_Remove :: "'d system \<Rightarrow> string \<Rightarrow> ('d, string option) cmd" where
  "os_Remove sy path =
     (case sy_Remove sy path of
        Some e \<Rightarrow> ret (Some e)
      | None \<Rightarrow> do { emit (Removed path); put_file path None; ret None })"

text \<open>\<^verbatim>\<open>os.IsNotExist\<close> of the error of \<^verbatim>\<open>os.Stat\<close>: another error of \<^verbatim>\<open>Stat\<close> is not one.\<close>

definition stat_NotExist :: "'d system \<Rightarrow> string \<Rightarrow> ('d, bool) cmd" where
  "stat_NotExist sy path = State (\<lambda>w. (\<not> sy_StatFails sy path \<and> w_files w path = None, w))"

definition no_systemd :: "('d, ending) cmd" where
  "no_systemd = Eprintln_exit ''Error: systemd is not available on this system''"

definition install_hints :: "string \<Rightarrow> ('d, unit) cmd" where
  "install_hints servicePath = do {
     emit (Stdout (line (''Installed systemd user service to '' @ servicePath)));
     Println '''';
     Println ''To enable automatic startup on login:'';
     Println ''  gurren service enable'';
     Println '''';
     Println ''To start the service now:'';
     Println ''  systemctl --user start gurren'' }"

definition install_unit :: "'d system \<Rightarrow> string \<Rightarrow> string \<Rightarrow> ('d, ending) cmd" where
  "install_unit sy exePath servicePath = do {
     made \<leftarrow> os_MkdirAll sy (filepath_Dir servicePath);
     (case made of
        Some e \<Rightarrow> Fatal (''Failed to create directory '' @ filepath_Dir servicePath @ '': '' @ e)
      | None \<Rightarrow> do {
          written \<leftarrow> os_WriteFile sy servicePath (ReplaceAll serviceFileTemplate ''{{EXEC_PATH}}'' exePath);
          (case written of
             Some e \<Rightarrow> Fatal (''Failed to write service file: '' @ e)
           | None \<Rightarrow> do {
               reloaded \<leftarrow> systemdReload sy;
               (case reloaded of
                  Some e \<Rightarrow> Fatal (''Failed to reload systemd: '' @ e)
                | None \<Rightarrow> do { install_hints servicePath; ret Returned }) }) }) }"

definition runServiceInstall :: "'d system \<Rightarrow> ('d, ending) cmd" where
  "runServiceInstall sy = do {
     available \<leftarrow> systemdAvailable sy;
     (if \<not> available then do {
        emit (Stderr (line ''Error: systemd is not available on this system''));
        Eprintln_exit (''Use 'gurren service start'' @ [CHR 0x27] @ '' to run the service manually'') }
      else
        (case sy_Executable sy of
           Inl e \<Rightarrow> Fatal (''Failed to get executable path: '' @ e)
         | Inr link \<Rightarrow>
             (case sy_EvalSymlinks sy link of
                Inl e \<Rightarrow> Fatal (''Failed to resolve executable path: '' @ e)
              | Inr exePath \<Rightarrow>
                  (case systemdServicePath (sy_getenv sy) of
                     Inl e \<Rightarrow> Fatal (''Failed to get service path: '' @ e)
                   | Inr servicePath \<Rightarrow> install_unit sy exePath servicePath)))) }"

definition runServiceUninstall :: "'d system \<Rightarrow> ('d, ending) cmd" where
  "runServiceUninstall sy = do {
     available \<leftarrow> systemdAvailable sy;
     (if \<not> available then no_systemd
      else
        (case systemdServicePath (sy_getenv sy) of
           Inl e \<Rightarrow> Fatal (''Failed to get service path: '' @ e)
         | Inr servicePath \<Rightarrow> do {
             missing \<leftarrow> stat_NotExist sy servicePath;
             (if missing then do { Println ''Service is not installed''; ret Returned }
              else do {
                run_command sy [''systemctl'', ''--user'', ''stop'', ''gurren''];
                run_command sy [''systemctl'', ''--user'', ''disable'', ''gurren''];
                removed \<leftarrow> os_Remove sy servicePath;
                (case removed of
                   Some e \<Rightarrow> Fatal (''Failed to remove service file: '' @ e)
                 | None \<Rightarrow> do {
                     reloaded \<leftarrow> systemdReload sy;
                     (case reloaded of
                        Some e \<Rightarrow> Fatal (''Failed to reload systemd: '' @ e)
                      | None \<Rightarrow> do { Println ''Uninstalled systemd user service''; ret Returned }) }) }) })) }"

text \<open>\<^verbatim>\<open>CombinedOutput\<close> failed: the error and the output.\<close>

definition systemctl_failed :: "string \<Rightarrow> string \<Rightarrow> string \<Rightarrow> ('d, ending) cmd" where
  "systemctl_failed what e output = do {
     emit (Stderr (line (''Failed to '' @ what @ '' service: '' @ e) @ output));
     ret (Exited 1) }"

definition runServiceEnable :: "'d system \<Rightarrow> ('d, ending) cmd" where
  "runServiceEnable sy = do {
     available \<leftarrow> systemdAvailable sy;
     (if \<not> available then no_systemd
      else
        (case systemdServicePath (sy_getenv sy) of
           Inl e \<Rightarrow> Fatal (''Failed to get service path: '' @ e)
         | Inr servicePath \<Rightarrow> do {
             missing \<leftarrow> stat_NotExist sy servicePath;
             (if missing then
                Eprintln_exit (''Error: Service is not installed. Run 'gurren service install'' @ [CHR 0x27] @ '' first.'')
              else do {
                res \<leftarrow> run_command sy [''systemctl'', ''--user'', ''enable'', ''gurren''];
                (case snd res of
                   Some e \<Rightarrow> systemctl_failed ''enable'' e (fst res)
                 | None \<Rightarrow> do {
                     Println ''Service enabled - gurren will start automatically on login'';
                     ret Returned }) }) })) }"

definition runServiceDisable :: "'d system \<Rightarrow> ('d, ending) cmd" where
  "runServiceDisable sy = do {
     available \<leftarrow> systemdAvailable sy;
     (if \<not> available then no_systemd
      else do {
        res \<leftarrow> run_command sy [''systemctl'', ''--user'', ''disable'', ''gurren''];
        (case snd res of
           Some e \<Rightarrow> systemctl_failed ''disable'' e (fst res)
         | None \<Rightarrow> do {
             Println ''Service disabled - gurren will no longer start automatically on login'';
             ret Returned }) }) }"

section \<open>The main function\<close>

text \<open>
  \<^verbatim>\<open>main\<close>: \<open>Execute\<close> runs the command that cobra has selected, or reports an error of its own, such as an
  unknown command.
\<close>

definition main :: "('d, string + ending) cmd \<Rightarrow> ('d, ending) cmd" where
  "main Execute = do {
     r \<leftarrow> Execute;
     (case r of Inl err \<Rightarrow> Eprintln_exit err | Inr x \<Rightarrow> ret x) }"

end
