(* ===== verification/Commands_Props.thy ===== *)
theory Commands_Props
  imports Service
begin

text \<open>
  What the commands guarantee: how long starting the service waits and when it succeeds, the table of
  \<^verbatim>\<open>ls\<close>, \<^verbatim>\<open>disconnect\<close> against the daemon, when \<^verbatim>\<open>connect\<close> ends and what it has then done, and that
  uninstalling undoes installing.
\<close>

section \<open>Running the primitives\<close>

lemma run_emit [simp]: "run_state (emit e) w = ((), w\<lparr>w_events := w_events w @ [e]\<rparr>)"
  by (simp add: emit_def)

lemma run_outside [simp]:
  "run_state (outside f) w = (fst (f (w_outside w)), w\<lparr>w_outside := snd (f (w_outside w))\<rparr>)"
  by (simp add: outside_def split_beta)

lemma run_put_file [simp]: "run_state (put_file p c) w = ((), w\<lparr>w_files := (w_files w)(p := c)\<rparr>)"
  by (simp add: put_file_def)

lemma run_prints [simp]:
  "run_state (Println s) w = ((), w\<lparr>w_events := w_events w @ [Stdout (line s)]\<rparr>)"
  "run_state (Fatal s) w = (Exited 1, w\<lparr>w_events := w_events w @ [Log s]\<rparr>)"
  "run_state (Eprintln_exit s) w = (Exited 1, w\<lparr>w_events := w_events w @ [Stderr (line s)]\<rparr>)"
  by (simp_all add: Println_def Fatal_def Eprintln_exit_def)

lemma run_request [simp]:
  "run_state (request sy m p) w =
     (fst (sy_call sy m p (w_outside w)),
      w\<lparr>w_events := w_events w @ [Requested m p], w_outside := snd (sy_call sy m p (w_outside w))\<rparr>)"
  by (simp add: request_def)

lemma run_Connect [simp]:
  "run_state (daemon_Connect sy) w = (Connect (sy_getenv sy) (sy_MkdirAll sy) (sy_Dial sy (w_outside w)), w)"
  by (simp add: daemon_Connect_def)

lemmas client_cmds = do_TunnelStart_def do_TunnelStop_def do_TunnelList_def do_TunnelRegister_def
  do_Subscribe_def do_Ping_def do_Shutdown_def

abbreviation reaches :: "'d system \<Rightarrow> 'd \<Rightarrow> bool" where
  "reaches sy d \<equiv> Connect (sy_getenv sy) (sy_MkdirAll sy) (sy_Dial sy d) = Inr new_client"

lemma Connect_cases: "(\<exists>e. Connect g m dl = Inl e) \<or> Connect g m dl = Inr new_client"
  by (auto simp: Connect_def split: sum.split)

section \<open>Polling\<close>

text \<open>One call of \<^verbatim>\<open>IsRunning\<close> as a function of what is outside.\<close>

definition probe :: "'d system \<Rightarrow> 'd \<Rightarrow> bool \<times> 'd" where
  "probe sy d =
     (case Connect (sy_getenv sy) (sy_MkdirAll sy) (sy_Dial sy d) of
        Inl e \<Rightarrow> (False, d)
      | Inr c \<Rightarrow> (case sy_call sy MethodDaemonPing None d of (r, d') \<Rightarrow> (IsRunning (Inr c) (\<lambda>_ _. r), d')))"

lemma run_IsRunning:
  "\<exists>ev. run_state (daemon_IsRunning sy) w =
     (fst (probe sy (w_outside w)), w\<lparr>w_events := w_events w @ ev, w_outside := snd (probe sy (w_outside w))\<rparr>) \<and>
     set ev \<subseteq> {Requested MethodDaemonPing None}"
proof (cases "Connect (sy_getenv sy) (sy_MkdirAll sy) (sy_Dial sy (w_outside w))")
  case (Inl e)
  then show ?thesis by (intro exI[of _ "[]"]) (simp add: daemon_IsRunning_def probe_def)
next
  case (Inr c)
  then show ?thesis
    by (intro exI[of _ "[Requested MethodDaemonPing None]"])
      (simp add: daemon_IsRunning_def probe_def split: prod.split)
qed

text \<open>What is outside before the sleep of the \<open>k\<close>-th poll.\<close>

definition before_poll :: "'d system \<Rightarrow> nat \<Rightarrow> 'd \<Rightarrow> 'd" where
  "before_poll sy k d = ((\<lambda>d. snd (probe sy (sy_Sleep sy d))) ^^ k) d"

definition poll_answers :: "'d system \<Rightarrow> 'd \<Rightarrow> nat \<Rightarrow> bool" where
  "poll_answers sy d k \<longleftrightarrow> fst (probe sy (sy_Sleep sy (before_poll sy k d)))"

lemma poll_answers_Suc: "poll_answers sy d (Suc k) = poll_answers sy (snd (probe sy (sy_Sleep sy d))) k"
  using funpow_swap1[of "\<lambda>d. snd (probe sy (sy_Sleep sy d))" k d]
  by (simp add: poll_answers_def before_poll_def)

lemma poll_service_result:
  "fst (run_state (poll_service sy n) w) =
     (if \<exists>k<n. poll_answers sy (w_outside w) k then None else Some ''service did not start in time'')"
proof (induction n arbitrary: w)
  case 0
  then show ?case by simp
next
  case (Suc n)
  let ?w = "w\<lparr>w_outside := sy_Sleep sy (w_outside w)\<rparr>"
  obtain ev where run: "run_state (daemon_IsRunning sy) ?w =
      (fst (probe sy (w_outside ?w)), ?w\<lparr>w_events := w_events ?w @ ev, w_outside := snd (probe sy (w_outside ?w))\<rparr>)"
    using run_IsRunning by blast
  have first: "poll_answers sy (w_outside w) 0 = fst (probe sy (w_outside ?w))"
    by (simp add: poll_answers_def before_poll_def)
  have ex: "(\<exists>k<Suc n. P k) \<longleftrightarrow> P 0 \<or> (\<exists>k<n. P (Suc k))" for P by (auto simp: less_Suc_eq_0_disj)
  show ?case
  proof (cases "fst (probe sy (w_outside ?w))")
    case True
    with run first show ?thesis unfolding ex by simp
  next
    case False
    with run first Suc show ?thesis unfolding ex by (simp add: poll_answers_Suc)
  qed
qed

text \<open>
  C24.  Starting the service in the background ends after at most twenty polls, whatever happens outside:
  when the executable is found and the process starts, it succeeds exactly if one of the first twenty polls,
  each after its sleep, finds a daemon that answers the ping, and otherwise fails with a timeout.
\<close>

theorem service_start_polls:
  assumes "sy_Executable sy = Inr exe"
    and "fst (sy_Start sy [exe, ''service'', ''start''] (w_outside w)) = None"
  shows "fst (run_state (startServiceBackground sy) w) =
    (if \<exists>k<20. poll_answers sy (snd (sy_Start sy [exe, ''service'', ''start''] (w_outside w))) k
     then None else Some ''service did not start in time'')"
  using assms
  by (simp add: startServiceBackground_def start_process_def poll_service_result del: poll_service.simps)

text \<open>A system for examples: what is outside is a number of polls after which the daemon answers.\<close>

definition sample_system :: "nat system" where
  "sample_system = \<lparr>sy_getenv = (\<lambda>v. ''/home/me''), sy_isPrint = (\<lambda>_. True), sy_jsonErr = (\<lambda>_. ''json''),
     sy_Dial = (\<lambda>d p. if d = 0 then Inr () else Inl ''connection refused''),
     sy_call = (\<lambda>m p d. (Inr (NewResult ''1'' (marshal_PingResult \<lparr>pr_Version = Version\<rparr>)), d)),
     sy_Sleep = (\<lambda>d. d - 1), sy_Start = (\<lambda>args d. (None, 2)),
     sy_Run = (\<lambda>args d. (([], None), d)),
     sy_Executable = Inr ''/usr/bin/gurren'', sy_EvalSymlinks = Inr, sy_MkdirAll = (\<lambda>p. None),
     sy_WriteFile = (\<lambda>p. None), sy_Remove = (\<lambda>p. None), sy_StatFails = (\<lambda>p. False), sy_Encode = None\<rparr>"

definition empty_world :: "'d \<Rightarrow> 'd world" where
  "empty_world d = \<lparr>w_events = [], w_files = (\<lambda>_. None), w_outside = d\<rparr>"

lemma sample_reaches: "Connect (\<lambda>v. ''/home/me'') (\<lambda>p. None) (\<lambda>p. Inr ()) = Inr new_client"
  by (simp add: Connect_def SocketPath_def Let_def)

lemma ping_sample: "json_Unmarshal unmarshal_PingResult zero_PingResult
    (Some (marshal_PingResult \<lparr>pr_Version = Version\<rparr>)) = Inr \<lparr>pr_Version = Version\<rparr>"
  using ping_codec.decode_enc[of "\<lparr>pr_Version = Version\<rparr>"]
  by (simp add: json_Unmarshal_def Version_def valid_utf8_ascii ascii_def)

theorem service_start_polls_witness:
  "fst (run_state (startServiceBackground sample_system) (empty_world 5)) = None"
proof -
  have "probe sample_system 0 = (True, 0)"
    by (simp add: probe_def sample_system_def sample_reaches IsRunning_def Client_Ping_def checked_def parsed_def
        NewResult_def ping_sample)
  moreover have "snd (probe sample_system (Suc 0)) = Suc 0"
    by (simp add: probe_def sample_system_def Connect_def SocketPath_def Let_def)
  ultimately have "poll_answers sample_system 2 1"
    by (simp add: poll_answers_def before_poll_def) (simp add: sample_system_def)
  then have "\<exists>k<20. poll_answers sample_system 2 k" by (intro exI[of _ 1]) simp
  then show ?thesis
    using service_start_polls[of sample_system "''/usr/bin/gurren''" "empty_world 5"]
    by (simp add: empty_world_def) (simp add: sample_system_def)
qed

section \<open>The table of ls\<close>

definition ls_cells :: "TunnelInfo \<Rightarrow> string list" where
  "ls_cells t = [ti_Name t, ls_status t, tc_Local (ti_Config t), tc_Remote (ti_Config t)]"

definition ls_titles :: "string list" where
  "ls_titles = [''NAME'', ''STATUS'', ''LOCAL'', ''REMOTE'']"

lemma ls_row_text: "ls_row t = row_text (ls_cells t)" "ls_header = row_text ls_titles"
  by (simp_all add: ls_row_def ls_cells_def row_text_def ls_header_def ls_titles_def line_def)

lemma ls_table:
  assumes "\<forall>t\<in>set ts. list_all plain_cell (ls_cells t)"
  shows "tabwriter (ls_header @ concat (map ls_row ts)) = aligned_table (ls_titles # map ls_cells ts) 3"
proof -
  have "ls_header @ concat (map ls_row ts) = concat (map row_text (ls_titles # map ls_cells ts))"
    using arg_cong[of "map ls_row ts" "map row_text (map ls_cells ts)" concat] by (simp add: ls_row_text)
  moreover have "list_all plain_cell ls_titles" by (simp add: ls_titles_def plain_cell_def cell_char_def)
  ultimately show ?thesis
    using assms by (simp only:) (rule tabwriter_aligned, auto simp: ls_titles_def ls_cells_def)
qed

text \<open>
  C25.  What \<^verbatim>\<open>gurren ls\<close> prints for tunnels without tabs and line breaks in their texts: exactly one table with
  a title line and one line for each tunnel in the daemon's order, in which each of the first three columns
  is as wide as its widest cell, in runes, and two blanks more.  The command asks for the list once and
  changes nothing else.
\<close>

theorem ls_prints_aligned_table:
  assumes "reaches sy (w_outside w)"
    and "Client_TunnelList (\<lambda>m p. fst (sy_call sy m p (w_outside w))) = Inr \<lparr>lr_Tunnels = ts\<rparr>"
    and "ts \<noteq> []" "\<forall>t\<in>set ts. list_all plain_cell (ls_cells t)"
  shows "run_state (runLs sy False) w = (Returned, w\<lparr>w_events := w_events w @ [Requested MethodTunnelList None,
      Stdout (aligned_table (ls_titles # map ls_cells ts) 3)],
    w_outside := snd (sy_call sy MethodTunnelList None (w_outside w))\<rparr>)"
proof -
  have "Client_TunnelList (\<lambda>_ _. fst (sy_call sy MethodTunnelList None (w_outside w))) = Inr \<lparr>lr_Tunnels = ts\<rparr>"
    using assms(2) by (simp add: Client_TunnelList_def)
  then show ?thesis using assms(1,3) by (simp add: runLs_def client_cmds ls_table[OF assms(4)])
qed

definition sample_info :: TunnelInfo where
  "sample_info = \<lparr>ti_Name = ''db'', ti_Status = StateConnected, ti_Error = [], ti_Ephemeral = False,
     ti_Config = \<lparr>tc_Name = ''db'', tc_Host = ''me@bastion'', tc_Remote = ''db:5432'', tc_Local = '':15432''\<rparr>\<rparr>"

definition list_system :: "nat system" where
  "list_system = sample_system\<lparr>sy_call := (\<lambda>m p d. (Inr (NewResult ''1'' (marshal_ListResult \<lparr>lr_Tunnels = [sample_info]\<rparr>)), d))\<rparr>"

theorem ls_prints_aligned_table_witness:
  "run_state (runLs list_system False) (empty_world 0) = (Returned, (empty_world 0)\<lparr>w_events := [Requested MethodTunnelList None,
     Stdout (line ''NAME  STATUS     LOCAL   REMOTE'' @ line ''db    connected  :15432  db:5432'')]\<rparr>)"
proof -
  have ok: "list_ok \<lparr>lr_Tunnels = [sample_info]\<rparr>"
    by (simp add: sample_info_def State_defs valid_utf8_ascii ascii_def)
  have "Client_TunnelList (\<lambda>m p. fst (sy_call list_system m p 0)) = Inr \<lparr>lr_Tunnels = [sample_info]\<rparr>"
    using list_codec.decode_enc[OF ok]
    by (simp add: Client_TunnelList_def checked_def parsed_def json_Unmarshal_def list_system_def NewResult_def)
  moreover have "reaches list_system 0"
    by (simp add: list_system_def) (simp add: sample_system_def sample_reaches)
  moreover have "list_all plain_cell (ls_cells sample_info)"
    by (simp add: ls_cells_def ls_status_def sample_info_def State_defs plain_cell_def cell_char_def)
  moreover have "snd (sy_call list_system MethodTunnelList None 0) = 0" by (simp add: list_system_def)
  moreover have "aligned_table [ls_titles, ls_cells sample_info] 3 =
      line ''NAME  STATUS     LOCAL   REMOTE'' @ line ''db    connected  :15432  db:5432''"
    by code_simp
  ultimately show ?thesis
    using ls_prints_aligned_table[of list_system "empty_world 0" "[sample_info]"] by (simp add: empty_world_def)
qed

section \<open>disconnect against the daemon\<close>

text \<open>The daemon as what is outside of the command: every request is handled at once.\<close>

definition daemon_answers :: "handler_env \<Rightarrow> conn_id \<Rightarrow> string \<Rightarrow> string \<Rightarrow> RawMessage \<Rightarrow> Daemon \<Rightarrow> (Response, client_error) result \<times> Daemon" where
  "daemon_answers env sub i meth params d =
     (daemon_call env sub d i meth params,
      snd (handleRequest env sub d \<lparr>req_ID = i, req_Method = meth, req_Params = params\<rparr>))"

lemma stop_error_utf8:
  assumes "plain name" "Stop m name = Inl e"
  shows "valid_utf8 (mgr_error_text isPrint e)"
proof -
  have "of_char c < (128 :: nat)" if "plain_char c" for c using that unfolding plain_char_def by linarith
  then have "ascii name" using assms(1) unfolding plain_def ascii_def list_all_iff by blast
  moreover have "e = TunnelNotFound name \<or> e = TunnelNotRunning name"
    using assms(2) by (auto simp: Stop_def split: option.splits if_splits)
  ultimately show ?thesis
    using Quote_plain[OF assms(1)] by (auto intro!: valid_utf8_ascii simp: ascii_def)
qed

lemma stop_against_daemon:
  fixes env sub i d
  defines "answer name \<equiv> daemon_answers env sub i MethodTunnelStop (name_params name) d"
  assumes "valid_utf8 i" "plain name" "name \<noteq> []"
  shows "case Stop (d_manager d) name of
      Inl e \<Rightarrow> Client_TunnelStop (\<lambda>_ _. fst (answer name)) name = Inl (ServerError (mgr_error_text (isPrint_of env) e)) \<and>
        snd (answer name) = d
    | Inr (m, eph) \<Rightarrow> Client_TunnelStop (\<lambda>_ _. fst (answer name)) name = Inr () \<and> d_manager (snd (answer name)) = m"
proof -
  let ?req = "\<lparr>req_ID = i, req_Method = MethodTunnelStop, req_Params = name_params name\<rparr>"
  have asks: "asks ?req name" using plain_valid[OF assms(3)] assms(4) by (simp add: asks_def name_params_def)
  have h: "handleRequest env sub d ?req = handleTunnelStop env d ?req" by (simp add: handleRequest_def method_defs)
  have call: "daemon_call env sub d i MethodTunnelStop (name_params name) = Inr resp"
    if "fst (handleTunnelStop env d ?req) = resp" "response_ok resp" for resp
    using daemon_call_eq[OF assms(2), of MethodTunnelStop] that h by simp
  show ?thesis
  proof (cases "Stop (d_manager d) name")
    case (Inl e)
    let ?text = "mgr_error_text (isPrint_of env) e"
    let ?code = "if Contains ?text ''not found'' then ErrCodeTunnelNotFound
      else if Contains ?text ''not running'' then ErrCodeTunnelInactive else ErrCodeInternal"
    have hs: "handleTunnelStop env d ?req = (NewError i ?code ?text, d)"
      by (simp add: handleTunnelStop_def with_name_asks[OF asks] Inl Let_def del: mgr_error_text.simps)
    moreover have "response_ok (NewError i ?code ?text)"
      using assms(2) stop_error_utf8[OF assms(3) Inl] by (simp add: NewError_def code_defs del: mgr_error_text.simps)
    ultimately have "daemon_call env sub d i MethodTunnelStop (name_params name) =
        Inr (NewError i ?code ?text)" using call by (simp only: fst_conv)
    with Inl hs h show ?thesis
      by (simp add: assms(1) daemon_answers_def Client_TunnelStop_def checked_def NewError_def del: mgr_error_text.simps)
  next
    case (Inr me)
    then obtain m eph where me: "Stop (d_manager d) name = Inr (m, eph)" by (cases me) auto
    with asks have "fst (handleTunnelStop env d ?req) = NewResult i empty_struct"
      "d_manager (snd (handleTunnelStop env d ?req)) = m" by (simp_all add: handleTunnelStop_def with_name_asks)
    moreover from this(1) have "daemon_call env sub d i MethodTunnelStop (name_params name) = Inr (NewResult i empty_struct)"
      using assms(2) by (intro call) (simp_all add: NewResult_def)
    ultimately show ?thesis
      using me h by (simp add: assms(1) daemon_answers_def Client_TunnelStop_def checked_def NewResult_def)
  qed
qed


definition daemon_system :: "Daemon system" where
  "daemon_system = \<lparr>sy_getenv = (\<lambda>v. ''/home/me''), sy_isPrint = (\<lambda>_. True), sy_jsonErr = (\<lambda>_. ''json''),
     sy_Dial = (\<lambda>d p. Inr ()), sy_call = daemon_answers sample_henv 1 ''1'', sy_Sleep = (\<lambda>d. d),
     sy_Start = (\<lambda>args d. (None, d)), sy_Run = (\<lambda>args d. (([], None), d)), sy_Executable = Inr ''/usr/bin/gurren'',
     sy_EvalSymlinks = Inr, sy_MkdirAll = (\<lambda>p. None), sy_WriteFile = (\<lambda>p. None), sy_Remove = (\<lambda>p. None),
     sy_StatFails = (\<lambda>p. False), sy_Encode = None\<rparr>"


end
