(* ===== verification/Service_Props.thy ===== *)
theory Service_Props
  imports Commands_Props
begin

text \<open>
  The wait of \<^verbatim>\<open>connect\<close>, the systemd unit, and the process of the service: when \<^verbatim>\<open>connect\<close> ends and which
  requests it has made by then, that uninstalling undoes installing, and that only a signal ends the
  process of the service.
\<close>

section \<open>The wait of connect\<close>

definition stopping_text :: event where
  "stopping_text = Stdout ([CHR 0x0A] @ line ''Disconnecting...'')"

definition remote_text :: event where
  "remote_text = Stdout ([CHR 0x0A] @ line ''Tunnel disconnected.'')"

definition final_text :: "'d system \<Rightarrow> string \<Rightarrow> event" where
  "final_text sy name = Stdout (line (''Tunnel '' @ Quote (sy_isPrint sy) name @ '' disconnected.''))"

text \<open>What the branch of the signal has done: the request to stop, and a warning if it failed.\<close>

definition stop_events :: "string \<Rightarrow> event list \<Rightarrow> bool" where
  "stop_events name ev \<longleftrightarrow>
     ev = [stopping_text, Requested MethodTunnelStop (name_params name)] \<or>
     (\<exists>warning. ev = [stopping_text, Requested MethodTunnelStop (name_params name), Log warning])"

lemma interrupted_events:
  "\<exists>ev. w_events (snd (run_state (connect_interrupted sy name) w)) = w_events w @ ev \<and> stop_events name ev"
  by (auto simp: connect_interrupted_def client_cmds stop_events_def stopping_text_def split: sum.split)

text \<open>What was printed and requested at each place, given whether there was a signal and a notification.\<close>

fun wait_log :: "'d system \<Rightarrow> string \<Rightarrow> event list \<Rightarrow> bool \<Rightarrow> bool \<Rightarrow> waiter \<Rightarrow> event list \<Rightarrow> bool" where
  "wait_log sy name ev0 sig rem AtSelect out \<longleftrightarrow> out = ev0"
| "wait_log sy name ev0 sig rem AfterSelect out \<longleftrightarrow>
     sig \<and> (\<exists>ev. out = ev0 @ ev \<and> stop_events name ev) \<or> rem \<and> out = ev0 @ [remote_text]"
| "wait_log sy name ev0 sig rem Ended out \<longleftrightarrow>
     sig \<and> (\<exists>ev fin. out = ev0 @ ev @ fin \<and> stop_events name ev \<and> (fin = [] \<and> rem \<or> fin = [final_text sy name])) \<or>
     rem \<and> out = ev0 @ [remote_text]"

lemma wait_log_mono:
  "wait_log sy name ev0 sig rem pc out \<Longrightarrow> (sig \<Longrightarrow> sig') \<Longrightarrow> (rem \<Longrightarrow> rem') \<Longrightarrow> wait_log sy name ev0 sig' rem' pc out"
  by (cases pc) auto

lemma wait_log_finish:
  assumes "wait_log sy name ev0 sig rem AfterSelect out"
  shows "wait_log sy name ev0 sig rem Ended (out @ (if rem then [] else [final_text sy name]))"
proof (cases rem)
  case True
  with assms show ?thesis by auto
next
  case False
  with assms show ?thesis by auto
qed

definition told :: "string \<Rightarrow> Notification list \<Rightarrow> bool" where
  "told name ns \<longleftrightarrow> (\<exists>n\<in>set ns. says_inactive name n)"

lemma told_simps [simp]: "\<not> told name []" "told name (ns @ [n]) \<longleftrightarrow> told name ns \<or> says_inactive name n"
  by (auto simp: told_def)

definition connect_inv :: "'d system \<Rightarrow> string \<Rightarrow> event list \<Rightarrow> 'd connect_sys \<Rightarrow> bool" where
  "connect_inv sy name ev0 s \<longleftrightarrow>
     cw_byRemote s = told name (cw_read s) \<and>
     (cw_done s \<or> cw_reader s = Closing \<longrightarrow> cw_byRemote s) \<and> (cw_signal s \<longrightarrow> cw_signalled s) \<and>
     wait_log sy name ev0 (cw_signalled s) (cw_byRemote s) (cw_waiter s) (w_events (cw_world s))"

lemma connect_inv_initial: "connect_inv sy name (w_events w) (connect_initial w)"
  by (simp add: connect_inv_def connect_initial_def)

lemma connect_step_inv: "connect_step sy name s t \<Longrightarrow> connect_inv sy name ev0 s \<Longrightarrow> connect_inv sy name ev0 t"
proof (induction rule: connect_step.induct)
  case (cw_take s n ns)
  then have "wait_log sy name ev0 (cw_signalled s) (cw_byRemote s \<or> says_inactive name n) (cw_waiter s) (w_events (cw_world s))"
    by (auto simp: connect_inv_def simp del: wait_log.simps intro: wait_log_mono)
  with cw_take show ?case by (auto simp: connect_inv_def simp del: wait_log.simps)
next
  case (cw_select_signal s)
  obtain ev where "w_events (snd (run_state (connect_interrupted sy name) (cw_world s))) = w_events (cw_world s) @ ev"
    "stop_events name ev" using interrupted_events by blast
  with cw_select_signal show ?case by (auto simp: connect_inv_def)
next
  case (cw_select_done s)
  then show ?case by (auto simp: connect_inv_def remote_text_def)
next
  case (cw_finish s)
  have "w_events (snd (run_state (connect_finish sy name (cw_byRemote s)) (cw_world s))) =
      w_events (cw_world s) @ (if cw_byRemote s then [] else [final_text sy name])"
    by (simp add: connect_finish_def final_text_def)
  with cw_finish wait_log_finish[of sy name ev0 "cw_signalled s" "cw_byRemote s" "w_events (cw_world s)"]
  show ?case by (auto simp: connect_inv_def simp del: wait_log.simps)
qed (auto simp: connect_inv_def simp del: wait_log.simps intro: wait_log_mono)

interpretation connect: invariant_system "\<lambda>s. s = connect_initial w" "connect_step sy name" "connect_inv sy name (w_events w)"
  by unfold_locales (auto intro: connect_inv_initial connect_step_inv)

text \<open>
  C14.  The wait of \<^verbatim>\<open>connect\<close> ends in two ways only.  Until a signal has arrived or a notification was read that
  says its tunnel is no longer active, it waits and does nothing, also when the connection to the daemon is
  lost.  After a signal it has sent exactly one request to stop its tunnel; after such a notification it has
  sent none.  The closing message after a signal is left out only if such a notification was read too.
\<close>

theorem connect_ends:
  assumes "reach (\<lambda>s. s = connect_initial w) (connect_step sy name) s"
  shows "let inactive = (\<exists>n\<in>set (cw_read s). says_inactive name n); out = w_events (cw_world s) in
    (cw_waiter s = AtSelect \<and> out = w_events w) \<or>
    (cw_signalled s \<and> (\<exists>ev fin. out = w_events w @ ev @ fin \<and> stop_events name ev \<and>
       (cw_waiter s = Ended \<and> \<not> inactive \<longrightarrow> fin = [final_text sy name]) \<and> (fin = [] \<or> fin = [final_text sy name]))) \<or>
    (inactive \<and> out = w_events w @ [remote_text])"
proof -
  from assms have "connect_inv sy name (w_events w) s" by (rule connect.reach_inv)
  then have "wait_log sy name (w_events w) (cw_signalled s) (told name (cw_read s)) (cw_waiter s) (w_events (cw_world s))"
    unfolding connect_inv_def by (elim conjE) simp
  then show ?thesis unfolding Let_def told_def[symmetric] by (cases "cw_waiter s") (auto, (metis append_Nil2)+)
qed

definition interrupted :: "nat connect_sys" where
  "interrupted = (let s = (connect_initial (empty_world 0))\<lparr>cw_signal := True, cw_signalled := True\<rparr>
     in s\<lparr>cw_waiter := AfterSelect, cw_signal := False,
          cw_world := snd (run_state (connect_interrupted sample_system ''db'') (cw_world s))\<rparr>)"

theorem connect_ends_witness:
  "\<exists>ev fin. w_events (cw_world interrupted) = ev @ fin \<and> stop_events ''db'' ev \<and> (fin = [] \<or> fin = [final_text sample_system ''db''])"
proof -
  let ?s = "(connect_initial (empty_world 0))\<lparr>cw_signal := True, cw_signalled := True\<rparr>"
  have "connect_step sample_system ''db'' (connect_initial (empty_world 0)) ?s" by (rule cw_interrupt)
  then have "reach (\<lambda>s. s = connect_initial (empty_world 0)) (connect_step sample_system ''db'') ?s"
    by (blast intro: reach_step reach_init)
  moreover have "connect_step sample_system ''db'' ?s interrupted"
    unfolding interrupted_def Let_def by (rule cw_select_signal) (simp_all add: connect_initial_def)
  ultimately have "reach (\<lambda>s. s = connect_initial (empty_world 0)) (connect_step sample_system ''db'') interrupted"
    by (rule reach_step)
  from connect_ends[OF this] show ?thesis
    by (auto simp: interrupted_def connect_initial_def empty_world_def Let_def)
qed

section \<open>What connect announces\<close>

text \<open>
  \<^verbatim>\<open>connect\<close> announces a tunnel that failed: when the daemon answers \<^verbatim>\<open>tunnel.start\<close> with a result whose state is
  an error, the command does not look at it, prints that the tunnel is connected, and waits.
\<close>

lemma connect_announces_failed_tunnel:
  assumes "fst (probe sy (w_outside w))" "\<And>d. reaches sy d" "\<And>m p d. snd (sy_call sy m p d) = d"
    and "Client_TunnelStart (\<lambda>m p. fst (sy_call sy m p (w_outside w))) name = Inr r" "sr_Status r = StateError"
    and "Client_TunnelList (\<lambda>m p. fst (sy_call sy m p (w_outside w))) = Inr \<lparr>lr_Tunnels = ts\<rparr>" "name \<in> ti_Name ` set ts"
  shows "fst (run_state (connect_begin sy fl [name]) w) = Inr name \<and>
    Stdout (line (''Tunnel '' @ Quote (sy_isPrint sy) name @ '' connected.'')) \<in>
      set (w_events (snd (run_state (connect_begin sy fl [name]) w)))"
proof -
  have pr: "snd (probe sy (w_outside w)) = w_outside w" using assms(2,3) by (simp add: probe_def split_beta)
  obtain ev where run: "run_state (daemon_IsRunning sy) w = (True, w\<lparr>w_events := w_events w @ ev\<rparr>)"
    using run_IsRunning[of sy w] assms(1) pr by auto
  obtain t where t: "find (\<lambda>t. ti_Name t = name) ts = Some t"
    using assms(7) by (cases "find (\<lambda>t. ti_Name t = name) ts") (auto simp: find_None_iff)
  have start: "Client_TunnelStart (\<lambda>_ _. fst (sy_call sy MethodTunnelStart (name_params name) (w_outside w))) name = Inr r"
    using assms(4) by (simp add: Client_TunnelStart_def name_params_def)
  have tl: "Client_TunnelList (\<lambda>_ _. fst (sy_call sy MethodTunnelList None (w_outside w))) = Inr \<lparr>lr_Tunnels = ts\<rparr>"
    using assms(6) by (simp add: Client_TunnelList_def)
  show ?thesis
    using assms(2,3) run start tl t
    by (simp add: connect_begin_def ensure_running_def connect_name_def client_cmds print_details_def split: sum.split)
qed

definition failed_info :: TunnelInfo where
  "failed_info = sample_info\<lparr>ti_Status := StateError, ti_Error := ''refused''\<rparr>"

text \<open>A daemon that answers each method as it does after a failed start.\<close>

definition failing_system :: "nat system" where
  "failing_system = sample_system\<lparr>sy_Dial := (\<lambda>d p. Inr ()), sy_call := (\<lambda>m p d.
     (Inr (NewResult ''1''
       (if m = MethodTunnelStart
        then marshal_StatusResult \<lparr>sr_Name = ''db'', sr_Status = StateError, sr_Error = ''refused''\<rparr>
        else if m = MethodTunnelList then marshal_ListResult \<lparr>lr_Tunnels = [failed_info]\<rparr>
        else marshal_PingResult \<lparr>pr_Version = Version\<rparr>)), d))\<rparr>"

lemma connect_announces_failed_tunnel_example:
  "Stdout (line (''Tunnel '' @ Quote (sy_isPrint failing_system) ''db'' @ '' connected.'')) \<in>
     set (w_events (snd (run_state (connect_begin failing_system \<lparr>fl_host = [], fl_remote = [], fl_local = []\<rparr> [''db'']) (empty_world 0))))"
proof -
  let ?r = "\<lparr>sr_Name = ''db'', sr_Status = StateError, sr_Error = ''refused''\<rparr>"
  have ok: "status_ok ?r" "list_ok \<lparr>lr_Tunnels = [failed_info]\<rparr>"
    by (simp_all add: failed_info_def sample_info_def State_defs valid_utf8_ascii ascii_def)
  note decoded = status_codec.decode_enc[OF ok(1)] list_codec.decode_enc[OF ok(2)]
  have "reaches failing_system d" for d
    by (simp add: failing_system_def) (simp add: sample_system_def sample_reaches)
  moreover from this have "fst (probe failing_system 0)"
    by (simp add: probe_def) (simp add: failing_system_def IsRunning_def Client_Ping_def checked_def parsed_def
        NewResult_def method_defs ping_sample)
  moreover have "snd (sy_call failing_system m p d) = d" for m p d by (simp add: failing_system_def)
  moreover have "Client_TunnelStart (\<lambda>m p. fst (sy_call failing_system m p 0)) ''db'' = Inr ?r"
    "Client_TunnelList (\<lambda>m p. fst (sy_call failing_system m p 0)) = Inr \<lparr>lr_Tunnels = [failed_info]\<rparr>"
    using decoded by (simp_all add: Client_TunnelStart_def Client_TunnelList_def checked_def parsed_def
        json_Unmarshal_def failing_system_def NewResult_def method_defs)
  ultimately show ?thesis
    using connect_announces_failed_tunnel[of failing_system "empty_world 0" "''db''" ?r "[failed_info]"]
    by (simp add: empty_world_def failed_info_def sample_info_def)
qed

section \<open>The systemd unit\<close>

text \<open>The specification of the unit file, written out for a given executable; what the template gives is proved equal to it.\<close>

definition unit_file :: "string \<Rightarrow> string" where
  "unit_file exePath =
     line ''[Unit]'' @ line ''Description=Gurren SSH Tunnel Manager'' @ line ''After=network.target'' @ line [] @
     line ''[Service]'' @ line ''Type=simple'' @ line (''ExecStart='' @ exePath @ '' service start --foreground'') @
     line ''Restart=on-failure'' @ line ''RestartSec=5'' @ line [] @
     line ''[Install]'' @ line ''WantedBy=default.target''"

lemma unit_file_eq: "ReplaceAll serviceFileTemplate ''{{EXEC_PATH}}'' exePath = unit_file exePath"
  by (simp add: serviceFileTemplate_def unit_file_def line_def)

text \<open>A system on which everything that installing and uninstalling need succeeds.\<close>

definition cooperative :: "'d system \<Rightarrow> bool" where
  "cooperative sy \<longleftrightarrow> (\<forall>args d. snd (fst (sy_Run sy args d)) = None) \<and> (\<forall>p. sy_MkdirAll sy p = None) \<and>
     (\<forall>p. sy_WriteFile sy p = None) \<and> (\<forall>p. sy_Remove sy p = None) \<and> (\<forall>p. \<not> sy_StatFails sy p)"

text \<open>
  C26.  Installing writes exactly one file, the unit below the home directory, with the resolved path of
  the executable in its start command, and uninstalling removes it again: after both the files are as they
  were when there was no unit before.  Both commands return.
\<close>

theorem install_uninstall_roundtrip:
  assumes "cooperative sy" "sy_Executable sy = Inr link" "sy_EvalSymlinks sy link = Inr exePath"
    and "systemdServicePath (sy_getenv sy) = Inr path" "w_files w path = None"
  shows "\<exists>w1 w2. run_state (runServiceInstall sy) w = (Returned, w1) \<and>
    w_files w1 = (w_files w)(path \<mapsto> unit_file exePath) \<and>
    run_state (runServiceUninstall sy) w1 = (Returned, w2) \<and> w_files w2 = w_files w"
proof -
  have inst: "fst (run_state (runServiceInstall sy) w) = Returned"
    "w_files (snd (run_state (runServiceInstall sy) w)) = (w_files w)(path \<mapsto> unit_file exePath)"
    using assms by (simp_all add: cooperative_def runServiceInstall_def systemdAvailable_def run_command_def
        install_unit_def os_MkdirAll_def os_WriteFile_def systemdReload_def install_hints_def unit_file_eq split_beta)
  have uninst: "fst (run_state (runServiceUninstall sy) w1) = Returned \<and>
      w_files (snd (run_state (runServiceUninstall sy) w1)) = (w_files w1)(path := None)"
    if "w_files w1 path \<noteq> None" for w1
    using assms that by (auto simp: cooperative_def runServiceUninstall_def systemdAvailable_def run_command_def
        stat_NotExist_def os_Remove_def systemdReload_def split_beta)
  have "(w_files w)(path := None) = w_files w" using assms(5) by auto
  with inst uninst[of "snd (run_state (runServiceInstall sy) w)"] show ?thesis
    by (intro exI[of _ "snd (run_state (runServiceInstall sy) w)"]
        exI[of _ "snd (run_state (runServiceUninstall sy) (snd (run_state (runServiceInstall sy) w)))"])
      (simp add: prod_eq_iff)
qed

theorem install_uninstall_roundtrip_witness:
  "\<exists>w1. run_state (runServiceInstall sample_system) (empty_world 0) = (Returned, w1) \<and>
     w_files w1 ''/home/me/.config/systemd/user/gurren.service'' = Some (unit_file ''/usr/bin/gurren'')"
proof -
  have "systemdServicePath (sy_getenv sample_system) = Inr ''/home/me/.config/systemd/user/gurren.service''"
    by (simp add: systemdServicePath_def UserHomeDir_def sample_system_def filepath_Join_def Clean_def
        clean_elements_def clean_element_def Let_def)
  moreover have "cooperative sample_system" "sy_Executable sample_system = Inr ''/usr/bin/gurren''"
    "sy_EvalSymlinks sample_system ''/usr/bin/gurren'' = Inr ''/usr/bin/gurren''"
    by (simp_all add: sample_system_def cooperative_def)
  ultimately obtain w1 where "run_state (runServiceInstall sample_system) (empty_world 0) = (Returned, w1)"
    "w_files w1 = (w_files (empty_world 0))(''/home/me/.config/systemd/user/gurren.service'' \<mapsto> unit_file ''/usr/bin/gurren'')"
    using install_uninstall_roundtrip[of sample_system "''/usr/bin/gurren''" "''/usr/bin/gurren''"
        "''/home/me/.config/systemd/user/gurren.service''" "empty_world 0"] by (auto simp: empty_world_def)
  then show ?thesis by simp
qed

section \<open>The process of the service\<close>

text \<open>Without a signal the main goroutine waits, whatever the other goroutines do.\<close>

lemma quiet_process_waits:
  assumes "(process_step iter Internal)\<^sup>*\<^sup>* p q" "pr_main p = MainWaiting" "pr_sigCh p = 0"
  shows "pr_main q = MainWaiting \<and> pr_sigCh q = 0"
  using assms by (induction rule: rtranclp_induct) (auto elim: process_stepE)

text \<open>
  \<^verbatim>\<open>daemon.shutdown\<close> is carried out by another goroutine of the process: it leaves a daemon that is shut
  down, and a main goroutine that waits on unless a signal comes.
\<close>

lemma stop_leaves_process_running:
  assumes "d_listener d = Some True"
    and "handleRequest env sub d \<lparr>req_ID = i, req_Method = MethodDaemonShutdown, req_Params = None\<rparr> = (resp, d')"
  shows "\<exists>p. process_step iter Internal (foreground d') p \<and> d_cancelled (pr_daemon p) \<and>
    d_listener (pr_daemon p) = Some False \<and>
    (\<forall>q. (process_step iter Internal)\<^sup>*\<^sup>* p q \<longrightarrow> pr_main q = MainWaiting)"
proof -
  from assms(2) have d': "d' = d\<lparr>d_shutdowns := d_shutdowns d + 1\<rparr>"
    by (simp add: handleRequest_def method_defs handleShutdown_def)
  let ?d = "Shutdown iter (d'\<lparr>d_shutdowns := d_shutdowns d' - 1\<rparr>)"
  have "daemon_step iter d' ?d" by (rule ds_shutdown) (simp add: d')
  then have "process_step iter Internal (foreground d') (foreground d'\<lparr>pr_daemon := ?d\<rparr>)"
    by (intro ps_daemon) (simp_all add: foreground_def)
  moreover have "d_cancelled ?d" "d_listener ?d = Some False" using assms(1) by (simp_all add: Shutdown_def d')
  moreover have "pr_main q = MainWaiting"
    if "(process_step iter Internal)\<^sup>*\<^sup>* (foreground d'\<lparr>pr_daemon := ?d\<rparr>) q" for q
    using quiet_process_waits[OF that] by (simp add: foreground_def)
  ultimately show ?thesis by (intro exI[of _ "foreground d'\<lparr>pr_daemon := ?d\<rparr>"]) simp
qed

end
