(* ===== verification/Command_Tree.thy ===== *)
theory Command_Tree
  imports Service_Props
begin

text \<open>
  Package \<^verbatim>\<open>internal/cmd\<close>: the commands and flags as the package variables and \<^verbatim>\<open>init\<close> functions hand them to
  cobra, with the function each command runs.  What cobra makes of a command line is not modelled.  Shown is
  which process the program starts for the service and what it does then.
\<close>

section \<open>Commands\<close>

datatype args_rule = AnyArgs | MaximumNArgs nat | ExactArgs nat

datatype run_function =
    RunRoot | RunConnect | RunLs | RunDisconnect | RunServiceStart | RunServiceStop | RunServiceStatus
  | RunServiceInstall | RunServiceUninstall | RunServiceEnable | RunServiceDisable

datatype flag_value = StringFlag string | BoolFlag bool

record flag =
  flag_name :: string
  flag_short :: string
  flag_default :: flag_value
  flag_usage :: string

record cobra_Command =
  cc_Use :: string
  cc_Short :: string
  cc_Long :: string
  cc_Args :: args_rule
  cc_Run :: "run_function option"

text \<open>A command with its persistent flags, its own flags and its subcommands.\<close>

datatype command_tree = Command (cmd_self: cobra_Command) (cmd_persistent: "flag list")
  (cmd_flags: "flag list") (cmd_children: "command_tree list")

definition StringVar :: "string \<Rightarrow> string \<Rightarrow> string \<Rightarrow> string \<Rightarrow> flag" where
  "StringVar name short def usage =
     \<lparr>flag_name = name, flag_short = short, flag_default = StringFlag def, flag_usage = usage\<rparr>"

definition BoolVar :: "string \<Rightarrow> bool \<Rightarrow> string \<Rightarrow> flag" where
  "BoolVar name def usage = \<lparr>flag_name = name, flag_short = [], flag_default = BoolFlag def, flag_usage = usage\<rparr>"

definition connect_options :: "flag list" where
  "connect_options =
     [StringVar ''host'' [] [] ''SSH host (user@host:port or host from ~/.ssh/config)'',
      StringVar ''remote'' [] [] ''Remote address (host:port)'',
      StringVar ''local'' [] [] ''Local bind address (host:port)'']"

definition connectCmd :: command_tree where
  "connectCmd = Command
     \<lparr>cc_Use = ''connect [tunnel-name]'', cc_Short = ''Connect to a configured tunnel'',
      cc_Long = line ''Connect establishes an SSH tunnel to a remote service.'' @ line [] @
        line ''If a tunnel name is provided, it uses the configuration from the config file.'' @
        ''Otherwise, you can specify the connection details via flags.'',
      cc_Args = MaximumNArgs 1, cc_Run = Some RunConnect\<rparr> [] connect_options []"

definition disconnectCmd :: command_tree where
  "disconnectCmd = Command
     \<lparr>cc_Use = ''disconnect [tunnel-name]'', cc_Short = ''Disconnect a running tunnel'',
      cc_Long = ''Stops a running tunnel managed by the service.'', cc_Args = ExactArgs 1,
      cc_Run = Some RunDisconnect\<rparr> [] [] []"

definition ls_options :: "flag list" where
  "ls_options = [BoolVar ''json'' False ''Output in JSON format'']"

definition lsCmd :: command_tree where
  "lsCmd = Command
     \<lparr>cc_Use = ''ls'', cc_Short = ''List all configured tunnels'',
      cc_Long = ''Lists all tunnels from the configuration file along with their current status.'',
      cc_Args = AnyArgs, cc_Run = Some RunLs\<rparr> [] ls_options []"

definition service_leaf :: "string \<Rightarrow> string \<Rightarrow> string \<Rightarrow> run_function \<Rightarrow> flag list \<Rightarrow> command_tree" where
  "service_leaf use short long run flags = Command
     \<lparr>cc_Use = use, cc_Short = short, cc_Long = long, cc_Args = AnyArgs, cc_Run = Some run\<rparr> [] flags []"

definition serviceStartCmd :: command_tree where
  "serviceStartCmd = service_leaf ''start'' ''Start the service''
     ''Starts the service in the background to manage SSH tunnels.'' RunServiceStart
     [BoolVar ''foreground'' False (''Run service in foreground (don'' @ [CHR 0x27] @ ''t detach)'')]"

definition serviceStopCmd :: command_tree where
  "serviceStopCmd = service_leaf ''stop'' ''Stop the service'' ''Stops the service and all running tunnels.'' RunServiceStop []"

definition serviceStatusCmd :: command_tree where
  "serviceStatusCmd = service_leaf ''status'' ''Check service status'' ''Checks if the service is running.'' RunServiceStatus []"

definition serviceInstallCmd :: command_tree where
  "serviceInstallCmd = service_leaf ''install'' ''Install systemd user service''
     ''Installs gurren as a systemd user service for automatic startup.'' RunServiceInstall []"

definition serviceUninstallCmd :: command_tree where
  "serviceUninstallCmd = service_leaf ''uninstall'' ''Uninstall systemd user service''
     ''Removes the gurren systemd user service.'' RunServiceUninstall []"

definition serviceEnableCmd :: command_tree where
  "serviceEnableCmd = service_leaf ''enable'' ''Enable systemd user service''
     ''Enables gurren to start automatically on login.'' RunServiceEnable []"

definition serviceDisableCmd :: command_tree where
  "serviceDisableCmd = service_leaf ''disable'' ''Disable systemd user service''
     ''Disables gurren from starting automatically on login.'' RunServiceDisable []"

definition service_commands :: "command_tree list" where
  "service_commands =
     [serviceStartCmd, serviceStopCmd, serviceStatusCmd, serviceInstallCmd, serviceUninstallCmd,
      serviceEnableCmd, serviceDisableCmd]"

definition serviceCmd :: command_tree where
  "serviceCmd = Command
     \<lparr>cc_Use = ''service'', cc_Short = ''Manage the background service'',
      cc_Long = ''The service runs in the background and manages SSH tunnel connections.'',
      cc_Args = AnyArgs, cc_Run = None\<rparr> [] [] service_commands"

definition root_options :: "flag list" where
  "root_options =
     [StringVar ''config'' [] [] ''config file (default: ~/.config/gurren/config.toml)'',
      StringVar ''auth'' ''a'' [] ''auth method: auto, agent, publickey, password (default: auto)'']"

text \<open>The files of the package are initialised in the order of their names.\<close>

definition rootCmd :: command_tree where
  "rootCmd = Command
     \<lparr>cc_Use = ''gurren'', cc_Short = ''SSH tunnel manager'',
      cc_Long = ''Gurren is an SSH tunnel manager CLI and TUI that simplifies connecting to remote services through bastion hosts.'',
      cc_Args = AnyArgs, cc_Run = Some RunRoot\<rparr> root_options []
     [disconnectCmd, lsCmd, connectCmd, serviceCmd]"

text \<open>The name of a command is the first word of its use line; commands of one parent have different names.\<close>

definition cmd_name :: "command_tree \<Rightarrow> string" where
  "cmd_name c = takeWhile (\<lambda>ch. ch \<noteq> CHR '' '') (cc_Use (cmd_self c))"

lemmas command_defs = rootCmd_def serviceCmd_def service_commands_def serviceStartCmd_def serviceStopCmd_def serviceStatusCmd_def
  serviceInstallCmd_def serviceUninstallCmd_def serviceEnableCmd_def serviceDisableCmd_def service_leaf_def
  connectCmd_def disconnectCmd_def lsCmd_def

lemma siblings_distinct: "distinct (map cmd_name (cmd_children rootCmd))" "distinct (map cmd_name (cmd_children serviceCmd))"
  by (simp_all add: command_defs cmd_name_def)

section \<open>The process that the program starts\<close>

lemma poll_events:
  "\<exists>tail. w_events (snd (run_state (poll_service sy n) w)) = w_events w @ tail \<and>
     set tail \<subseteq> {Requested MethodDaemonPing None}"
proof (induction n arbitrary: w)
  case 0
  then show ?case by simp
next
  case (Suc n)
  let ?w = "w\<lparr>w_outside := sy_Sleep sy (w_outside w)\<rparr>"
  obtain ev where run: "run_state (daemon_IsRunning sy) ?w =
      (fst (probe sy (w_outside ?w)), ?w\<lparr>w_events := w_events ?w @ ev, w_outside := snd (probe sy (w_outside ?w))\<rparr>)"
    and ev: "set ev \<subseteq> {Requested MethodDaemonPing None}" using run_IsRunning by blast
  obtain tail where "w_events (snd (run_state (poll_service sy n)
      (?w\<lparr>w_events := w_events ?w @ ev, w_outside := snd (probe sy (w_outside ?w))\<rparr>))) = w_events w @ ev @ tail"
    "set tail \<subseteq> {Requested MethodDaemonPing None}"
    using Suc[of "?w\<lparr>w_events := w_events ?w @ ev, w_outside := snd (probe sy (w_outside ?w))\<rparr>"] by auto
  with run ev show ?case by (cases "fst (probe sy (w_outside ?w))") auto
qed

lemma started_then_polls:
  "\<exists>tail. w_events (snd (run_state (do {
       err \<leftarrow> start_process sy args;
       (case err of Some e \<Rightarrow> ret (Some (''failed to start service: '' @ e)) | None \<Rightarrow> poll_service sy 20) }) w)) =
     w_events w @ Started args # tail \<and> set tail \<subseteq> {Requested MethodDaemonPing None}"
proof -
  let ?w = "w\<lparr>w_events := w_events w @ [Started args], w_outside := snd (sy_Start sy args (w_outside w))\<rparr>"
  obtain tail where "w_events (snd (run_state (poll_service sy 20) ?w)) = w_events ?w @ tail"
    "set tail \<subseteq> {Requested MethodDaemonPing None}" using poll_events by blast
  then show ?thesis
    by (cases "fst (sy_Start sy args (w_outside w))") (simp_all add: start_process_def del: poll_service.simps)
qed

text \<open>
  Starting the service in the background starts exactly one process, the program's own executable, and
  makes no request but pings.
\<close>

lemma background_start_events:
  assumes "sy_Executable sy = Inr exe"
  shows "\<exists>tail. w_events (snd (run_state (startServiceBackground sy) w)) =
      w_events w @ Started [exe, ''service'', ''start''] # tail \<and> set tail \<subseteq> {Requested MethodDaemonPing None}"
    "\<exists>tail. w_events (snd (run_state (startServiceInBackground sy) w)) =
      w_events w @ Started [exe, ''service'', ''start'', ''--foreground''] # tail \<and>
      set tail \<subseteq> {Requested MethodDaemonPing None}"
  unfolding startServiceBackground_def startServiceInBackground_def assms sum.case
  by (rule started_then_polls)+

end
