(* ===== verification/Spec2Isabelle.thy ===== *)
theory Spec2Isabelle
  imports Config SSH_Hosts Auth Tunnel Manager_Props Protocol Daemon_Props Client_Props TUI_Props Command_Tree
begin

text \<open>
  Verification of \<^verbatim>\<open>gurren\<close>, a manager of SSH tunnels.  A daemon owns the tunnels; the command line and
  the terminal interface are clients that talk to it in JSON over a Unix socket.

  \<^bold>\<open>The parts and their models.\<close>

  \<^item> \<open>Gurren_Prelude\<close>: results of fallible functions (\<open>'e + 'a\<close>), Go maps as association lists whose
    iteration order is an argument, reachability, and the interfaces used throughout as locales:
    \<open>invariant_system\<close>, \<open>refinement_system\<close>, \<open>terminating_system\<close>, \<open>codec\<close>.
  \<^item> \<open>Go_Text\<close>: the functions of Go's standard library on strings that the program uses, over byte
    strings: \<^verbatim>\<open>strings\<close>, \<^verbatim>\<open>strconv.Quote\<close>, UTF-8 decoding, \<^verbatim>\<open>path/filepath\<close>.
  \<^item> \<open>Config\<close> (\<^verbatim>\<open>internal/config/config.go\<close>): the configuration file.  The viper library is a record of
    operations; \<open>loaded_viper\<close> is the instance that \<^verbatim>\<open>Load\<close> decodes.  Shown: which files are read, what the
    names are after loading, and exactly when they are unique.
  \<^item> \<open>SSH_Hosts\<close> (\<^verbatim>\<open>internal/sshconfig/sshconfig.go\<close>, \<^verbatim>\<open>parseHost\<close> of \<^verbatim>\<open>daemon/handlers.go\<close> and of
    \<^verbatim>\<open>tui/details.go\<close>): aliases and addresses.  The library that reads \<^verbatim>\<open>~/.ssh/config\<close> is a parameter.
  \<^item> \<open>Auth\<close> (\<^verbatim>\<open>internal/auth\<close>): the three authenticators behind the Go interface and the selection of
    methods.  Agent socket, file system and key parser are fields of an environment; the terminal is a
    state, so prompts are visible.  Shown: what identity files lead to, against a reference by position, and
    which prompts a choice by name causes.
  \<^item> \<open>Tunnel\<close> (\<^verbatim>\<open>internal/tunnel/state.go, tunnel.go\<close>): \<^verbatim>\<open>Start\<close> and \<^verbatim>\<open>handleConnection\<close> as a transition
    system of the accept loop, the goroutine that waits for the context, the connection goroutines
    and their copying goroutines.  Shown: everything is closed on return, no goroutine blocks on its
    channel, and how a cancelled tunnel ends: after at most \<open>run_weight\<close> steps and six more for each connection
    still accepted it has returned or waits for a connection whose dial never returns.  The dials take no
    context, so the model lets them hang.
  \<^item> \<open>Manager\<close>, \<open>Manager_Inv\<close>, \<open>Manager_Spec\<close>, \<open>Manager_Props\<close> (\<^verbatim>\<open>internal/tunnel/manager.go\<close>): one definition
    for every section between taking and releasing the lock; a heap of \<^verbatim>\<open>ManagedTunnel\<close> cells, since
    goroutines keep pointers; contexts as numbers; goroutines as tasks that \<open>mgr_step\<close> interleaves in
    every way.  The invariant is proved section by section; the abstract lifecycle \<open>life_step\<close> is refined
    step by step, and the three sections of \<^verbatim>\<open>Start\<close> make exactly their own lifecycle step.
  \<^item> \<open>Protocol\<close> (\<^verbatim>\<open>internal/daemon/protocol.go\<close>): messages, and what \<^verbatim>\<open>encoding/json\<close> does with their struct
    tags, over JSON syntax trees.  Every encoder and decoder is an instance of \<open>codec\<close>.
  \<^item> \<open>Daemon\<close>, \<open>Daemon_Props\<close> (\<^verbatim>\<open>internal/daemon/daemon.go, handlers.go\<close>): handlers, dispatch, connections,
    broadcast, start, shutdown.  \<^verbatim>\<open>tunnel.start\<close> releases the lock and sleeps; what the other goroutines do
    at each such place is the field \<open>he_others\<close> of the environment, assumed to be steps of the manager
    (\<open>others_ok\<close>).  The locale \<open>request_handler\<close> is the contract of a handler; all eight handlers and
    the dispatch are instances.
  \<^item> \<open>Client\<close>, \<open>Client_Props\<close> (\<^verbatim>\<open>internal/daemon/client.go\<close>): the reading loop, concurrent calls as a
    transition system with the 64-bit counter as a word, the client's methods, and their composition
    with the daemon across the wire.

  \<^item> \<open>Go_Print\<close>: what the interface and the commands print with: \<^verbatim>\<open>strings.Repeat, Count, ReplaceAll\<close>, rune counts,
    \<^verbatim>\<open>filepath.Dir\<close> and \<^verbatim>\<open>text/tabwriter\<close>, whose recursion over column blocks is shown to align a table of
    equally long rows as a direct reference does.
  \<^item> \<open>TUI_Styles\<close>, \<open>TUI_Panels\<close> (\<^verbatim>\<open>internal/tui/styles.go, keys.go, statusbar.go, details.go, tunnel_list.go\<close>): the
    panels and what they draw, byte for byte up to the library lipgloss.  A style is the sequence of calls that
    build it; lipgloss, \<^verbatim>\<open>bubbles/list\<close> and \<^verbatim>\<open>bubbles/key\<close> are records of operations over abstract types.  A slice or a
    repetition that would panic is \<open>None\<close>.
  \<^item> \<open>TUI_Model\<close>, \<open>TUI_Inv\<close>, \<open>TUI_Props\<close> (\<^verbatim>\<open>internal/tui/tui.go\<close>): the model, \<^verbatim>\<open>Update\<close> on every message, the view, and the
    runtime as the transition system \<open>tui_step\<close>: commands run concurrently, messages are handled one at a time
    in any order.  Shown, with \<open>list_laws\<close> for what the list library documents: notifications are handled in
    order by one listener, the list equals a reference computed from the history, loading shows the
    manager's tunnels, the toggle key stops or starts the selected tunnel, panel sizes, a total view.
  \<^item> \<open>Commands\<close>, \<open>Service\<close>, \<open>Command_Tree\<close>, \<open>Commands_Props\<close>, \<open>Service_Props\<close> (\<^verbatim>\<open>internal/cmd\<close>, \<^verbatim>\<open>main.go\<close>): every command in the state
    monad of the library over a world of printed lines, files and everything outside, which answers through
    the record \<open>system\<close>; the wait of \<^verbatim>\<open>connect\<close> and the process of the service, with its main goroutine and its signal channel,
    are transition systems; the command tree is data.  Shown: the polling loop is bounded and when it succeeds, the table of \<^verbatim>\<open>ls\<close>,
    \<^verbatim>\<open>disconnect\<close> against the daemon, when \<^verbatim>\<open>connect\<close> ends, installing and uninstalling (\<open>unit_file\<close> is the
    specification of the unit), and which process the program starts.

  \<^bold>\<open>Choices.\<close>  Functions that end are total functions; loops that depend on the network or on other
  goroutines are transition systems with explicit measures, so no fuel is used.  Network errors,
  schedules, iteration orders of maps, the clock and the name generator are arguments or
  nondeterministic.  The daemon's log is not modelled.  A JSON text is its syntax tree: white space, escapes
  and the depth limit of the decoder are left out, and the reuse of a slice's capacity when an object
  repeats a key three times.  A broadcast to all subscribers is one step; claims are per subscriber.

  Widths and heights of the terminal are unbounded integers: they come from the terminal and are far from
  the limits of a 64-bit integer.  The reading end of the client's channel of notifications appears in the
  interface and in \<^verbatim>\<open>connect\<close> as a queue of at most a hundred, which drops what finds it full, as \<open>Client\<close> does.

  \<^bold>\<open>Not modelled.\<close>  The bytes that a tunnel copies; the SSH handshake, lipgloss, bubbles, the terminal runtime
  beyond its documented order of events, and cobra's parsing of arguments (libraries); the text layout of
  \<^verbatim>\<open>ls --json\<close> beyond the value it prints; log lines of the daemon.
\<close>

end
